(* ===== verification/Prelude.thy ===== *)
theory Prelude
  imports Main "HOL-Library.Word"
begin

text \<open>
  Shared vocabulary of the development: bytes and C buffers, the outcome type of a C function
  (with undefined behaviour as an outcome of its own), a state-and-outcome monad for functions
  that update a structure in place, C string comparison, and the big-endian 32-bit length
  header of \<^verbatim>\<open>oqs_prov.h\<close>.

  A C buffer is a list of bytes and a C pointer into it is an offset. Every access goes through
  \<open>rd\<close> and \<open>wr\<close>, which yield \<open>UB\<close> outside the buffer, so "the code never reads or writes out
  of bounds" is the statement that an outcome is never \<open>Inl UB\<close>.
\<close>

unbundle bit_operations_syntax

named_theorems buf_simps \<open>buffer accesses whose bounds are known\<close>
named_theorems st_simps \<open>unfolding of the state-and-outcome monad\<close>
named_theorems safe_intros \<open>rules for the safety triple\<close>

type_synonym byte = "8 word"
type_synonym bytes = "byte list"

subsection \<open>Outcomes\<close>

text \<open>The reasons the code passes to \<^verbatim>\<open>ERR_raise\<close>: the provider's own codes, then OpenSSL's.\<close>

datatype reason =
    INVALID_DIGEST | INVALID_SIZE | INVALID_KEY | UNSUPPORTED | MISSING_OID | OBJ_CREATE_ERR
  | INVALID_ENCODING | SIGN_ERROR | LIB_CREATE_ERR | NO_PRIVATE_KEY | BUFFER_LENGTH_WRONG
  | SIGNING_FAILED | WRONG_PARAMETERS | VERIFY_ERROR | EVPINFO_MISSING | INTERNAL_ERROR
  | MALLOC_FAILURE | FATAL | PASSED_NULL_PARAMETER | PASSED_INVALID_ARGUMENT | UNEXPECTED_NULL
  | UNABLE_TO_GET_PASSPHRASE | NOT_A_PRIVATE_KEY | NOT_A_PUBLIC_KEY

text \<open>
  A call that does not succeed either raises a reason, fails without raising one, or has
  undefined behaviour in C (an access outside a buffer, or through a NULL or indeterminate
  pointer, an assertion that fails).
\<close>

datatype failure = Raise reason | Quiet | UB

type_synonym 'a res = "failure + 'a"

definition ensure :: "bool \<Rightarrow> failure \<Rightarrow> unit res" where
  "ensure c e = (if c then Inr () else Inl e)"

definition of_option :: "failure \<Rightarrow> 'a option \<Rightarrow> 'a res" where
  "of_option e x = (case x of None \<Rightarrow> Inl e | Some y \<Rightarrow> Inr y)"

definition bindR :: "'a res \<Rightarrow> ('a \<Rightarrow> 'b res) \<Rightarrow> 'b res" where
  "bindR m f = (case m of Inl e \<Rightarrow> Inl e | Inr x \<Rightarrow> f x)"

lemma bindR_simps [simp]: "bindR (Inl e) f = Inl e" "bindR (Inr x) f = f x"
  by (simp_all add: bindR_def)

lemma ensure_simps [simp]: "ensure True e = Inr ()" "ensure False e = Inl e"
  by (simp_all add: ensure_def)

lemma of_option_simps [simp]: "of_option e None = Inl e" "of_option e (Some x) = Inr x"
  by (simp_all add: of_option_def)

lemma bindR_eq_Inr: "bindR m f = Inr y \<longleftrightarrow> (\<exists>x. m = Inr x \<and> f x = Inr y)"
  by (cases m) auto

lemma bindR_eq_UB: "bindR m f = Inl UB \<longleftrightarrow> m = Inl UB \<or> (\<exists>x. m = Inr x \<and> f x = Inl UB)"
  by (cases m) auto

lemma ensure_eq_Inr [simp]: "ensure c e = Inr u \<longleftrightarrow> c"
  by (simp add: ensure_def)

lemma ensure_eq_Inl [simp]: "ensure c e = Inl x \<longleftrightarrow> \<not> c \<and> x = e"
  by (auto simp: ensure_def)

lemma of_option_eq_Inr [simp]: "of_option e x = Inr y \<longleftrightarrow> x = Some y"
  by (cases x) auto

lemma of_option_eq_Inl [simp]: "of_option e x = Inl y \<longleftrightarrow> x = None \<and> y = e"
  by (cases x) auto

subsection \<open>Functions that update a structure in place\<close>

text \<open>
  A C function that takes a pointer to a structure and returns a status is a function from the
  structure to the outcome and the structure afterwards: a failing call keeps the writes it
  made before it failed.
\<close>

type_synonym ('s, 'a) st = "'s \<Rightarrow> 'a res \<times> 's"

definition retS :: "'a \<Rightarrow> ('s, 'a) st" where
  "retS x = (\<lambda>s. (Inr x, s))"

definition failS :: "failure \<Rightarrow> ('s, 'a) st" where
  "failS e = (\<lambda>s. (Inl e, s))"

definition liftS :: "'a res \<Rightarrow> ('s, 'a) st" where
  "liftS r = (\<lambda>s. (r, s))"

definition getS :: "('s \<Rightarrow> 'a) \<Rightarrow> ('s, 'a) st" where
  "getS f = (\<lambda>s. (Inr (f s), s))"

definition readS :: "('s \<Rightarrow> 'a res) \<Rightarrow> ('s, 'a) st" where
  "readS f = (\<lambda>s. (f s, s))"

definition modS :: "('s \<Rightarrow> 's) \<Rightarrow> ('s, unit) st" where
  "modS f = (\<lambda>s. (Inr (), f s))"

definition ensureS :: "bool \<Rightarrow> failure \<Rightarrow> ('s, unit) st" where
  "ensureS c e = liftS (ensure c e)"

definition bindS :: "('s, 'a) st \<Rightarrow> ('a \<Rightarrow> ('s, 'b) st) \<Rightarrow> ('s, 'b) st" where
  "bindS m f = (\<lambda>s. case m s of (Inl e, s') \<Rightarrow> (Inl e, s') | (Inr x, s') \<Rightarrow> f x s')"

definition thenS :: "('s, unit) st \<Rightarrow> ('s, 'b) st \<Rightarrow> ('s, 'b) st" where
  "thenS m n = bindS m (\<lambda>_. n)"

lemma st_basics [st_simps]:
  "retS x s = (Inr x, s)" "failS e s = (Inl e, s)" "liftS r s = (r, s)"
  "getS f s = (Inr (f s), s)" "readS g s = (g s, s)" "modS h s = (Inr (), h s)"
  "ensureS c e s = (ensure c e, s)"
  by (simp_all add: retS_def failS_def liftS_def getS_def readS_def modS_def ensureS_def)

lemma bindS_Inr: "m s = (Inr x, s') \<Longrightarrow> bindS m f s = f x s'"
  by (simp add: bindS_def)

lemma bindS_Inl: "m s = (Inl e, s') \<Longrightarrow> bindS m f s = (Inl e, s')"
  by (simp add: bindS_def)

lemma bindS_basics [st_simps]:
  "bindS (retS x) f s = f x s" "bindS (failS e) f s = (Inl e, s)"
  "bindS (getS g) f s = f (g s) s" "bindS (modS h) k s = k () (h s)"
  "bindS (liftS (Inr y)) q s = q y s" "bindS (liftS (Inl e')) q s = (Inl e', s)"
  by (simp_all add: bindS_def st_simps)

lemma bindS_readS: "g s = Inr v \<Longrightarrow> bindS (readS g) f s = f v s"
  by (simp add: bindS_def st_simps)

lemma thenS_basics [st_simps]:
  "thenS (retS ()) n s = n s" "thenS (failS e) n s = (Inl e, s)"
  "thenS (modS h) n s = n (h s)"
  "thenS (ensureS c e) n s = (if c then n s else (Inl e, s))"
  by (simp_all add: thenS_def bindS_def st_simps ensureS_def ensure_def)

text \<open>A call whose failure the caller tests for: undefined behaviour is not caught.\<close>

definition tryS :: "('s, 'a) st \<Rightarrow> ('s, 'a option) st" where
  "tryS m = (\<lambda>s. case m s of
       (Inl UB, s') \<Rightarrow> (Inl UB, s')
     | (Inl _, s') \<Rightarrow> (Inr None, s')
     | (Inr x, s') \<Rightarrow> (Inr (Some x), s'))"

lemma tryS_Inr: "m s = (Inr x, s') \<Longrightarrow> tryS m s = (Inr (Some x), s')"
  by (simp add: tryS_def)

lemma tryS_Inl: "m s = (Inl e, s') \<Longrightarrow> e \<noteq> UB \<Longrightarrow> tryS m s = (Inr None, s')"
  by (cases e) (simp_all add: tryS_def)

lemma tryS_UB: "fst (tryS m s) = Inl UB \<longleftrightarrow> fst (m s) = Inl UB"
  by (auto simp: tryS_def split: prod.splits sum.splits failure.splits)

text \<open>
  The safety triple: from a state that satisfies \<open>P\<close> the function never has undefined
  behaviour, satisfies \<open>Q\<close> when it succeeds and \<open>E\<close> when it reports a failure.
\<close>

definition safe :: "('s \<Rightarrow> bool) \<Rightarrow> ('s, 'a) st \<Rightarrow> ('a \<Rightarrow> 's \<Rightarrow> bool) \<Rightarrow> ('s \<Rightarrow> bool) \<Rightarrow> bool" where
  "safe P m Q E \<longleftrightarrow> (\<forall>s. P s \<longrightarrow>
     (case m s of (Inr x, s') \<Rightarrow> Q x s' | (Inl e, s') \<Rightarrow> e \<noteq> UB \<and> E s'))"

lemma safe_bind:
  assumes "safe P m R E" and "\<And>x. safe (R x) (f x) Q E"
  shows "safe P (bindS m f) Q E"
proof (unfold safe_def, intro allI impI)
  fix s assume "P s"
  with assms(1) have m: "case m s of (Inr x, s') \<Rightarrow> R x s' | (Inl e, s') \<Rightarrow> e \<noteq> UB \<and> E s'"
    by (auto simp: safe_def)
  show "case bindS m f s of (Inr x, s') \<Rightarrow> Q x s' | (Inl e, s') \<Rightarrow> e \<noteq> UB \<and> E s'"
    using m assms(2) by (cases "m s"; cases "fst (m s)") (auto simp: bindS_def safe_def)
qed

lemma safe_then:
  assumes "safe P m (\<lambda>_. R) E" and "safe R n Q E"
  shows "safe P (thenS m n) Q E"
  unfolding thenS_def using assms by (rule safe_bind)

lemma safe_weaken:
  "safe P m Q E \<Longrightarrow> (\<And>s. P' s \<Longrightarrow> P s) \<Longrightarrow> (\<And>x s. Q x s \<Longrightarrow> Q' x s) \<Longrightarrow> (\<And>s. E s \<Longrightarrow> E' s)
    \<Longrightarrow> safe P' m Q' E'"
  by (fastforce simp: safe_def split: prod.splits sum.splits)

lemma safe_not_UB: "safe P m Q E \<Longrightarrow> P s \<Longrightarrow> fst (m s) \<noteq> Inl UB"
  by (cases "m s"; cases "fst (m s)") (auto simp: safe_def dest!: spec [of _ s])

lemma safe_Inr: "safe P m Q E \<Longrightarrow> P s \<Longrightarrow> m s = (Inr x, s') \<Longrightarrow> Q x s'"
  by (auto simp: safe_def split: prod.splits sum.splits)

lemma safe_retI: "(\<And>s. P s \<Longrightarrow> Q x s) \<Longrightarrow> safe P (retS x) Q E"
  by (simp add: safe_def st_simps)

lemma safe_pure: "(c \<Longrightarrow> safe P m Q E) \<Longrightarrow> safe (\<lambda>s. P s \<and> c) m Q E"
  by (auto simp: safe_def)

lemma safe_fail: "e \<noteq> UB \<Longrightarrow> (\<And>s. P s \<Longrightarrow> E s) \<Longrightarrow> safe P (failS e) Q E"
  by (simp add: safe_def st_simps)

lemma safe_ensure_then:
  "e \<noteq> UB \<Longrightarrow> (\<And>s. P s \<Longrightarrow> E s) \<Longrightarrow> (c \<Longrightarrow> safe P n Q E) \<Longrightarrow> safe P (thenS (ensureS c e) n) Q E"
  by (cases c) (auto simp: safe_def st_simps)

lemma safe_option_bind:
  "e \<noteq> UB \<Longrightarrow> (\<And>s. P s \<Longrightarrow> E s) \<Longrightarrow> (\<And>x. r = Some x \<Longrightarrow> safe P (f x) Q E)
    \<Longrightarrow> safe P (bindS (liftS (of_option e r)) f) Q E"
  by (cases r) (auto simp: safe_def st_simps)

lemma safe_lift_bind: "r = Inr v \<Longrightarrow> safe P (f v) Q E \<Longrightarrow> safe P (bindS (liftS r) f) Q E"
  by (auto simp: safe_def bindS_def liftS_def)

lemma safe_read_bind:
  "(\<And>s. P s \<Longrightarrow> g s = Inr v) \<Longrightarrow> safe P (f v) Q E \<Longrightarrow> safe P (bindS (readS g) f) Q E"
  by (auto simp: safe_def bindS_def readS_def)

lemma safe_get_bind:
  "(\<And>s. P s \<Longrightarrow> g s = v) \<Longrightarrow> safe P (f v) Q E \<Longrightarrow> safe P (bindS (getS g) f) Q E"
  by (auto simp: safe_def bindS_def getS_def)

lemma safe_mod_then:
  "(\<And>s. P s \<Longrightarrow> R (h s)) \<Longrightarrow> safe R n Q E \<Longrightarrow> safe P (thenS (modS h) n) Q E"
  by (auto simp: safe_def st_simps)

lemma safe_try:
  "safe P m Q E \<Longrightarrow> safe P (tryS m) (\<lambda>r s. case r of None \<Rightarrow> E s | Some x \<Rightarrow> Q x s) E'"
  by (fastforce simp: safe_def tryS_def split: prod.splits sum.splits failure.splits)

lemma safe_at: "safe P m Q E \<Longrightarrow> P s \<Longrightarrow> case m s of (Inr x, s') \<Rightarrow> Q x s' | (Inl e, s') \<Rightarrow> e \<noteq> UB \<and> E s'"
  by (auto simp: safe_def)

subsection \<open>Buffers\<close>

definition rd :: "bytes \<Rightarrow> nat \<Rightarrow> nat \<Rightarrow> bytes res" where
  "rd b off n = (if off + n \<le> length b then Inr (take n (drop off b)) else Inl UB)"

definition wr :: "bytes \<Rightarrow> nat \<Rightarrow> bytes \<Rightarrow> bytes res" where
  "wr b off d =
     (if off + length d \<le> length b then Inr (take off b @ d @ drop (off + length d) b) else Inl UB)"

text \<open>\<open>patch\<close> is the buffer after an in-bounds write; \<open>slice\<close> the bytes an in-bounds read returns.\<close>

definition patch :: "bytes \<Rightarrow> nat \<Rightarrow> bytes \<Rightarrow> bytes" where
  "patch b off d = take off b @ d @ drop (off + length d) b"

definition slice :: "bytes \<Rightarrow> nat \<Rightarrow> nat \<Rightarrow> bytes" where
  "slice b off n = take n (drop off b)"

lemma rd_ok [buf_simps]: "off + n \<le> length b \<Longrightarrow> rd b off n = Inr (slice b off n)"
  by (simp add: rd_def slice_def)

lemma wr_ok [buf_simps]: "off + length d \<le> length b \<Longrightarrow> wr b off d = Inr (patch b off d)"
  by (simp add: wr_def patch_def)

lemma rd_Inr [simp]: "rd b off n = Inr x \<longleftrightarrow> off + n \<le> length b \<and> x = slice b off n"
  by (auto simp: rd_def slice_def)

lemma wr_Inr [simp]: "wr b off d = Inr b' \<longleftrightarrow> off + length d \<le> length b \<and> b' = patch b off d"
  by (auto simp: wr_def patch_def)

lemma rd_Inl [simp]: "rd b off n = Inl e \<longleftrightarrow> length b < off + n \<and> e = UB"
  by (auto simp: rd_def)

lemma wr_Inl [simp]: "wr b off d = Inl e \<longleftrightarrow> length b < off + length d \<and> e = UB"
  by (auto simp: wr_def)

lemma length_patch [simp]: "off + length d \<le> length b \<Longrightarrow> length (patch b off d) = length b"
  by (simp add: patch_def)

lemma length_slice [simp]: "off + n \<le> length b \<Longrightarrow> length (slice b off n) = n"
  by (simp add: slice_def)

lemma slice_patch_same [buf_simps]:
  "off + length d \<le> length b \<Longrightarrow> n = length d \<Longrightarrow> slice (patch b off d) off n = d"
  by (simp add: slice_def patch_def)

lemma slice_patch_before [buf_simps]:
  "off + length d \<le> length b \<Longrightarrow> o2 + n \<le> off \<Longrightarrow> slice (patch b off d) o2 n = slice b o2 n"
  by (simp add: slice_def patch_def take_drop min_absorb1)

lemma slice_patch_after [buf_simps]:
  "off + length d \<le> length b \<Longrightarrow> off + length d \<le> o2 \<Longrightarrow>
   slice (patch b off d) o2 n = slice b o2 n"
  by (simp add: slice_def patch_def drop_append)

lemma slice_all [simp]: "slice b 0 (length b) = b"
  by (simp add: slice_def)

lemma slice_append_left [buf_simps]: "off + n \<le> length a \<Longrightarrow> slice (a @ b) off n = slice a off n"
  by (simp add: slice_def)

lemma slice_append_right [buf_simps]:
  "length a \<le> off \<Longrightarrow> slice (a @ b) off n = slice b (off - length a) n"
  by (simp add: slice_def)

lemma slice_append_whole [buf_simps]: "n = length a \<Longrightarrow> slice (a @ b) 0 n = a"
  by (simp add: slice_def)

lemma slice_self [buf_simps]: "n = length b \<Longrightarrow> slice b 0 n = b"
  by (simp add: slice_def)

lemma slice_slice [buf_simps]:
  "i + k \<le> n \<Longrightarrow> slice (slice b off n) i k = slice b (off + i) k"
  by (simp add: slice_def drop_take min_def add.commute)

lemma slice_split: "slice b off n @ slice b (off + n) k = slice b off (n + k)"
  by (simp add: slice_def take_add add.commute [of off])

lemma patch_outside:
  assumes "so \<le> off" and "off + length d \<le> so + n" and "so + n \<le> length b"
  shows "take so (patch b off d) = take so b" and "drop (so + n) (patch b off d) = drop (so + n) b"
proof -
  show "take so (patch b off d) = take so b"
    using assms by (simp add: patch_def min_absorb1)
  have "drop (so + n) (patch b off d) = drop (so + n - (off + length d)) (drop (off + length d) b)"
    using assms by (simp add: patch_def drop_append min_absorb2)
  with assms show "drop (so + n) (patch b off d) = drop (so + n) b"
    by simp
qed

text \<open>Two buffers that agree on adjacent slices agree on their union.\<close>

lemma slice_join_eq:
  "slice a o1 n = slice b o2 n \<Longrightarrow> slice a (o1 + n) k = slice b (o2 + n) k
    \<Longrightarrow> slice a o1 (n + k) = slice b o2 (n + k)"
  by (simp flip: slice_split)

subsection \<open>C strings\<close>

definition cstr :: "string \<Rightarrow> string" where
  "cstr s = s @ [CHR 0x00]"

definition cstr_at :: "string \<Rightarrow> nat \<Rightarrow> char res" where
  "cstr_at s i = (if i \<le> length s then Inr (cstr s ! i) else Inl UB)"

definition strncmp_eq :: "string \<Rightarrow> string \<Rightarrow> nat \<Rightarrow> bool" where
  "strncmp_eq s t n \<longleftrightarrow> take n (cstr s) = take n (cstr t)"

definition tolower_char :: "char \<Rightarrow> char" where
  "tolower_char c =
     (if 65 \<le> (of_char c :: nat) \<and> (of_char c :: nat) \<le> 90 then char_of (of_char c + 32 :: nat)
      else c)"

definition toupper_char :: "char \<Rightarrow> char" where
  "toupper_char c =
     (if 97 \<le> (of_char c :: nat) \<and> (of_char c :: nat) \<le> 122 then char_of (of_char c - 32 :: nat)
      else c)"

definition strncasecmp_eq :: "string \<Rightarrow> string \<Rightarrow> nat \<Rightarrow> bool" where
  "strncasecmp_eq s t n \<longleftrightarrow> strncmp_eq (map tolower_char s) (map tolower_char t) n"

definition strcasecmp_eq :: "string \<Rightarrow> string \<Rightarrow> bool" where
  "strcasecmp_eq s t \<longleftrightarrow> map tolower_char s = map tolower_char t"

lemma strncmp_eq_prefix: "strncmp_eq s t (length t) \<longleftrightarrow> take (length t) (s @ [CHR 0x00]) = t"
  by (auto simp: strncmp_eq_def cstr_def)

subsection \<open>The 32-bit length header\<close>

text \<open>The bytes \<^verbatim>\<open>ENCODE_UINT32(pbuf, i)\<close> stores at \<open>pbuf\<close>; \<open>i\<close> is a \<^verbatim>\<open>size_t\<close> at its call sites.\<close>

definition ENCODE_UINT32 :: "64 word \<Rightarrow> bytes" where
  "ENCODE_UINT32 i =
     [ucast (drop_bit 24 i AND 0xff), ucast (drop_bit 16 i AND 0xff),
      ucast (drop_bit 8 i AND 0xff), ucast (i AND 0xff)]"

text \<open>\<^verbatim>\<open>DECODE_UINT32(i, pbuf)\<close> reads four bytes into a \<^verbatim>\<open>uint32_t\<close>.\<close>

definition DECODE_UINT32 :: "bytes \<Rightarrow> 32 word" where
  "DECODE_UINT32 b =
     (let i = push_bit 24 (ucast (b ! 0) :: 32 word);
          i = i OR push_bit 16 (ucast (b ! 1));
          i = i OR push_bit 8 (ucast (b ! 2))
      in i OR ucast (b ! 3))"

definition SIZE_OF_UINT32 :: nat where
  "SIZE_OF_UINT32 = 4"

lemma SIZE_OF_UINT32_eq [simp]: "SIZE_OF_UINT32 = 4"
  by (simp add: SIZE_OF_UINT32_def)

lemma length_ENCODE_UINT32 [simp]: "length (ENCODE_UINT32 i) = 4"
  by (simp add: ENCODE_UINT32_def)

lemma byte_mask_64: "(0xff :: 64 word) = mask 8"
  by (simp add: mask_eq_exp_minus_1)

lemma DECODE_ENCODE_UINT32: "DECODE_UINT32 (ENCODE_UINT32 i) = ucast i"
proof (rule bit_word_eqI)
  fix n assume n: "n < LENGTH(32)"
  have "n < 8 \<or> 8 \<le> n \<and> n < 16 \<or> 16 \<le> n \<and> n < 24 \<or> 24 \<le> n"
    by arith
  then show "bit (DECODE_UINT32 (ENCODE_UINT32 i)) n = bit (ucast i :: 32 word) n"
    using n unfolding DECODE_UINT32_def ENCODE_UINT32_def Let_def byte_mask_64
    by (elim disjE; simp add: bit_simps; auto)
qed

lemma DECODE_UINT32_zero: "DECODE_UINT32 (replicate 4 0) = 0"
  by (simp add: DECODE_UINT32_def numeral_eq_Suc)

text \<open>The header as a natural number, the view the length computations take.\<close>

definition enc32 :: "nat \<Rightarrow> bytes" where
  "enc32 n = ENCODE_UINT32 (of_nat n)"

definition dec32 :: "bytes \<Rightarrow> nat" where
  "dec32 b = unat (DECODE_UINT32 b)"

lemma dec32_bound: "dec32 b < 2 ^ 32"
  using unsigned_less [of "DECODE_UINT32 b"] by (simp add: dec32_def)

lemma length_enc32 [simp]: "length (enc32 n) = 4"
  by (simp add: enc32_def)

lemma dec32_enc32: "n < 2 ^ 32 \<Longrightarrow> dec32 (enc32 n) = n"
  by (simp add: dec32_def enc32_def DECODE_ENCODE_UINT32 unsigned_ucast_eq unsigned_of_nat
      take_bit_take_bit take_bit_nat_eq_self)

text \<open>
  A header codec that always fills the same number of bytes. Clients write a header into a buffer
  at an offset and read it back later, after writing elsewhere: the lemmas say that the reader
  gets the writer's value as long as the writes in between stay outside the header.
\<close>

locale header_codec =
  fixes enc :: "'a \<Rightarrow> bytes" and dec :: "bytes \<Rightarrow> 'a" and valid :: "'a \<Rightarrow> bool" and width :: nat
  assumes enc_width: "length (enc x) = width"
    and dec_enc: "valid x \<Longrightarrow> dec (enc x) = x"
begin

lemma enc_inj: "valid x \<Longrightarrow> valid y \<Longrightarrow> enc x = enc y \<Longrightarrow> x = y"
  using dec_enc by metis

lemma read_back:
  "valid x \<Longrightarrow> wr b off (enc x) = Inr b' \<Longrightarrow> dec (slice b' off width) = x"
  by (simp add: slice_patch_same enc_width dec_enc)

lemma read_back_after:
  assumes "valid x" and "wr b off (enc x) = Inr b1" and "wr b1 o2 d = Inr b2"
    and "off + width \<le> o2 \<or> o2 + length d \<le> off"
  shows "dec (slice b2 off width) = x"
  using assms by (auto simp: slice_patch_same slice_patch_before slice_patch_after enc_width dec_enc)

lemma prefix_decode: "valid x \<Longrightarrow> dec (slice (enc x @ rest) 0 width) = x"
  by (simp add: slice_append_whole enc_width dec_enc)

end

interpretation u32: header_codec enc32 dec32 "\<lambda>n. n < 2 ^ 32" 4
  by unfold_locales (simp_all add: dec32_enc32)

end
