(* ===== verification/Evp_Info.thy ===== *)
theory Evp_Info
  imports Prelude "HOL-Library.Signed_Division"
begin

text \<open>
  The classical half of a hybrid algorithm (\<^verbatim>\<open>oqsprov_keys.c\<close>, \<^verbatim>\<open>oqs_prov.h\<close>): the size tables
  \<^verbatim>\<open>nids_sig\<close>, \<^verbatim>\<open>nids_ecp\<close>, \<^verbatim>\<open>nids_ecbp\<close>, \<^verbatim>\<open>nids_ecx\<close>, the selection of a table entry from an
  algorithm name and a security level, and the set-up of an EVP context from that entry.
  The constants of OpenSSL's headers are distinct symbols; the outcomes of OpenSSL's calls are
  the fields of \<open>evp_calls\<close>.
\<close>

subsection \<open>Classical key descriptions\<close>

datatype evp_type =
  EVP_PKEY_EC | EVP_PKEY_RSA | EVP_PKEY_ED25519 | EVP_PKEY_ED448 | EVP_PKEY_X25519 | EVP_PKEY_X448

datatype evp_nid =
    NID_zero | NID_X9_62_prime256v1 | NID_secp384r1 | NID_secp521r1 | NID_brainpoolP256r1
  | NID_brainpoolP384r1 | NID_brainpoolP512r1 | NID_rsaEncryption | NID_ED25519 | NID_ED448

record evp_info =
  ei_keytype :: evp_type
  ei_nid :: evp_nid
  raw_key_support :: bool
  length_public_key :: nat
  length_private_key :: nat
  kex_length_secret :: nat
  length_signature :: nat

definition mk_info :: "evp_type \<Rightarrow> evp_nid \<Rightarrow> bool \<Rightarrow> nat \<Rightarrow> nat \<Rightarrow> nat \<Rightarrow> nat \<Rightarrow> evp_info" where
  "mk_info t n raw pub priv kex sig =
     \<lparr>ei_keytype = t, ei_nid = n, raw_key_support = raw, length_public_key = pub,
      length_private_key = priv, kex_length_secret = kex, length_signature = sig\<rparr>"

definition nids_sig :: "evp_info list" where
  "nids_sig =
     [mk_info EVP_PKEY_EC NID_X9_62_prime256v1 False 65 121 32 72,
      mk_info EVP_PKEY_EC NID_secp384r1 False 97 167 48 104,
      mk_info EVP_PKEY_EC NID_secp521r1 False 133 223 66 141,
      mk_info EVP_PKEY_EC NID_brainpoolP256r1 False 65 122 32 72,
      mk_info EVP_PKEY_EC NID_brainpoolP384r1 False 97 171 48 104,
      mk_info EVP_PKEY_RSA NID_rsaEncryption False 398 1770 0 384,
      mk_info EVP_PKEY_RSA NID_rsaEncryption False 270 1193 0 256,
      mk_info EVP_PKEY_ED25519 NID_ED25519 True 32 32 32 72,
      mk_info EVP_PKEY_ED448 NID_ED448 True 57 57 57 122]"

text \<open>The name arrays hold pointers: \<open>None\<close> is the NULL that ends \<^verbatim>\<open>OQSX_ECBP_NAMES\<close>.\<close>

definition OQSX_ECP_NAMES :: "string option list" where
  "OQSX_ECP_NAMES = [Some ''p256'', Some ''p384'', Some ''p521'',
     Some ''SecP256r1'', Some ''SecP384r1'', Some ''SecP521r1'']"

definition nids_ecp :: "evp_info list" where
  "nids_ecp =
     [mk_info EVP_PKEY_EC NID_X9_62_prime256v1 False 65 121 32 0,
      mk_info EVP_PKEY_EC NID_secp384r1 False 97 167 48 0,
      mk_info EVP_PKEY_EC NID_secp521r1 False 133 223 66 0,
      mk_info EVP_PKEY_EC NID_X9_62_prime256v1 False 65 121 32 0,
      mk_info EVP_PKEY_EC NID_secp384r1 False 97 167 48 0,
      mk_info EVP_PKEY_EC NID_secp521r1 False 133 223 66 0]"

definition OQSX_ECBP_NAMES :: "string option list" where
  "OQSX_ECBP_NAMES = [Some ''bp256'', Some ''bp384'', Some ''bp512'', None]"

definition nids_ecbp :: "evp_info list" where
  "nids_ecbp =
     [mk_info EVP_PKEY_EC NID_brainpoolP256r1 False 65 122 32 0,
      mk_info EVP_PKEY_EC NID_brainpoolP384r1 False 97 171 48 0,
      mk_info EVP_PKEY_EC NID_brainpoolP512r1 False 129 221 64 0]"

definition OQSX_ECX_NAMES :: "string option list" where
  "OQSX_ECX_NAMES = [Some ''x25519'', Some ''x448'']"

definition nids_ecx :: "evp_info list" where
  "nids_ecx =
     [mk_info EVP_PKEY_X25519 NID_zero True 32 32 32 0,
      mk_info EVP_PKEY_X448 NID_zero True 56 56 56 0]"

subsection \<open>EVP contexts and the outcomes of OpenSSL's set-up calls\<close>

record evp_ctx =
  ctx :: bool
  keyParam :: bool
  ec_info :: "evp_info option"

definition zalloc_evp_ctx :: evp_ctx where
  "zalloc_evp_ctx = \<lparr>ctx = False, keyParam = False, ec_info = None\<rparr>"

record evp_calls =
  pkey_new_ok :: bool
  set_type_ret :: int
  ctx_from_pkey_ok :: bool
  ctx_from_name_ok :: bool
  paramgen_init_ret :: int
  set_curve_nid_ret :: int
  paramgen_ret :: int
  paramgen_key_ok :: bool

definition all_calls_ok :: evp_calls where
  "all_calls_ok = \<lparr>pkey_new_ok = True, set_type_ret = 1, ctx_from_pkey_ok = True,
     ctx_from_name_ok = True, paramgen_init_ret = 1, set_curve_nid_ret = 1, paramgen_ret = 1,
     paramgen_key_ok = True\<rparr>"

definition index_info :: "evp_info list \<Rightarrow> int \<Rightarrow> evp_info res" where
  "index_info tbl i = (if 0 \<le> i \<and> i < int (length tbl) then Inr (tbl ! nat i) else Inl UB)"

subsection \<open>Hybrid signatures: \<^verbatim>\<open>oqsx_hybsig_init\<close>\<close>

text \<open>
  The index computation. \<open>(ret, Some idx)\<close> goes on with \<open>idx\<close>, \<open>(ret, None)\<close> jumps to
  \<^verbatim>\<open>err_init\<close> with \<open>ret\<close>. \<^verbatim>\<open>(bit_security - 128) / 64\<close> truncates towards zero.
\<close>

definition hybsig_index :: "int \<Rightarrow> string \<Rightarrow> (int \<times> int option) res" where
  "hybsig_index bit_security algname =
     (let idx = (bit_security - 128) sdiv 64 in
      if idx < 0 \<or> idx > 5 then Inr (1, None)
      else bindR
        (if strncmp_eq algname ''rsa'' 3 \<or> strncmp_eq algname ''pss'' 3
         then Inr (1, Some (idx + 5 + (if bit_security = 112 then 1 else 0)))
         else bindR (cstr_at algname 0) (\<lambda>c0.
           if c0 \<noteq> CHR ''p'' \<and> c0 \<noteq> CHR ''e''
           then (if c0 = CHR ''b''
                 then bindR (cstr_at algname 2) (\<lambda>c2.
                        Inr (1, Some (if c2 = CHR ''2'' then idx + 1 else idx)))
                 else Inr (0, None))
           else Inr (1, Some idx)))
        (\<lambda>(ret, ix). case ix of None \<Rightarrow> Inr (ret, None)
           | Some i \<Rightarrow> if i < 0 \<or> i > 6 then Inr (ret, None) else Inr (ret, Some i)))"

text \<open>
  \<^verbatim>\<open>&nids_sig[idx + 7]\<close> past the end of the table is undefined behaviour; the entry is
  dereferenced by the next call that uses it.
\<close>

definition oqsx_hybsig_init :: "int \<Rightarrow> evp_calls \<Rightarrow> evp_ctx \<Rightarrow> string \<Rightarrow> (int \<times> evp_ctx) res" where
  "oqsx_hybsig_init bit_security C ec algname =
     bindR (hybsig_index bit_security algname) (\<lambda>(ret, ix). case ix of
       None \<Rightarrow> Inr (ret, ec)
     | Some idx \<Rightarrow>
         bindR (cstr_at algname 0) (\<lambda>c0.
         if c0 = CHR ''e'' then
           bindR (index_info nids_sig (idx + 7)) (\<lambda>info.
             let ec = ec\<lparr>ec_info := Some info, keyParam := pkey_new_ok C\<rparr> in
             if \<not> pkey_new_ok C then Inr (-1, ec)
             else if set_type_ret C \<le> 0 then Inr (-1, ec)
             else let ec = ec\<lparr>ctx := ctx_from_pkey_ok C\<rparr> in
               if \<not> ctx_from_pkey_ok C then Inr (-1, ec) else Inr (set_type_ret C, ec))
         else
           bindR (index_info nids_sig idx) (\<lambda>info.
             let ec = ec\<lparr>ec_info := Some info, ctx := ctx_from_name_ok C\<rparr> in
             if \<not> ctx_from_name_ok C then Inr (ret, ec)
             else if idx < 5 then
               (if paramgen_init_ret C \<le> 0 then Inr (paramgen_init_ret C, ec)
                else if set_curve_nid_ret C \<le> 0 then Inr (set_curve_nid_ret C, ec\<lparr>ctx := False\<rparr>)
                else let ec = ec\<lparr>keyParam := paramgen_key_ok C\<rparr> in
                  if paramgen_ret C \<le> 0 \<or> \<not> paramgen_key_ok C
                  then Inr (paramgen_ret C, ec\<lparr>ctx := False\<rparr>)
                  else Inr (paramgen_ret C, ec))
             else Inr (ret, ec))))"

subsection \<open>Hybrid KEMs: \<^verbatim>\<open>oqshybkem_init_ecp\<close>, \<^verbatim>\<open>_ecbp\<close>, \<^verbatim>\<open>_ecx\<close>\<close>

text \<open>
  The search loop over a name array: \<^verbatim>\<open>strncasecmp(tls_name, NAMES[i], strlen(NAMES[i]))\<close> for
  every \<open>i\<close> below \<^verbatim>\<open>OSSL_NELEM\<close>, and \<^verbatim>\<open>strlen(NULL)\<close> is undefined.
\<close>

fun find_name :: "string \<Rightarrow> string option list \<Rightarrow> nat \<Rightarrow> nat option res" where
  "find_name t [] i = Inr None"
| "find_name t (None # ns) i = Inl UB"
| "find_name t (Some n # ns) i =
     (if strncasecmp_eq t n (length n) then Inr (Some i) else find_name t ns (Suc i))"

definition init_ec_curve ::
    "string option list \<Rightarrow> evp_info list \<Rightarrow> evp_calls \<Rightarrow> evp_ctx \<Rightarrow> string \<Rightarrow> (int \<times> evp_ctx) res" where
  "init_ec_curve names infos C ec tls_name =
     bindR (find_name tls_name names 0) (\<lambda>found. case found of
       None \<Rightarrow> Inr (1, ec)
     | Some i \<Rightarrow> bindR (index_info infos (int i)) (\<lambda>info.
         let ec = ec\<lparr>ec_info := Some info, ctx := ctx_from_name_ok C\<rparr> in
         if \<not> ctx_from_name_ok C then Inr (1, ec)
         else if paramgen_init_ret C \<le> 0 then Inr (paramgen_init_ret C, ec)
         else if set_curve_nid_ret C \<le> 0 then Inr (set_curve_nid_ret C, ec)
         else Inr (paramgen_ret C, ec\<lparr>keyParam := paramgen_key_ok C\<rparr>)))"

definition oqshybkem_init_ecp :: "evp_calls \<Rightarrow> evp_ctx \<Rightarrow> string \<Rightarrow> (int \<times> evp_ctx) res" where
  "oqshybkem_init_ecp = init_ec_curve OQSX_ECP_NAMES nids_ecp"

definition oqshybkem_init_ecbp :: "evp_calls \<Rightarrow> evp_ctx \<Rightarrow> string \<Rightarrow> (int \<times> evp_ctx) res" where
  "oqshybkem_init_ecbp = init_ec_curve OQSX_ECBP_NAMES nids_ecbp"

definition oqshybkem_init_ecx :: "evp_calls \<Rightarrow> evp_ctx \<Rightarrow> string \<Rightarrow> (int \<times> evp_ctx) res" where
  "oqshybkem_init_ecx C ec tls_name =
     bindR (find_name tls_name OQSX_ECX_NAMES 0) (\<lambda>found. case found of
       None \<Rightarrow> Inr (1, ec)
     | Some i \<Rightarrow> bindR (index_info nids_ecx (int i)) (\<lambda>info.
         let ec = ec\<lparr>ec_info := Some info, keyParam := pkey_new_ok C\<rparr> in
         if \<not> pkey_new_ok C then Inr (-1, ec)
         else if set_type_ret C \<le> 0 then Inr (-1, ec)
         else let ec = ec\<lparr>ctx := ctx_from_pkey_ok C\<rparr> in
           if \<not> ctx_from_pkey_ok C then Inr (-1, ec) else Inr (set_type_ret C, ec)))"

subsection \<open>\<^verbatim>\<open>setECParams\<close>: the DER curve parameters\<close>

definition setECParams_der :: "evp_nid \<Rightarrow> bytes option" where
  "setECParams_der nid = (case nid of
       NID_X9_62_prime256v1 \<Rightarrow>
         Some [0x06, 0x08, 0x2a, 0x86, 0x48, 0xce, 0x3d, 0x03, 0x01, 0x07]
     | NID_secp384r1 \<Rightarrow> Some [0x06, 0x05, 0x2b, 0x81, 0x04, 0x00, 0x22]
     | NID_secp521r1 \<Rightarrow> Some [0x06, 0x05, 0x2b, 0x81, 0x04, 0x00, 0x23]
     | NID_brainpoolP256r1 \<Rightarrow>
         Some [0x06, 0x09, 0x2b, 0x24, 0x03, 0x03, 0x02, 0x08, 0x01, 0x01, 0x07]
     | NID_brainpoolP384r1 \<Rightarrow>
         Some [0x06, 0x09, 0x2b, 0x24, 0x03, 0x03, 0x02, 0x08, 0x01, 0x01, 0x0b]
     | NID_brainpoolP512r1 \<Rightarrow>
         Some [0x06, 0x09, 0x2b, 0x24, 0x03, 0x03, 0x02, 0x08, 0x01, 0x01, 0x0d]
     | _ \<Rightarrow> None)"

subsection \<open>Which entry is selected, and when the selection leaves the tables\<close>

lemma div_64_bounds: "64 * (a div 64) \<le> a \<and> a < 64 * (a div 64) + (64::int)"
  using mult_div_mod_eq [of 64 a] pos_mod_bound [of 64 a] pos_mod_sign [of 64 a] by linarith

lemma sdiv_64_eq:
  "(b - 128) sdiv (64::int) = (if 128 \<le> b then (b - 128) div 64 else - ((128 - b) div 64))"
  by (simp add: signed_divide_int_def sgn_if)

lemma sdiv_64_nonneg: "0 \<le> (b - 128) sdiv (64::int) \<longleftrightarrow> 64 < b"
  using div_64_bounds [of "b - 128"] div_64_bounds [of "128 - b"]
  unfolding sdiv_64_eq by (cases "128 \<le> b"; simp; linarith)

lemma sdiv_64_ge: "0 < k \<Longrightarrow> k \<le> (b - 128) sdiv (64::int) \<longleftrightarrow> 128 + 64 * k \<le> b"
  using div_64_bounds [of "b - 128"] div_64_bounds [of "128 - b"]
  unfolding sdiv_64_eq by (cases "128 \<le> b"; simp; linarith)

lemma hybsig_index_range: "hybsig_index b s = Inr (r, Some i) \<Longrightarrow> 0 \<le> i \<and> i \<le> 6"
  by (auto simp: hybsig_index_def Let_def bindR_eq_Inr split: if_splits option.splits)

lemma cstr_at_0 [simp]: "cstr_at s 0 = Inr (cstr s ! 0)"
  by (simp add: cstr_at_def)

lemma hybsig_index_UB:
  "hybsig_index b s = Inl UB \<longleftrightarrow> 64 < b \<and> b < 512 \<and> s = ''b''"
proof -
  have five: "\<not> 5 < (b - 128) sdiv 64 \<longleftrightarrow> b < 512"
    using sdiv_64_ge [of 6 b] by auto
  have b_only: "\<not> 2 \<le> length s \<and> cstr s ! 0 = CHR ''b'' \<longleftrightarrow> s = ''b''"
    by (cases s; cases "tl s") (auto simp: cstr_def)
  show ?thesis
    using sdiv_64_nonneg [of b] five b_only
    by (auto simp: hybsig_index_def Let_def bindR_eq_UB cstr_at_def strncmp_eq_def cstr_def
        split: if_splits option.splits)
qed

lemma index_info_Inl [simp]:
  "index_info tbl i = Inl e \<longleftrightarrow> \<not> (0 \<le> i \<and> i < int (length tbl)) \<and> e = UB"
  by (auto simp: index_info_def)

lemma index_info_mem: "index_info tbl i = Inr x \<Longrightarrow> x \<in> set tbl"
  by (auto simp: index_info_def split: if_splits)

lemma length_tables [simp]:
  "length nids_sig = 9" "length nids_ecp = 6" "length nids_ecbp = 3" "length nids_ecx = 2"
  by (simp_all add: nids_sig_def nids_ecp_def nids_ecbp_def nids_ecx_def)

text \<open>For an Edwards-curve name the index is the security level's: nothing else shifts it.\<close>

lemma hybsig_index_e:
  assumes "cstr s ! 0 = CHR ''e''"
  shows "hybsig_index b s =
    (if 64 < b \<and> b < 512 then Inr (1, Some ((b - 128) sdiv 64)) else Inr (1, None))"
proof -
  from assms obtain t where s: "s = CHR ''e'' # t"
    by (cases s) (auto simp: cstr_def)
  have five: "\<not> 5 < (b - 128) sdiv 64 \<longleftrightarrow> b < 512"
    using sdiv_64_ge [of 6 b] by auto
  show ?thesis
    using sdiv_64_nonneg [of b] five
    by (auto simp: s hybsig_index_def Let_def strncmp_eq_def cstr_def)
qed

lemma oqsx_hybsig_init_UB:
  "oqsx_hybsig_init b C ec s = Inl UB \<longleftrightarrow>
     64 < b \<and> b < 512 \<and> (s = ''b'' \<or> 256 \<le> b \<and> cstr s ! 0 = CHR ''e'')"
proof (cases "cstr s ! 0 = CHR ''e''")
  case True
  have "s \<noteq> ''b''" using True by (auto simp: cstr_def)
  moreover have "2 \<le> (b - 128) sdiv 64 \<longleftrightarrow> 256 \<le> b"
    using sdiv_64_ge [of 2 b] by simp
  ultimately show ?thesis
    using True sdiv_64_nonneg [of b]
    by (auto simp: oqsx_hybsig_init_def hybsig_index_e bindR_eq_UB Let_def)
next
  case False
  show ?thesis
  proof (cases "hybsig_index b s")
    case (Inl e)
    then show ?thesis
      using False hybsig_index_UB [of b s] by (auto simp: oqsx_hybsig_init_def)
  next
    case (Inr p)
    then obtain r o' where p: "hybsig_index b s = Inr (r, o')" by (cases p) auto
    then have "\<not> (64 < b \<and> b < 512 \<and> s = ''b'')"
      using hybsig_index_UB [of b s] by auto
    moreover have "oqsx_hybsig_init b C ec s \<noteq> Inl UB"
    proof (cases o')
      case (Some i)
      with p hybsig_index_range have "0 \<le> i" "i < 9" by fastforce+
      then show ?thesis
        by (simp add: oqsx_hybsig_init_def p Some False Let_def index_info_def)
    qed (simp add: oqsx_hybsig_init_def p)
    ultimately show ?thesis using False by blast
  qed
qed

lemma find_name_Some:
  "find_name t ns i = Inr (Some j) \<Longrightarrow>
     i \<le> j \<and> j < i + length ns \<and>
     (\<exists>n. ns ! (j - i) = Some n \<and> strncasecmp_eq t n (length n)) \<and>
     (\<forall>k < j - i. \<exists>m. ns ! k = Some m \<and> \<not> strncasecmp_eq t m (length m))"
proof (induction t ns i rule: find_name.induct)
  case (3 t n ns i)
  show ?case
  proof (cases "strncasecmp_eq t n (length n)")
    case True
    with 3 show ?thesis by simp
  next
    case False
    with 3 have IH: "Suc i \<le> j \<and> j < Suc i + length ns \<and>
       (\<exists>n. ns ! (j - Suc i) = Some n \<and> strncasecmp_eq t n (length n)) \<and>
       (\<forall>k < j - Suc i. \<exists>m. ns ! k = Some m \<and> \<not> strncasecmp_eq t m (length m))"
      by simp
    then have j: "j - i = Suc (j - Suc i)" by arith
    from IH False show ?thesis
      unfolding j by (auto simp: less_Suc_eq_0_disj)
  qed
qed auto

text \<open>The search runs into a NULL name exactly when no name before it matches.\<close>

lemma find_name_UB:
  "find_name t ns i = Inl UB \<longleftrightarrow>
     (\<exists>k < length ns. ns ! k = None \<and>
        (\<forall>l < k. \<exists>m. ns ! l = Some m \<and> \<not> strncasecmp_eq t m (length m)))"
proof (induction t ns i rule: find_name.induct)
  case (3 t n ns i)
  then show ?case
    by (simp add: Ex_less_Suc2 All_less_Suc2)
qed (simp_all add: Ex_less_Suc2)

lemma init_ec_curve_UB:
  assumes "length (takeWhile (\<lambda>n. n \<noteq> None) names) \<le> length infos"
  shows "init_ec_curve names infos C ec t = Inl UB \<longleftrightarrow> find_name t names 0 = Inl UB"
proof -
  have "j < length infos" if "find_name t names 0 = Inr (Some j)" for j
  proof -
    from find_name_Some [OF that] have "j < length names" "\<forall>k \<le> j. names ! k \<noteq> None"
      by (auto simp: le_less)
    then have "\<not> length (takeWhile (\<lambda>n. n \<noteq> None) names) \<le> j"
      using nth_length_takeWhile [of "\<lambda>n. n \<noteq> None" names] by auto
    with assms show ?thesis by simp
  qed
  then show ?thesis
    by (auto simp: init_ec_curve_def bindR_eq_UB Let_def split: option.splits)
qed

text \<open>
  The contract \<^verbatim>\<open>oqsx_key_new\<close> relies on. Each initialiser reports some failures with a
  positive return value and an incomplete context, so its caller tests both: a context it
  accepts carries an entry of the initialiser's own table. \<open>ok_sizes\<close> is what the buffer layout
  needs of an entry.
\<close>

definition ok_sizes :: "evp_info \<Rightarrow> bool" where
  "ok_sizes i \<longleftrightarrow> 0 < length_public_key i \<and> 0 < length_private_key i \<and>
     length_public_key i < 2 ^ 16 \<and> length_private_key i < 2 ^ 16 \<and> length_signature i < 2 ^ 16"

locale evp_init =
  fixes init :: "evp_calls \<Rightarrow> evp_ctx \<Rightarrow> string \<Rightarrow> (int \<times> evp_ctx) res"
    and accepts :: "int \<Rightarrow> evp_ctx \<Rightarrow> bool" and infos :: "evp_info list"
  assumes accepted_entry:
      "init C zalloc_evp_ctx t = Inr (r, c) \<Longrightarrow> accepts r c \<Longrightarrow> \<exists>i \<in> set infos. ec_info c = Some i"
    and entries_ok: "i \<in> set infos \<Longrightarrow> ok_sizes i"
begin

lemma accepted_ok:
  "init C zalloc_evp_ctx t = Inr (r, c) \<Longrightarrow> accepts r c \<Longrightarrow> \<exists>i. ec_info c = Some i \<and> ok_sizes i"
  using accepted_entry entries_ok by blast

lemma accepted_header_fits:
  "init C zalloc_evp_ctx t = Inr (r, c) \<Longrightarrow> accepts r c \<Longrightarrow> ec_info c = Some i
    \<Longrightarrow> dec32 (enc32 (length_public_key i)) = length_public_key i \<and>
        dec32 (enc32 (length_private_key i)) = length_private_key i"
  using accepted_ok by (force simp: ok_sizes_def intro!: dec32_enc32)

end

definition accepts_sig :: "int \<Rightarrow> evp_ctx \<Rightarrow> bool" where
  "accepts_sig r c \<longleftrightarrow> \<not> (r \<le> 0 \<or> \<not> ctx c)"

definition accepts_kem :: "int \<Rightarrow> evp_ctx \<Rightarrow> bool" where
  "accepts_kem r c \<longleftrightarrow> \<not> (r \<le> 0 \<or> \<not> keyParam c \<or> \<not> ctx c)"

lemma all_tables_ok: "list_all ok_sizes (nids_sig @ nids_ecp @ nids_ecbp @ nids_ecx)"
  by (simp add: nids_sig_def nids_ecp_def nids_ecbp_def nids_ecx_def mk_info_def ok_sizes_def)

lemma tables_ok:
  "i \<in> set nids_sig \<Longrightarrow> ok_sizes i" "i \<in> set nids_ecp \<Longrightarrow> ok_sizes i"
  "i \<in> set nids_ecbp \<Longrightarrow> ok_sizes i" "i \<in> set nids_ecx \<Longrightarrow> ok_sizes i"
  using all_tables_ok by (simp_all add: list_all_iff)

lemma init_ec_curve_accepted:
  assumes "init_ec_curve names infos C zalloc_evp_ctx t = Inr (r, c)" and "accepts_kem r c"
  shows "\<exists>i \<in> set infos. ec_info c = Some i"
  using assms
  by (auto simp: init_ec_curve_def accepts_kem_def zalloc_evp_ctx_def bindR_eq_Inr Let_def
      split: option.splits if_splits dest!: index_info_mem)

lemma oqshybkem_init_ecx_accepted:
  assumes "oqshybkem_init_ecx C zalloc_evp_ctx t = Inr (r, c)" and "accepts_kem r c"
  shows "\<exists>i \<in> set nids_ecx. ec_info c = Some i"
  using assms
  by (auto simp: oqshybkem_init_ecx_def accepts_kem_def zalloc_evp_ctx_def bindR_eq_Inr Let_def
      split: option.splits if_splits dest!: index_info_mem)

lemma oqsx_hybsig_init_accepted:
  assumes "oqsx_hybsig_init b C zalloc_evp_ctx t = Inr (r, c)" and "accepts_sig r c"
  shows "\<exists>i \<in> set nids_sig. ec_info c = Some i"
proof -
  from assms(1) obtain r0 ix where ix: "hybsig_index b t = Inr (r0, ix)"
    by (auto simp: oqsx_hybsig_init_def bindR_eq_Inr)
  show ?thesis
  proof (cases ix)
    case None
    with assms ix show ?thesis
      by (auto simp: oqsx_hybsig_init_def accepts_sig_def zalloc_evp_ctx_def)
  next
    case (Some idx)
    with assms ix show ?thesis
      by (cases "cstr t ! 0 = CHR ''e''")
        (auto simp: oqsx_hybsig_init_def Let_def bindR_eq_Inr split: if_splits dest!: index_info_mem)
  qed
qed

interpretation hybsig: evp_init "oqsx_hybsig_init b" accepts_sig nids_sig for b :: int
  by unfold_locales (rule oqsx_hybsig_init_accepted, assumption+, rule tables_ok)

interpretation ecp: evp_init oqshybkem_init_ecp accepts_kem nids_ecp
  by unfold_locales (auto simp: oqshybkem_init_ecp_def tables_ok dest: init_ec_curve_accepted)

interpretation ecbp: evp_init oqshybkem_init_ecbp accepts_kem nids_ecbp
  by unfold_locales (auto simp: oqshybkem_init_ecbp_def tables_ok dest: init_ec_curve_accepted)

interpretation ecx: evp_init oqshybkem_init_ecx accepts_kem nids_ecx
  by unfold_locales (rule oqshybkem_init_ecx_accepted, assumption+, rule tables_ok)

end
