(* ===== verification/Nid_Table.thy ===== *)
theory Nid_Table
  imports Evp_Info
begin

text \<open>
  The NID/name table of \<^verbatim>\<open>oqsprov_keys.c\<close>: the entries (KEM entries present when the provider is
  built with \<^verbatim>\<open>OQS_KEM_ENCODERS\<close>, signature entries always), the registration of a NID under a
  TLS name and the look-ups by NID, with the first-match law they share. The table is mutable
  in C, so registration returns the table afterwards. The liboqs algorithm name of an entry is
  the identifier of the liboqs macro that holds it.
\<close>

datatype oqsx_key_type =
    KEY_TYPE_SIG | KEY_TYPE_KEM | KEY_TYPE_ECP_HYB_KEM | KEY_TYPE_ECBP_HYB_KEM
  | KEY_TYPE_ECX_HYB_KEM | KEY_TYPE_HYB_SIG

record nid_entry =
  ne_nid :: int
  tlsname :: string
  oqsname :: string
  ne_keytype :: oqsx_key_type
  secbits :: int
  reverseshare :: int

definition nid_entry0 :: "string \<Rightarrow> string \<Rightarrow> oqsx_key_type \<Rightarrow> int \<Rightarrow> int \<Rightarrow> nid_entry" where
  "nid_entry0 tls oqs kt bits rs =
     \<lparr>ne_nid = 0, tlsname = tls, oqsname = oqs, ne_keytype = kt, secbits = bits,
      reverseshare = rs\<rparr>"

definition nid_names_kem :: "nid_entry list" where
  "nid_names_kem =
     [nid_entry0 ''efrodo640aes'' ''OQS_KEM_alg_efrodokem_640_aes'' KEY_TYPE_KEM 128 0,
      nid_entry0 ''p256_efrodo640aes'' ''OQS_KEM_alg_efrodokem_640_aes'' KEY_TYPE_ECP_HYB_KEM 128 0,
      nid_entry0 ''x25519_efrodo640aes'' ''OQS_KEM_alg_efrodokem_640_aes'' KEY_TYPE_ECX_HYB_KEM 128 0,
      nid_entry0 ''efrodo640shake'' ''OQS_KEM_alg_efrodokem_640_shake'' KEY_TYPE_KEM 128 0,
      nid_entry0 ''p256_efrodo640shake'' ''OQS_KEM_alg_efrodokem_640_shake'' KEY_TYPE_ECP_HYB_KEM 128 0,
      nid_entry0 ''x25519_efrodo640shake'' ''OQS_KEM_alg_efrodokem_640_shake'' KEY_TYPE_ECX_HYB_KEM 128 0,
      nid_entry0 ''efrodo976aes'' ''OQS_KEM_alg_efrodokem_976_aes'' KEY_TYPE_KEM 192 0,
      nid_entry0 ''p384_efrodo976aes'' ''OQS_KEM_alg_efrodokem_976_aes'' KEY_TYPE_ECP_HYB_KEM 192 0,
      nid_entry0 ''x448_efrodo976aes'' ''OQS_KEM_alg_efrodokem_976_aes'' KEY_TYPE_ECX_HYB_KEM 192 0,
      nid_entry0 ''efrodo976shake'' ''OQS_KEM_alg_efrodokem_976_shake'' KEY_TYPE_KEM 192 0,
      nid_entry0 ''p384_efrodo976shake'' ''OQS_KEM_alg_efrodokem_976_shake'' KEY_TYPE_ECP_HYB_KEM 192 0,
      nid_entry0 ''x448_efrodo976shake'' ''OQS_KEM_alg_efrodokem_976_shake'' KEY_TYPE_ECX_HYB_KEM 192 0,
      nid_entry0 ''efrodo1344aes'' ''OQS_KEM_alg_efrodokem_1344_aes'' KEY_TYPE_KEM 256 0,
      nid_entry0 ''p521_efrodo1344aes'' ''OQS_KEM_alg_efrodokem_1344_aes'' KEY_TYPE_ECP_HYB_KEM 256 0,
      nid_entry0 ''efrodo1344shake'' ''OQS_KEM_alg_efrodokem_1344_shake'' KEY_TYPE_KEM 256 0,
      nid_entry0 ''p521_efrodo1344shake'' ''OQS_KEM_alg_efrodokem_1344_shake'' KEY_TYPE_ECP_HYB_KEM 256 0,
      nid_entry0 ''frodo640aes'' ''OQS_KEM_alg_frodokem_640_aes'' KEY_TYPE_KEM 128 0,
      nid_entry0 ''p256_frodo640aes'' ''OQS_KEM_alg_frodokem_640_aes'' KEY_TYPE_ECP_HYB_KEM 128 0,
      nid_entry0 ''x25519_frodo640aes'' ''OQS_KEM_alg_frodokem_640_aes'' KEY_TYPE_ECX_HYB_KEM 128 0,
      nid_entry0 ''frodo640shake'' ''OQS_KEM_alg_frodokem_640_shake'' KEY_TYPE_KEM 128 0,
      nid_entry0 ''p256_frodo640shake'' ''OQS_KEM_alg_frodokem_640_shake'' KEY_TYPE_ECP_HYB_KEM 128 0,
      nid_entry0 ''x25519_frodo640shake'' ''OQS_KEM_alg_frodokem_640_shake'' KEY_TYPE_ECX_HYB_KEM 128 0,
      nid_entry0 ''frodo976aes'' ''OQS_KEM_alg_frodokem_976_aes'' KEY_TYPE_KEM 192 0,
      nid_entry0 ''p384_frodo976aes'' ''OQS_KEM_alg_frodokem_976_aes'' KEY_TYPE_ECP_HYB_KEM 192 0,
      nid_entry0 ''x448_frodo976aes'' ''OQS_KEM_alg_frodokem_976_aes'' KEY_TYPE_ECX_HYB_KEM 192 0,
      nid_entry0 ''frodo976shake'' ''OQS_KEM_alg_frodokem_976_shake'' KEY_TYPE_KEM 192 0,
      nid_entry0 ''p384_frodo976shake'' ''OQS_KEM_alg_frodokem_976_shake'' KEY_TYPE_ECP_HYB_KEM 192 0,
      nid_entry0 ''x448_frodo976shake'' ''OQS_KEM_alg_frodokem_976_shake'' KEY_TYPE_ECX_HYB_KEM 192 0,
      nid_entry0 ''frodo1344aes'' ''OQS_KEM_alg_frodokem_1344_aes'' KEY_TYPE_KEM 256 0,
      nid_entry0 ''p521_frodo1344aes'' ''OQS_KEM_alg_frodokem_1344_aes'' KEY_TYPE_ECP_HYB_KEM 256 0,
      nid_entry0 ''frodo1344shake'' ''OQS_KEM_alg_frodokem_1344_shake'' KEY_TYPE_KEM 256 0,
      nid_entry0 ''p521_frodo1344shake'' ''OQS_KEM_alg_frodokem_1344_shake'' KEY_TYPE_ECP_HYB_KEM 256 0,
      nid_entry0 ''mlkem512'' ''OQS_KEM_alg_ml_kem_512'' KEY_TYPE_KEM 128 0,
      nid_entry0 ''p256_mlkem512'' ''OQS_KEM_alg_ml_kem_512'' KEY_TYPE_ECP_HYB_KEM 128 0,
      nid_entry0 ''x25519_mlkem512'' ''OQS_KEM_alg_ml_kem_512'' KEY_TYPE_ECX_HYB_KEM 128 1,
      nid_entry0 ''bp256_mlkem512'' ''OQS_KEM_alg_ml_kem_512'' KEY_TYPE_ECBP_HYB_KEM 128 1,
      nid_entry0 ''mlkem768'' ''OQS_KEM_alg_ml_kem_768'' KEY_TYPE_KEM 192 0,
      nid_entry0 ''p384_mlkem768'' ''OQS_KEM_alg_ml_kem_768'' KEY_TYPE_ECP_HYB_KEM 192 0,
      nid_entry0 ''x448_mlkem768'' ''OQS_KEM_alg_ml_kem_768'' KEY_TYPE_ECX_HYB_KEM 192 1,
      nid_entry0 ''bp384_mlkem768'' ''OQS_KEM_alg_ml_kem_768'' KEY_TYPE_ECBP_HYB_KEM 192 1,
      nid_entry0 ''X25519MLKEM768'' ''OQS_KEM_alg_ml_kem_768'' KEY_TYPE_ECX_HYB_KEM 192 1,
      nid_entry0 ''SecP256r1MLKEM768'' ''OQS_KEM_alg_ml_kem_768'' KEY_TYPE_ECP_HYB_KEM 192 0,
      nid_entry0 ''mlkem1024'' ''OQS_KEM_alg_ml_kem_1024'' KEY_TYPE_KEM 256 0,
      nid_entry0 ''p521_mlkem1024'' ''OQS_KEM_alg_ml_kem_1024'' KEY_TYPE_ECP_HYB_KEM 256 0,
      nid_entry0 ''SecP384r1MLKEM1024'' ''OQS_KEM_alg_ml_kem_1024'' KEY_TYPE_ECP_HYB_KEM 256 0,
      nid_entry0 ''bp512_mlkem1024'' ''OQS_KEM_alg_ml_kem_1024'' KEY_TYPE_ECBP_HYB_KEM 256 1,
      nid_entry0 ''bikel1'' ''OQS_KEM_alg_bike_l1'' KEY_TYPE_KEM 128 0,
      nid_entry0 ''p256_bikel1'' ''OQS_KEM_alg_bike_l1'' KEY_TYPE_ECP_HYB_KEM 128 0,
      nid_entry0 ''x25519_bikel1'' ''OQS_KEM_alg_bike_l1'' KEY_TYPE_ECX_HYB_KEM 128 0,
      nid_entry0 ''bikel3'' ''OQS_KEM_alg_bike_l3'' KEY_TYPE_KEM 192 0,
      nid_entry0 ''p384_bikel3'' ''OQS_KEM_alg_bike_l3'' KEY_TYPE_ECP_HYB_KEM 192 0,
      nid_entry0 ''x448_bikel3'' ''OQS_KEM_alg_bike_l3'' KEY_TYPE_ECX_HYB_KEM 192 0,
      nid_entry0 ''bikel5'' ''OQS_KEM_alg_bike_l5'' KEY_TYPE_KEM 256 0,
      nid_entry0 ''p521_bikel5'' ''OQS_KEM_alg_bike_l5'' KEY_TYPE_ECP_HYB_KEM 256 0]"

definition nid_names_sig :: "nid_entry list" where
  "nid_names_sig =
     [nid_entry0 ''mldsa44'' ''OQS_SIG_alg_ml_dsa_44'' KEY_TYPE_SIG 128 0,
      nid_entry0 ''p256_mldsa44'' ''OQS_SIG_alg_ml_dsa_44'' KEY_TYPE_HYB_SIG 128 0,
      nid_entry0 ''rsa3072_mldsa44'' ''OQS_SIG_alg_ml_dsa_44'' KEY_TYPE_HYB_SIG 128 0,
      nid_entry0 ''mldsa65'' ''OQS_SIG_alg_ml_dsa_65'' KEY_TYPE_SIG 192 0,
      nid_entry0 ''p384_mldsa65'' ''OQS_SIG_alg_ml_dsa_65'' KEY_TYPE_HYB_SIG 192 0,
      nid_entry0 ''mldsa87'' ''OQS_SIG_alg_ml_dsa_87'' KEY_TYPE_SIG 256 0,
      nid_entry0 ''p521_mldsa87'' ''OQS_SIG_alg_ml_dsa_87'' KEY_TYPE_HYB_SIG 256 0,
      nid_entry0 ''falcon512'' ''OQS_SIG_alg_falcon_512'' KEY_TYPE_SIG 128 0,
      nid_entry0 ''p256_falcon512'' ''OQS_SIG_alg_falcon_512'' KEY_TYPE_HYB_SIG 128 0,
      nid_entry0 ''rsa3072_falcon512'' ''OQS_SIG_alg_falcon_512'' KEY_TYPE_HYB_SIG 128 0,
      nid_entry0 ''falconpadded512'' ''OQS_SIG_alg_falcon_padded_512'' KEY_TYPE_SIG 128 0,
      nid_entry0 ''p256_falconpadded512'' ''OQS_SIG_alg_falcon_padded_512'' KEY_TYPE_HYB_SIG 128 0,
      nid_entry0 ''rsa3072_falconpadded512'' ''OQS_SIG_alg_falcon_padded_512'' KEY_TYPE_HYB_SIG 128 0,
      nid_entry0 ''falcon1024'' ''OQS_SIG_alg_falcon_1024'' KEY_TYPE_SIG 256 0,
      nid_entry0 ''p521_falcon1024'' ''OQS_SIG_alg_falcon_1024'' KEY_TYPE_HYB_SIG 256 0,
      nid_entry0 ''falconpadded1024'' ''OQS_SIG_alg_falcon_padded_1024'' KEY_TYPE_SIG 256 0,
      nid_entry0 ''p521_falconpadded1024'' ''OQS_SIG_alg_falcon_padded_1024'' KEY_TYPE_HYB_SIG 256 0,
      nid_entry0 ''mayo1'' ''OQS_SIG_alg_mayo_1'' KEY_TYPE_SIG 128 0,
      nid_entry0 ''p256_mayo1'' ''OQS_SIG_alg_mayo_1'' KEY_TYPE_HYB_SIG 128 0,
      nid_entry0 ''mayo2'' ''OQS_SIG_alg_mayo_2'' KEY_TYPE_SIG 128 0,
      nid_entry0 ''p256_mayo2'' ''OQS_SIG_alg_mayo_2'' KEY_TYPE_HYB_SIG 128 0,
      nid_entry0 ''mayo3'' ''OQS_SIG_alg_mayo_3'' KEY_TYPE_SIG 192 0,
      nid_entry0 ''p384_mayo3'' ''OQS_SIG_alg_mayo_3'' KEY_TYPE_HYB_SIG 192 0,
      nid_entry0 ''mayo5'' ''OQS_SIG_alg_mayo_5'' KEY_TYPE_SIG 256 0,
      nid_entry0 ''p521_mayo5'' ''OQS_SIG_alg_mayo_5'' KEY_TYPE_HYB_SIG 256 0,
      nid_entry0 ''CROSSrsdp128balanced'' ''OQS_SIG_alg_cross_rsdp_128_balanced'' KEY_TYPE_SIG 128 0,
      nid_entry0 ''OV_Is_pkc'' ''OQS_SIG_alg_uov_ov_Is_pkc'' KEY_TYPE_SIG 128 0,
      nid_entry0 ''p256_OV_Is_pkc'' ''OQS_SIG_alg_uov_ov_Is_pkc'' KEY_TYPE_HYB_SIG 128 0,
      nid_entry0 ''OV_Ip_pkc'' ''OQS_SIG_alg_uov_ov_Ip_pkc'' KEY_TYPE_SIG 128 0,
      nid_entry0 ''p256_OV_Ip_pkc'' ''OQS_SIG_alg_uov_ov_Ip_pkc'' KEY_TYPE_HYB_SIG 128 0,
      nid_entry0 ''OV_Is_pkc_skc'' ''OQS_SIG_alg_uov_ov_Is_pkc_skc'' KEY_TYPE_SIG 128 0,
      nid_entry0 ''p256_OV_Is_pkc_skc'' ''OQS_SIG_alg_uov_ov_Is_pkc_skc'' KEY_TYPE_HYB_SIG 128 0,
      nid_entry0 ''OV_Ip_pkc_skc'' ''OQS_SIG_alg_uov_ov_Ip_pkc_skc'' KEY_TYPE_SIG 128 0,
      nid_entry0 ''p256_OV_Ip_pkc_skc'' ''OQS_SIG_alg_uov_ov_Ip_pkc_skc'' KEY_TYPE_HYB_SIG 128 0,
      nid_entry0 ''snova2454'' ''OQS_SIG_alg_snova_SNOVA_24_5_4'' KEY_TYPE_SIG 128 0,
      nid_entry0 ''p256_snova2454'' ''OQS_SIG_alg_snova_SNOVA_24_5_4'' KEY_TYPE_HYB_SIG 128 0,
      nid_entry0 ''snova2454esk'' ''OQS_SIG_alg_snova_SNOVA_24_5_4_esk'' KEY_TYPE_SIG 128 0,
      nid_entry0 ''p256_snova2454esk'' ''OQS_SIG_alg_snova_SNOVA_24_5_4_esk'' KEY_TYPE_HYB_SIG 128 0,
      nid_entry0 ''snova37172'' ''OQS_SIG_alg_snova_SNOVA_37_17_2'' KEY_TYPE_SIG 128 0,
      nid_entry0 ''p256_snova37172'' ''OQS_SIG_alg_snova_SNOVA_37_17_2'' KEY_TYPE_HYB_SIG 128 0,
      nid_entry0 ''snova2455'' ''OQS_SIG_alg_snova_SNOVA_24_5_5'' KEY_TYPE_SIG 192 0,
      nid_entry0 ''p384_snova2455'' ''OQS_SIG_alg_snova_SNOVA_24_5_5'' KEY_TYPE_HYB_SIG 192 0,
      nid_entry0 ''snova2965'' ''OQS_SIG_alg_snova_SNOVA_29_6_5'' KEY_TYPE_SIG 256 0,
      nid_entry0 ''p521_snova2965'' ''OQS_SIG_alg_snova_SNOVA_29_6_5'' KEY_TYPE_HYB_SIG 256 0,
      nid_entry0 ''slhdsasha2128s'' ''OQS_SIG_alg_slh_dsa_pure_sha2_128s'' KEY_TYPE_SIG 128 0,
      nid_entry0 ''slhdsasha2128f'' ''OQS_SIG_alg_slh_dsa_pure_sha2_128f'' KEY_TYPE_SIG 128 0,
      nid_entry0 ''slhdsasha2192s'' ''OQS_SIG_alg_slh_dsa_pure_sha2_192s'' KEY_TYPE_SIG 192 0,
      nid_entry0 ''slhdsasha2192f'' ''OQS_SIG_alg_slh_dsa_pure_sha2_192f'' KEY_TYPE_SIG 192 0,
      nid_entry0 ''slhdsasha2256s'' ''OQS_SIG_alg_slh_dsa_pure_sha2_256s'' KEY_TYPE_SIG 256 0,
      nid_entry0 ''slhdsasha2256f'' ''OQS_SIG_alg_slh_dsa_pure_sha2_256f'' KEY_TYPE_SIG 256 0,
      nid_entry0 ''slhdsashake128s'' ''OQS_SIG_alg_slh_dsa_pure_shake_128s'' KEY_TYPE_SIG 128 0,
      nid_entry0 ''slhdsashake128f'' ''OQS_SIG_alg_slh_dsa_pure_shake_128f'' KEY_TYPE_SIG 128 0,
      nid_entry0 ''slhdsashake192s'' ''OQS_SIG_alg_slh_dsa_pure_shake_192s'' KEY_TYPE_SIG 192 0,
      nid_entry0 ''slhdsashake192f'' ''OQS_SIG_alg_slh_dsa_pure_shake_192f'' KEY_TYPE_SIG 192 0,
      nid_entry0 ''slhdsashake256s'' ''OQS_SIG_alg_slh_dsa_pure_shake_256s'' KEY_TYPE_SIG 256 0,
      nid_entry0 ''slhdsashake256f'' ''OQS_SIG_alg_slh_dsa_pure_shake_256f'' KEY_TYPE_SIG 256 0]"

definition NID_TABLE_LEN :: "bool \<Rightarrow> nat" where
  "NID_TABLE_LEN kem_encoders = (if kem_encoders then 110 else 56)"

definition nid_names :: "bool \<Rightarrow> nid_entry list" where
  "nid_names kem_encoders = (if kem_encoders then nid_names_kem else []) @ nid_names_sig"

subsection \<open>Registration and look-up\<close>

fun oqs_set_nid :: "nid_entry list \<Rightarrow> string \<Rightarrow> int \<Rightarrow> int \<times> nid_entry list" where
  "oqs_set_nid [] name nid = (0, [])"
| "oqs_set_nid (e # es) name nid =
     (if tlsname e = name then (1, e\<lparr>ne_nid := nid\<rparr> # es)
      else let (r, es') = oqs_set_nid es name nid in (r, e # es'))"

fun get_secbits :: "nid_entry list \<Rightarrow> int \<Rightarrow> int" where
  "get_secbits [] nid = 0"
| "get_secbits (e # es) nid = (if ne_nid e = nid then secbits e else get_secbits es nid)"

fun get_reverseshare :: "nid_entry list \<Rightarrow> int \<Rightarrow> int" where
  "get_reverseshare [] nid = 0"
| "get_reverseshare (e # es) nid =
     (if ne_nid e = nid then reverseshare e else get_reverseshare es nid)"

text \<open>\<^verbatim>\<open>get_keytype\<close> returns 0 for an unknown NID, which is the enumerator \<^verbatim>\<open>KEY_TYPE_SIG\<close>.\<close>

fun get_keytype :: "nid_entry list \<Rightarrow> int \<Rightarrow> oqsx_key_type" where
  "get_keytype [] nid = KEY_TYPE_SIG"
| "get_keytype (e # es) nid = (if ne_nid e = nid then ne_keytype e else get_keytype es nid)"

fun get_oqsname :: "nid_entry list \<Rightarrow> int \<Rightarrow> string option" where
  "get_oqsname [] nid = None"
| "get_oqsname (e # es) nid = (if ne_nid e = nid then Some (oqsname e) else get_oqsname es nid)"

fun oqsalg_idx_from :: "nid_entry list \<Rightarrow> int \<Rightarrow> int \<Rightarrow> int" where
  "oqsalg_idx_from [] nid i = -1"
| "oqsalg_idx_from (e # es) nid i = (if ne_nid e = nid then i else oqsalg_idx_from es nid (i + 1))"

definition get_oqsalg_idx :: "nid_entry list \<Rightarrow> int \<Rightarrow> int" where
  "get_oqsalg_idx tbl nid = oqsalg_idx_from tbl nid 0"

subsection \<open>The first-match law\<close>

text \<open>\<open>named\<close> is the entry registration updates: the first one with the name.\<close>

definition named :: "nid_entry list \<Rightarrow> string \<Rightarrow> nid_entry option" where
  "named tbl name = List.find (\<lambda>e. tlsname e = name) tbl"

lemma oqs_set_nid_ret: "fst (oqs_set_nid tbl name n) = (if named tbl name = None then 0 else 1)"
  by (induction tbl) (auto simp: named_def split: prod.splits)

lemma oqs_set_nid_names [simp]: "map tlsname (snd (oqs_set_nid tbl name n)) = map tlsname tbl"
  by (induction tbl) (auto split: prod.splits)

lemma oqs_set_nid_nids:
  "ne_nid ` set (snd (oqs_set_nid tbl name n)) \<subseteq> insert n (ne_nid ` set tbl)"
  by (induction tbl) (auto simp: image_subset_iff split: prod.splits)

lemma named_oqs_set_nid:
  "named (snd (oqs_set_nid tbl name n)) m =
     (if m = name then map_option (\<lambda>e. e\<lparr>ne_nid := n\<rparr>) (named tbl m) else named tbl m)"
  by (induction tbl) (auto simp: named_def split: prod.splits)

text \<open>
  A look-up by NID: the field of the first entry with the NID, a default without one. The field
  is not the NID itself, so registration does not change it.
\<close>

locale nid_lookup =
  fixes look :: "nid_entry list \<Rightarrow> int \<Rightarrow> 'v" and field :: "nid_entry \<Rightarrow> 'v" and dflt :: 'v
  assumes look_Nil: "look [] n = dflt"
    and look_Cons: "look (e # es) n = (if ne_nid e = n then field e else look es n)"
    and field_stable: "field (e\<lparr>ne_nid := n\<rparr>) = field e"
begin

lemma look_find: "look tbl n = (case List.find (\<lambda>e. ne_nid e = n) tbl of None \<Rightarrow> dflt | Some e \<Rightarrow> field e)"
  by (induction tbl) (auto simp: look_Nil look_Cons)

lemma look_unknown: "n \<notin> ne_nid ` set tbl \<Longrightarrow> look tbl n = dflt"
  by (induction tbl) (auto simp: look_Nil look_Cons)

text \<open>Registering a fresh NID makes the look-up of that NID find the named entry.\<close>

lemma look_registered:
  "named tbl name = Some e \<Longrightarrow> n \<notin> ne_nid ` set tbl \<Longrightarrow>
     look (snd (oqs_set_nid tbl name n)) n = field e"
  by (induction tbl) (auto simp: named_def look_Nil look_Cons field_stable split: prod.splits if_splits)

text \<open>Every other NID keeps its entry, unless it was the one the entry had before.\<close>

lemma look_other:
  "named tbl name = Some e \<Longrightarrow> m \<noteq> n \<Longrightarrow> m \<noteq> ne_nid e \<Longrightarrow>
     look (snd (oqs_set_nid tbl name n)) m = look tbl m"
  by (induction tbl) (auto simp: named_def look_Nil look_Cons split: prod.splits if_splits)

end

interpretation secbits: nid_lookup get_secbits secbits 0
  by unfold_locales simp_all

interpretation reverseshare: nid_lookup get_reverseshare reverseshare 0
  by unfold_locales simp_all

interpretation keytype: nid_lookup get_keytype ne_keytype KEY_TYPE_SIG
  by unfold_locales simp_all

interpretation oqsname: nid_lookup get_oqsname "\<lambda>e. Some (oqsname e)" None
  by unfold_locales simp_all

lemma oqsalg_idx_from_spec:
  "oqsalg_idx_from tbl n i = (if n \<in> ne_nid ` set tbl
     then i + int (length (takeWhile (\<lambda>e. ne_nid e \<noteq> n) tbl)) else -1)"
  by (induction tbl arbitrary: i) auto

subsection \<open>Consistency of the table\<close>

lemma length_nid_names_kem [simp]: "length nid_names_kem = 54"
  by (simp add: nid_names_kem_def)

lemma length_nid_names_sig [simp]: "length nid_names_sig = 56"
  by (simp add: nid_names_sig_def)

text \<open>
  The classical algorithm an entry's TLS name announces: the part before the first underscore,
  or, for the three names of the TLS registry, the curve's part of the name.
\<close>

definition name_prefix :: "string \<Rightarrow> string" where
  "name_prefix n = takeWhile (\<lambda>c. c \<noteq> CHR ''_'') n"

definition announced :: "(string \<times> evp_nid \<times> evp_type) list" where
  "announced =
     [(''p256'', NID_X9_62_prime256v1, EVP_PKEY_EC), (''p384'', NID_secp384r1, EVP_PKEY_EC),
      (''p521'', NID_secp521r1, EVP_PKEY_EC), (''bp256'', NID_brainpoolP256r1, EVP_PKEY_EC),
      (''bp384'', NID_brainpoolP384r1, EVP_PKEY_EC), (''bp512'', NID_brainpoolP512r1, EVP_PKEY_EC),
      (''x25519'', NID_zero, EVP_PKEY_X25519), (''x448'', NID_zero, EVP_PKEY_X448),
      (''rsa3072'', NID_rsaEncryption, EVP_PKEY_RSA), (''X25519MLKEM768'', NID_zero, EVP_PKEY_X25519),
      (''SecP256r1MLKEM768'', NID_X9_62_prime256v1, EVP_PKEY_EC),
      (''SecP384r1MLKEM1024'', NID_secp384r1, EVP_PKEY_EC)]"

definition is_announced :: "string \<Rightarrow> evp_info \<Rightarrow> bool" where
  "is_announced name i \<longleftrightarrow> map_of announced (name_prefix name) = Some (ei_nid i, ei_keytype i)"

text \<open>What \<^verbatim>\<open>oqsx_key_new\<close> selects for an entry when OpenSSL's calls succeed.\<close>

definition selected_info :: "nid_entry \<Rightarrow> evp_info option" where
  "selected_info e =
     (case (case ne_keytype e of
          KEY_TYPE_HYB_SIG \<Rightarrow> oqsx_hybsig_init (secbits e) all_calls_ok zalloc_evp_ctx (tlsname e)
        | KEY_TYPE_ECP_HYB_KEM \<Rightarrow> oqshybkem_init_ecp all_calls_ok zalloc_evp_ctx (tlsname e)
        | KEY_TYPE_ECBP_HYB_KEM \<Rightarrow> oqshybkem_init_ecbp all_calls_ok zalloc_evp_ctx (tlsname e)
        | KEY_TYPE_ECX_HYB_KEM \<Rightarrow> oqshybkem_init_ecx all_calls_ok zalloc_evp_ctx (tlsname e)
        | _ \<Rightarrow> Inr (0, zalloc_evp_ctx))
      of Inr (r, c) \<Rightarrow> ec_info c | Inl _ \<Rightarrow> None)"

definition entry_consistent :: "nid_entry \<Rightarrow> bool" where
  "entry_consistent e \<longleftrightarrow>
     (if ne_keytype e \<in> {KEY_TYPE_SIG, KEY_TYPE_KEM} then selected_info e = None
      else (case selected_info e of None \<Rightarrow> False | Some i \<Rightarrow> is_announced (tlsname e) i))"

lemma entries_consistent_kem: "list_all entry_consistent nid_names_kem"
  by code_simp

lemma entries_consistent_sig: "list_all entry_consistent nid_names_sig"
  by code_simp

lemma distinct_nid_names: "distinct (map tlsname (nid_names True))"
  by code_simp

lemma nids_zero:
  "list_all (\<lambda>e. ne_nid e = 0) nid_names_kem" "list_all (\<lambda>e. ne_nid e = 0) nid_names_sig"
  by code_simp+

lemma nid_names_unregistered: "ne_nid ` set (nid_names kem_encoders) \<subseteq> {0}"
  using nids_zero by (auto simp: nid_names_def list_all_iff)

lemma distinct_tlsnames: "distinct (map tlsname (nid_names kem_encoders))"
  using distinct_nid_names by (auto simp: nid_names_def)

end
