(* ===== verification/Oqsx_Key.thy ===== *)
theory Oqsx_Key
  imports Nid_Table
begin

text \<open>
  The provider's key object \<^verbatim>\<open>OQSX_KEY\<close> (\<^verbatim>\<open>oqs_prov.h\<close>, \<^verbatim>\<open>oqsprov_keys.c\<close>): creation, allocation
  of key material, the pointers to the classical and the post-quantum component, and the size
  queries. The component pointers point into the key's own buffers, so they are offsets; they
  live in arrays from \<^verbatim>\<open>OPENSSL_malloc\<close>, so they start indeterminate.
\<close>

subsection \<open>liboqs and OpenSSL objects\<close>

text \<open>
  An \<^verbatim>\<open>OQS_SIG\<close> or \<^verbatim>\<open>OQS_KEM\<close> object. The code reads the key lengths of either kind through the
  \<^verbatim>\<open>kem\<close> member of a union; liboqs gives both structures the same leading fields, so a single
  record with the fields of both serves.
\<close>

record qs_ctx =
  qs_name :: string
  claimed_nist_level :: nat
  qs_length_public_key :: nat
  qs_length_secret_key :: nat
  qs_length_ciphertext :: nat
  qs_length_shared_secret :: nat
  qs_length_signature :: nat

text \<open>
  liboqs: constructors by algorithm name (\<open>None\<close> when the algorithm is not enabled) and the
  primitives. A randomised primitive takes the randomness it uses as a number.
\<close>

record liboqs =
  OQS_SIG_new :: "string \<Rightarrow> qs_ctx option"
  OQS_KEM_new :: "string \<Rightarrow> qs_ctx option"
  OQS_KEM_keypair :: "qs_ctx \<Rightarrow> nat \<Rightarrow> (bytes \<times> bytes) option"
  OQS_KEM_encaps :: "qs_ctx \<Rightarrow> nat \<Rightarrow> bytes \<Rightarrow> (bytes \<times> bytes) option"
  OQS_KEM_decaps :: "qs_ctx \<Rightarrow> bytes \<Rightarrow> bytes \<Rightarrow> bytes option"
  OQS_SIG_keypair :: "qs_ctx \<Rightarrow> nat \<Rightarrow> (bytes \<times> bytes) option"
  OQS_SIG_sign_with_ctx_str :: "qs_ctx \<Rightarrow> nat \<Rightarrow> bytes \<Rightarrow> bytes \<Rightarrow> bytes \<Rightarrow> bytes option"
  OQS_SIG_verify_with_ctx_str :: "qs_ctx \<Rightarrow> bytes \<Rightarrow> bytes \<Rightarrow> bytes \<Rightarrow> bytes \<Rightarrow> bool"

datatype md_alg = MD_SHA256 | MD_SHA384 | MD_SHA512

text \<open>OpenSSL's operations on classical keys; \<open>'p\<close> stands for \<^verbatim>\<open>EVP_PKEY\<close> values.\<close>

record 'p openssl =
  EVP_PKEY_keygen :: "evp_info \<Rightarrow> nat \<Rightarrow> nat \<Rightarrow> 'p option"
  EVP_PKEY_get1_encoded_public_key :: "'p \<Rightarrow> bytes option"
  EVP_PKEY_get_raw_public_key :: "'p \<Rightarrow> bytes option"
  EVP_PKEY_get_raw_private_key :: "'p \<Rightarrow> bytes option"
  i2d_PublicKey :: "'p \<Rightarrow> bytes option"
  i2d_PrivateKey :: "'p \<Rightarrow> bytes option"
  d2i_PublicKey :: "evp_type \<Rightarrow> bytes option \<Rightarrow> bytes \<Rightarrow> 'p option"
  d2i_PrivateKey :: "evp_type \<Rightarrow> bytes \<Rightarrow> 'p option"
  d2i_AutoPrivateKey :: "bytes \<Rightarrow> 'p option"
  EVP_PKEY_new_raw_public_key :: "evp_type \<Rightarrow> bytes \<Rightarrow> 'p option"
  EVP_PKEY_new_raw_private_key :: "evp_type \<Rightarrow> bytes \<Rightarrow> 'p option"
  EVP_PKEY_set1_encoded_public_key :: "evp_info \<Rightarrow> bytes \<Rightarrow> 'p option"
  EVP_PKEY_derive :: "'p \<Rightarrow> 'p \<Rightarrow> bytes option"
  EVP_PKEY_sign :: "'p \<Rightarrow> nat \<Rightarrow> md_alg option \<Rightarrow> bytes \<Rightarrow> bytes option"
  EVP_PKEY_verify :: "'p \<Rightarrow> md_alg option \<Rightarrow> bytes \<Rightarrow> bytes \<Rightarrow> bool"
  EVP_digest :: "md_alg \<Rightarrow> bytes \<Rightarrow> bytes"
  i2d_ASN1_OCTET_STRING :: "bytes \<Rightarrow> bytes option"
  d2i_ASN1_OCTET_STRING :: "bytes \<Rightarrow> bytes option"

subsection \<open>The key object\<close>

datatype cptr = Uninit | Null | Off nat

record 'p oqsx_key =
  libctx :: nat
  propq :: "string option"
  keytype :: oqsx_key_type
  qs :: qs_ctx
  oqsx_evp_ctx :: "evp_ctx option"
  classical_pkey :: "'p option"
  evp_info :: "evp_info option"
  numkeys :: nat
  reverse_share :: bool
  privkeylen :: nat
  pubkeylen :: nat
  bit_security :: int
  tls_name :: string
  references :: int
  comp_privkey :: "cptr list"
  comp_pubkey :: "cptr list"
  privkey :: "bytes option"
  pubkey :: "bytes option"

definition is_hyb_kem :: "oqsx_key_type \<Rightarrow> bool" where
  "is_hyb_kem t \<longleftrightarrow>
     t = KEY_TYPE_ECP_HYB_KEM \<or> t = KEY_TYPE_ECBP_HYB_KEM \<or> t = KEY_TYPE_ECX_HYB_KEM"

text \<open>The places where \<^verbatim>\<open>oqsprov_keys.c\<close> allocates; a call may fail at any of them.\<close>

datatype alloc_site =
  A_KEY | A_COMP_PRIVKEY | A_COMP_PUBKEY | A_EVP_CTX | A_TLS_NAME | A_PROPQ | A_PRIVKEY | A_PUBKEY

type_synonym allocs = "alloc_site \<Rightarrow> bool"

subsection \<open>\<^verbatim>\<open>oqsx_key_new\<close>\<close>

text \<open>
  The switch cases. A plain algorithm has one component; a hybrid one has two, its EVP context
  comes from the initialiser \<open>init\<close> and is accepted by the test \<open>accepts\<close>. Every failing branch
  jumps to \<^verbatim>\<open>err\<close>, which raises a malloc failure.
\<close>

definition new_plain ::
    "qs_ctx option \<Rightarrow> allocs \<Rightarrow> oqsx_key_type \<Rightarrow> nat \<Rightarrow> string \<Rightarrow> int \<Rightarrow> 'p oqsx_key res" where
  "new_plain q ok kt lc tls bits =
     bindR (ensure (ok A_COMP_PRIVKEY \<and> ok A_COMP_PUBKEY) (Raise MALLOC_FAILURE)) (\<lambda>_.
     bindR (of_option (Raise MALLOC_FAILURE) q) (\<lambda>c.
     Inr \<lparr>libctx = lc, propq = None, keytype = kt, qs = c, oqsx_evp_ctx = None,
          classical_pkey = None, evp_info = None, numkeys = 1, reverse_share = False,
          privkeylen = qs_length_secret_key c, pubkeylen = qs_length_public_key c,
          bit_security = bits, tls_name = tls, references = 1,
          comp_privkey = [Uninit], comp_pubkey = [Uninit], privkey = None, pubkey = None\<rparr>))"

definition new_hybrid ::
    "qs_ctx option \<Rightarrow> (int \<times> evp_ctx) res \<Rightarrow> (int \<Rightarrow> evp_ctx \<Rightarrow> bool) \<Rightarrow> allocs \<Rightarrow> oqsx_key_type
      \<Rightarrow> bool \<Rightarrow> nat \<Rightarrow> string \<Rightarrow> int \<Rightarrow> 'p oqsx_key res" where
  "new_hybrid q init accepts ok kt rshare lc tls bits =
     bindR (of_option (Raise MALLOC_FAILURE) q) (\<lambda>c.
     bindR (ensure (ok A_EVP_CTX) (Raise MALLOC_FAILURE)) (\<lambda>_.
     bindR init (\<lambda>(ret2, ec).
     bindR (ensure (accepts ret2 ec) (Raise MALLOC_FAILURE)) (\<lambda>_.
     bindR (ensure (ok A_COMP_PRIVKEY \<and> ok A_COMP_PUBKEY) (Raise MALLOC_FAILURE)) (\<lambda>_.
     bindR (of_option UB (ec_info ec)) (\<lambda>info.
     Inr \<lparr>libctx = lc, propq = None, keytype = kt, qs = c, oqsx_evp_ctx = Some ec,
          classical_pkey = None, evp_info = Some info, numkeys = 2, reverse_share = rshare,
          privkeylen = (2 - 1) * SIZE_OF_UINT32 + qs_length_secret_key c + length_private_key info,
          pubkeylen = (2 - 1) * SIZE_OF_UINT32 + qs_length_public_key c + length_public_key info,
          bit_security = bits, tls_name = tls, references = 1,
          comp_privkey = [Uninit, Uninit], comp_pubkey = [Uninit, Uninit],
          privkey = None, pubkey = None\<rparr>))))))"

definition init_kex_fun :: "oqsx_key_type \<Rightarrow> evp_calls \<Rightarrow> evp_ctx \<Rightarrow> string \<Rightarrow> (int \<times> evp_ctx) res" where
  "init_kex_fun kt = (case kt of
       KEY_TYPE_ECP_HYB_KEM \<Rightarrow> oqshybkem_init_ecp
     | KEY_TYPE_ECBP_HYB_KEM \<Rightarrow> oqshybkem_init_ecbp
     | _ \<Rightarrow> oqshybkem_init_ecx)"

definition oqsx_key_new ::
    "liboqs \<Rightarrow> evp_calls \<Rightarrow> allocs \<Rightarrow> nat \<Rightarrow> string option \<Rightarrow> string option \<Rightarrow> oqsx_key_type
      \<Rightarrow> string option \<Rightarrow> int \<Rightarrow> int \<Rightarrow> int \<Rightarrow> 'p oqsx_key res" where
  "oqsx_key_new L C ok lc oqs_name tlsn primitive pq bits alg_idx rshare =
     bindR (ensure (ok A_KEY) (Raise MALLOC_FAILURE)) (\<lambda>_.
     bindR (of_option (Raise MALLOC_FAILURE) oqs_name) (\<lambda>oqs.
     bindR (of_option (Raise MALLOC_FAILURE) tlsn) (\<lambda>tls.
     bindR (case primitive of
         KEY_TYPE_SIG \<Rightarrow> new_plain (OQS_SIG_new L oqs) ok KEY_TYPE_SIG lc tls bits
       | KEY_TYPE_KEM \<Rightarrow> new_plain (OQS_KEM_new L oqs) ok KEY_TYPE_KEM lc tls bits
       | KEY_TYPE_HYB_SIG \<Rightarrow>
           new_hybrid (OQS_SIG_new L oqs) (oqsx_hybsig_init bits C zalloc_evp_ctx tls)
             accepts_sig ok primitive False lc tls bits
       | _ \<Rightarrow>
           new_hybrid (OQS_KEM_new L oqs) (init_kex_fun primitive C zalloc_evp_ctx tls)
             accepts_kem ok primitive (rshare \<noteq> 0) lc tls bits) (\<lambda>ret.
     bindR (ensure (ok A_TLS_NAME) (Raise MALLOC_FAILURE)) (\<lambda>_.
     (case pq of None \<Rightarrow> Inr ret
      | Some q \<Rightarrow> bindR (ensure (ok A_PROPQ) (Raise MALLOC_FAILURE)) (\<lambda>_.
          Inr (ret\<lparr>propq := Some q\<rparr>))))))))"

text \<open>\<^verbatim>\<open>oqsx_key_new_from_nid\<close>; \<open>sn\<close> is \<^verbatim>\<open>OBJ_nid2sn\<close>.\<close>

definition oqsx_key_new_from_nid ::
    "liboqs \<Rightarrow> evp_calls \<Rightarrow> allocs \<Rightarrow> nid_entry list \<Rightarrow> (int \<Rightarrow> string option) \<Rightarrow> nat
      \<Rightarrow> string option \<Rightarrow> int \<Rightarrow> 'p oqsx_key res" where
  "oqsx_key_new_from_nid L C ok tbl sn lc pq nid =
     bindR (of_option (Raise WRONG_PARAMETERS) (sn nid)) (\<lambda>tls.
     oqsx_key_new L C ok lc (get_oqsname tbl nid) (Some tls) (get_keytype tbl nid) pq
       (get_secbits tbl nid) (get_oqsalg_idx tbl nid) (get_reverseshare tbl nid))"

definition oqsx_key_set0_libctx :: "nat \<Rightarrow> 'p oqsx_key \<Rightarrow> 'p oqsx_key" where
  "oqsx_key_set0_libctx lc k = k\<lparr>libctx := lc\<rparr>"

subsection \<open>Key material\<close>

text \<open>\<^verbatim>\<open>oqsx_key_allocate_keymaterial\<close> returns 1 on failure.\<close>

definition oqsx_key_allocate_keymaterial ::
    "allocs \<Rightarrow> bool \<Rightarrow> 'p oqsx_key \<Rightarrow> int \<times> 'p oqsx_key" where
  "oqsx_key_allocate_keymaterial ok include_private k =
     (if privkey k = None \<and> include_private then
        (if ok A_PRIVKEY
         then (0, k\<lparr>privkey := Some (replicate (privkeylen k + SIZE_OF_UINT32) 0)\<rparr>)
         else (1, k))
      else if pubkey k = None \<and> \<not> include_private then
        (if ok A_PUBKEY then (0, k\<lparr>pubkey := Some (replicate (pubkeylen k) 0)\<rparr>) else (1, k))
      else (0, k))"

subsection \<open>Component pointers\<close>

definition comp_reverse :: "'p oqsx_key \<Rightarrow> bool" where
  "comp_reverse k \<longleftrightarrow> is_hyb_kem (keytype k) \<and> reverse_share k"

definition oqsx_comp_set_idx :: "'p oqsx_key \<Rightarrow> nat \<times> nat" where
  "oqsx_comp_set_idx k = (if comp_reverse k then (numkeys k - 1, 0) else (0, numkeys k - 1))"

definition put_priv :: "nat \<Rightarrow> cptr \<Rightarrow> ('p oqsx_key, unit) st" where
  "put_priv i p = (\<lambda>k. if i < length (comp_privkey k)
     then (Inr (), k\<lparr>comp_privkey := (comp_privkey k)[i := p]\<rparr>) else (Inl UB, k))"

definition put_pub :: "nat \<Rightarrow> cptr \<Rightarrow> ('p oqsx_key, unit) st" where
  "put_pub i p = (\<lambda>k. if i < length (comp_pubkey k)
     then (Inr (), k\<lparr>comp_pubkey := (comp_pubkey k)[i := p]\<rparr>) else (Inl UB, k))"

text \<open>The length of the classical component: the table's maximum, or the buffer's header.\<close>

definition classic_len :: "bool \<Rightarrow> nat \<Rightarrow> bytes option \<Rightarrow> nat res" where
  "classic_len fixed maxlen buf =
     (if fixed then Inr maxlen
      else bindR (of_option UB buf) (\<lambda>b. bindR (rd b 0 SIZE_OF_UINT32) (\<lambda>h.
        if dec32 h > maxlen then Inl (Raise INVALID_ENCODING) else Inr (dec32 h))))"

definition set_priv_offsets :: "bool \<Rightarrow> ('p oqsx_key, unit) st" where
  "set_priv_offsets fixed =
     thenS (put_priv 0 (Off SIZE_OF_UINT32))
     (bindS (readS (\<lambda>k. bindR (of_option UB (evp_info k)) (\<lambda>i.
        classic_len fixed (length_private_key i) (privkey k)))) (\<lambda>n.
      bindS (getS (\<lambda>k. if comp_reverse k then qs_length_secret_key (qs k) else n)) (\<lambda>d.
      put_priv 1 (Off (d + SIZE_OF_UINT32)))))"

definition set_pub_offsets :: "bool \<Rightarrow> ('p oqsx_key, unit) st" where
  "set_pub_offsets fixed =
     thenS (put_pub 0 (Off SIZE_OF_UINT32))
     (bindS (readS (\<lambda>k. bindR (of_option UB (evp_info k)) (\<lambda>i.
        classic_len fixed (length_public_key i) (pubkey k)))) (\<lambda>n.
      bindS (getS (\<lambda>k. if comp_reverse k then qs_length_public_key (qs k) else n)) (\<lambda>d.
      put_pub 1 (Off (d + SIZE_OF_UINT32)))))"

definition oqsx_comp_set_offsets :: "bool \<Rightarrow> bool \<Rightarrow> bool \<Rightarrow> ('p oqsx_key, unit) st" where
  "oqsx_comp_set_offsets set_privkey set_pubkey fixed =
     thenS (if set_privkey then set_priv_offsets fixed else retS ())
           (if set_pubkey then set_pub_offsets fixed else retS ())"

definition buf_ptr :: "bytes option \<Rightarrow> cptr" where
  "buf_ptr b = (case b of None \<Rightarrow> Null | Some _ \<Rightarrow> Off 0)"

definition oqsx_key_set_composites :: "bool \<Rightarrow> ('p oqsx_key, unit) st" where
  "oqsx_key_set_composites fixed =
     bindS (getS (\<lambda>k. k)) (\<lambda>k0.
     if numkeys k0 = 1 then
       thenS (put_priv 0 (buf_ptr (privkey k0))) (put_pub 0 (buf_ptr (pubkey k0)))
     else
       thenS (oqsx_comp_set_offsets (privkey k0 \<noteq> None) (pubkey k0 \<noteq> None) fixed)
       (thenS (if privkey k0 = None then thenS (put_priv 0 Null) (put_priv 1 Null) else retS ())
              (if pubkey k0 = None then thenS (put_pub 0 Null) (put_pub 1 Null) else retS ())))"

subsection \<open>Size queries\<close>

definition oqsx_key_secbits :: "'p oqsx_key \<Rightarrow> int" where
  "oqsx_key_secbits k = bit_security k"

definition oqsx_key_maxsize :: "'p oqsx_key \<Rightarrow> nat res" where
  "oqsx_key_maxsize k = (case keytype k of
       KEY_TYPE_KEM \<Rightarrow> Inr (qs_length_shared_secret (qs k))
     | KEY_TYPE_SIG \<Rightarrow> Inr (qs_length_signature (qs k))
     | KEY_TYPE_HYB_SIG \<Rightarrow>
         bindR (of_option UB (Option.bind (oqsx_evp_ctx k) ec_info)) (\<lambda>i.
         Inr (qs_length_signature (qs k) + length_signature i + SIZE_OF_UINT32))
     | _ \<Rightarrow>
         bindR (of_option UB (Option.bind (oqsx_evp_ctx k) ec_info)) (\<lambda>i.
         Inr (kex_length_secret i + qs_length_shared_secret (qs k))))"

definition oqsx_key_get_oqs_public_key_len :: "'p oqsx_key \<Rightarrow> nat" where
  "oqsx_key_get_oqs_public_key_len k = (case keytype k of
       KEY_TYPE_SIG \<Rightarrow> pubkeylen k
     | KEY_TYPE_KEM \<Rightarrow> pubkeylen k
     | _ \<Rightarrow> qs_length_public_key (qs k))"

subsection \<open>Well-formed keys\<close>

text \<open>
  The invariant of a key between operations: the shape its key type demands, length fields that
  agree with the components', and buffers, once allocated, of at least the size of their field.
\<close>

definition is_hybrid :: "oqsx_key_type \<Rightarrow> bool" where
  "is_hybrid t \<longleftrightarrow> t = KEY_TYPE_HYB_SIG \<or> is_hyb_kem t"

definition classic_info_ok :: "'p oqsx_key \<Rightarrow> evp_info \<Rightarrow> bool" where
  "classic_info_ok k i \<longleftrightarrow>
     ok_sizes i \<and> (\<exists>c. oqsx_evp_ctx k = Some c \<and> ec_info c = Some i) \<and>
     privkeylen k = SIZE_OF_UINT32 + qs_length_secret_key (qs k) + length_private_key i \<and>
     pubkeylen k = SIZE_OF_UINT32 + qs_length_public_key (qs k) + length_public_key i"

definition wf_shape :: "'p oqsx_key \<Rightarrow> bool" where
  "wf_shape k \<longleftrightarrow>
     length (comp_privkey k) = numkeys k \<and> length (comp_pubkey k) = numkeys k \<and>
     (reverse_share k \<longrightarrow> is_hyb_kem (keytype k)) \<and>
     (if is_hybrid (keytype k)
      then numkeys k = 2 \<and> (\<exists>i. evp_info k = Some i \<and> classic_info_ok k i)
      else numkeys k = 1 \<and> evp_info k = None \<and> oqsx_evp_ctx k = None \<and>
           privkeylen k = qs_length_secret_key (qs k) \<and>
           pubkeylen k = qs_length_public_key (qs k))"

definition wf_buffers :: "'p oqsx_key \<Rightarrow> bool" where
  "wf_buffers k \<longleftrightarrow>
     (\<forall>b. privkey k = Some b \<longrightarrow> privkeylen k \<le> length b) \<and>
     (\<forall>b. pubkey k = Some b \<longrightarrow> length b = pubkeylen k)"

definition wf_key :: "'p oqsx_key \<Rightarrow> bool" where
  "wf_key k \<longleftrightarrow> wf_shape k \<and> wf_buffers k"

lemma is_hybrid_cases:
  "is_hybrid t \<longleftrightarrow> t \<noteq> KEY_TYPE_SIG \<and> t \<noteq> KEY_TYPE_KEM"
  by (cases t) (auto simp: is_hybrid_def is_hyb_kem_def)

lemma wf_hybridE:
  assumes "wf_shape k" and "is_hybrid (keytype k)"
  obtains i c where "numkeys k = 2" "evp_info k = Some i" "oqsx_evp_ctx k = Some c"
    "ec_info c = Some i" "ok_sizes i"
    "privkeylen k = 4 + qs_length_secret_key (qs k) + length_private_key i"
    "pubkeylen k = 4 + qs_length_public_key (qs k) + length_public_key i"
    "length (comp_privkey k) = 2" "length (comp_pubkey k) = 2"
  using assms by (auto simp: wf_shape_def classic_info_ok_def)

lemma new_plain_wf:
  "new_plain q ok kt lc tls bits = Inr k \<Longrightarrow> \<not> is_hybrid kt \<Longrightarrow>
     wf_key k \<and> keytype k = kt \<and> Some (qs k) = q \<and> references k = 1 \<and> bit_security k = bits
     \<and> tls_name k = tls \<and> privkey k = None \<and> pubkey k = None"
  by (auto simp: new_plain_def bindR_eq_Inr wf_key_def wf_shape_def wf_buffers_def)

lemma new_hybrid_wf:
  assumes "new_hybrid q init accepts ok kt rshare lc tls bits = Inr k"
    and "is_hybrid kt" and "rshare \<longrightarrow> is_hyb_kem kt"
    and "\<And>r c. init = Inr (r, c) \<Longrightarrow> accepts r c \<Longrightarrow> \<exists>i. ec_info c = Some i \<and> ok_sizes i"
  shows "wf_key k \<and> keytype k = kt \<and> Some (qs k) = q \<and> references k = 1 \<and> bit_security k = bits
     \<and> tls_name k = tls \<and> privkey k = None \<and> pubkey k = None"
  using assms
  by (fastforce simp: new_hybrid_def bindR_eq_Inr wf_key_def wf_shape_def wf_buffers_def
      classic_info_ok_def)

lemma init_kex_fun_ok:
  "init_kex_fun kt C zalloc_evp_ctx t = Inr (r, c) \<Longrightarrow> accepts_kem r c
    \<Longrightarrow> \<exists>i. ec_info c = Some i \<and> ok_sizes i"
  using ecp.accepted_ok ecbp.accepted_ok ecx.accepted_ok
  by (cases kt) (auto simp: init_kex_fun_def)

lemma new_plain_not_UB: "new_plain q ok kt lc tls bits \<noteq> Inl UB"
  by (auto simp: new_plain_def bindR_eq_UB)

lemma new_hybrid_UB:
  assumes "\<And>r c. init = Inr (r, c) \<Longrightarrow> accepts r c \<Longrightarrow> \<exists>i. ec_info c = Some i \<and> ok_sizes i"
  shows "new_hybrid q init accepts ok kt rshare lc tls bits = Inl UB
    \<longleftrightarrow> q \<noteq> None \<and> ok A_EVP_CTX \<and> init = Inl UB"
  using assms by (fastforce simp: new_hybrid_def bindR_eq_UB)

lemma oqsx_key_new_wf:
  assumes "oqsx_key_new L C ok lc oqs tls kt pq bits idx rs = Inr k"
  shows "wf_key k \<and> keytype k = kt \<and> references k = 1 \<and> bit_security k = bits
     \<and> Some (tls_name k) = tls \<and> propq k = pq \<and> privkey k = None \<and> pubkey k = None"
proof -
  from assms obtain o' t r where o': "oqs = Some o'" and t: "tls = Some t"
    and r: "(case kt of
         KEY_TYPE_SIG \<Rightarrow> new_plain (OQS_SIG_new L o') ok KEY_TYPE_SIG lc t bits
       | KEY_TYPE_KEM \<Rightarrow> new_plain (OQS_KEM_new L o') ok KEY_TYPE_KEM lc t bits
       | KEY_TYPE_HYB_SIG \<Rightarrow>
           new_hybrid (OQS_SIG_new L o') (oqsx_hybsig_init bits C zalloc_evp_ctx t)
             accepts_sig ok kt False lc t bits
       | _ \<Rightarrow>
           new_hybrid (OQS_KEM_new L o') (init_kex_fun kt C zalloc_evp_ctx t)
             accepts_kem ok kt (rs \<noteq> 0) lc t bits) = Inr r"
    and k: "k = r\<lparr>propq := pq\<rparr>" and p: "propq r = None"
    by (fastforce simp: oqsx_key_new_def bindR_eq_Inr new_plain_def new_hybrid_def
        split: option.splits oqsx_key_type.splits)
  have "wf_key r \<and> keytype r = kt \<and> references r = 1 \<and> bit_security r = bits \<and> tls_name r = t
      \<and> privkey r = None \<and> pubkey r = None"
  proof (cases "is_hyb_kem kt")
    case True
    with r show ?thesis
      by (auto simp: is_hyb_kem_def
          dest!: new_hybrid_wf [OF _ _ _ init_kex_fun_ok] simp: is_hybrid_def)
  next
    case False
    with r show ?thesis
      by (cases kt) (auto simp: is_hyb_kem_def is_hybrid_def dest!: new_plain_wf
          new_hybrid_wf [OF _ _ _ hybsig.accepted_ok])
  qed
  with k t show ?thesis
    by (auto simp: wf_key_def wf_shape_def wf_buffers_def classic_info_ok_def split: if_splits)
qed

lemma oqsx_key_new_UB:
  "oqsx_key_new L C ok lc oqs tls kt pq bits idx rs = Inl UB \<longleftrightarrow>
     ok A_KEY \<and> ok A_EVP_CTX \<and> (\<exists>o' t. oqs = Some o' \<and> tls = Some t \<and>
       (kt = KEY_TYPE_HYB_SIG \<and> OQS_SIG_new L o' \<noteq> None
          \<and> oqsx_hybsig_init bits C zalloc_evp_ctx t = Inl UB
        \<or> is_hyb_kem kt \<and> OQS_KEM_new L o' \<noteq> None
          \<and> init_kex_fun kt C zalloc_evp_ctx t = Inl UB))"
proof -
  note hyb_sig = new_hybrid_UB [OF hybsig.accepted_ok]
  note hyb_kem = new_hybrid_UB [OF init_kex_fun_ok]
  show ?thesis
    by (cases kt) (auto simp: oqsx_key_new_def bindR_eq_UB is_hyb_kem_def new_plain_not_UB
        hyb_sig hyb_kem split: option.splits)
qed

subsection \<open>Where the components lie\<close>

text \<open>
  The offsets \<open>oqsx_key_set_composites\<close> computes for a hybrid key, as a function of the length
  \<open>n\<close> of the classical component: the post-quantum component comes first when the key reverses
  its shares.
\<close>

definition comp_ptrs :: "bool \<Rightarrow> nat \<Rightarrow> nat \<Rightarrow> cptr list" where
  "comp_ptrs rv pqlen n = [Off 4, Off ((if rv then pqlen else n) + 4)]"

definition idx_classic :: "'p oqsx_key \<Rightarrow> nat" where
  "idx_classic k = fst (oqsx_comp_set_idx k)"

definition idx_pq :: "'p oqsx_key \<Rightarrow> nat" where
  "idx_pq k = snd (oqsx_comp_set_idx k)"

definition comp_at :: "cptr list \<Rightarrow> nat \<Rightarrow> nat res" where
  "comp_at ps i = (if i < length ps then case ps ! i of Off n \<Rightarrow> Inr n | _ \<Rightarrow> Inl UB else Inl UB)"

lemma comp_at_classic:
  "numkeys k = 2 \<Longrightarrow> comp_at (comp_ptrs (comp_reverse k) pqlen n) (idx_classic k) =
     Inr (if comp_reverse k then 4 + pqlen else 4)"
  by (simp add: comp_at_def comp_ptrs_def idx_classic_def oqsx_comp_set_idx_def)

lemma comp_at_pq:
  "numkeys k = 2 \<Longrightarrow> comp_at (comp_ptrs (comp_reverse k) pqlen n) (idx_pq k) =
     Inr (if comp_reverse k then 4 else 4 + n)"
  by (simp add: comp_at_def comp_ptrs_def idx_pq_def oqsx_comp_set_idx_def)

lemma length2_updates: "length xs = 2 \<Longrightarrow> xs[0 := a, Suc 0 := b] = [a, b] \<and> xs \<noteq> []"
  by (cases xs; cases "tl xs") auto

text \<open>The pointer array after set-up, from the buffer and the maximal classical length.\<close>

definition hyb_ptrs :: "bool \<Rightarrow> bool \<Rightarrow> nat \<Rightarrow> nat \<Rightarrow> bytes option \<Rightarrow> cptr list res" where
  "hyb_ptrs fixed rv pqlen maxlen buf = (case buf of
       None \<Rightarrow> Inr [Null, Null]
     | Some _ \<Rightarrow> bindR (classic_len fixed maxlen buf) (\<lambda>n. Inr (comp_ptrs rv pqlen n)))"

lemma set_priv_offsets_Inr:
  assumes "length (comp_privkey k) = 2" and "evp_info k = Some i"
    and "classic_len fixed (length_private_key i) (privkey k) = Inr n"
  shows "set_priv_offsets fixed k =
    (Inr (), k\<lparr>comp_privkey := comp_ptrs (comp_reverse k) (qs_length_secret_key (qs k)) n\<rparr>)"
  using assms
  by (simp add: set_priv_offsets_def thenS_def bindS_def put_priv_def st_simps comp_ptrs_def
      comp_reverse_def length2_updates)

lemma set_pub_offsets_Inr:
  assumes "length (comp_pubkey k) = 2" and "evp_info k = Some i"
    and "classic_len fixed (length_public_key i) (pubkey k) = Inr n"
  shows "set_pub_offsets fixed k =
    (Inr (), k\<lparr>comp_pubkey := comp_ptrs (comp_reverse k) (qs_length_public_key (qs k)) n\<rparr>)"
  using assms
  by (simp add: set_pub_offsets_def thenS_def bindS_def put_pub_def st_simps comp_ptrs_def
      comp_reverse_def length2_updates)

lemma put_priv_nulls:
  "length (comp_privkey k) = 2 \<Longrightarrow>
     thenS (put_priv 0 Null) (put_priv (Suc 0) Null) k = (Inr (), k\<lparr>comp_privkey := [Null, Null]\<rparr>)"
  by (simp add: thenS_def bindS_def put_priv_def length2_updates)

lemma put_pub_nulls:
  "length (comp_pubkey k) = 2 \<Longrightarrow>
     thenS (put_pub 0 Null) (put_pub (Suc 0) Null) k = (Inr (), k\<lparr>comp_pubkey := [Null, Null]\<rparr>)"
  by (simp add: thenS_def bindS_def put_pub_def length2_updates)

lemma thenS_Inr: "m s = (Inr (), s') \<Longrightarrow> thenS m n s = n s'"
  by (simp add: thenS_def bindS_def)

lemma thenS_Inl: "m s = (Inl e, s') \<Longrightarrow> thenS m n s = (Inl e, s')"
  by (simp add: thenS_def bindS_def)

lemma comp_reverse_updates [simp]:
  "comp_reverse (k\<lparr>comp_privkey := ps\<rparr>) = comp_reverse k"
  "comp_reverse (k\<lparr>comp_pubkey := ps\<rparr>) = comp_reverse k"
  "comp_reverse (k\<lparr>privkey := b\<rparr>) = comp_reverse k"
  "comp_reverse (k\<lparr>pubkey := b\<rparr>) = comp_reverse k"
  "comp_reverse (k\<lparr>classical_pkey := p\<rparr>) = comp_reverse k"
  by (simp_all add: comp_reverse_def)

lemma comp_ptrs_length [simp]: "length (comp_ptrs rv q n) = 2"
  by (simp add: comp_ptrs_def)

lemma set_composites_hybrid:
  assumes n: "numkeys k = 2" "length (comp_privkey k) = 2" "length (comp_pubkey k) = 2"
    "evp_info k = Some i"
    and ps: "hyb_ptrs fixed (comp_reverse k) (qs_length_secret_key (qs k)) (length_private_key i)
           (privkey k) = Inr ps"
    and ps': "hyb_ptrs fixed (comp_reverse k) (qs_length_public_key (qs k)) (length_public_key i)
           (pubkey k) = Inr ps'"
  shows "oqsx_key_set_composites fixed k =
    (Inr (), k\<lparr>comp_privkey := ps, comp_pubkey := ps'\<rparr>)"
proof (cases "privkey k"; cases "pubkey k")
  assume "privkey k = None" "pubkey k = None"
  with n ps ps' show ?thesis
    by (simp add: oqsx_key_set_composites_def oqsx_comp_set_offsets_def st_simps thenS_Inr
        put_priv_nulls put_pub_nulls hyb_ptrs_def)
next
  fix b assume "privkey k = None" "pubkey k = Some b"
  with n ps ps' show ?thesis
    by (auto simp: oqsx_key_set_composites_def oqsx_comp_set_offsets_def st_simps thenS_Inr
        put_priv_nulls hyb_ptrs_def bindR_eq_Inr set_pub_offsets_Inr)
next
  fix a assume "privkey k = Some a" "pubkey k = None"
  with n ps ps' show ?thesis
    by (auto simp: oqsx_key_set_composites_def oqsx_comp_set_offsets_def st_simps thenS_Inr
        put_pub_nulls hyb_ptrs_def bindR_eq_Inr set_priv_offsets_Inr)
next
  fix a b assume "privkey k = Some a" "pubkey k = Some b"
  with n ps ps' show ?thesis
    by (auto simp: oqsx_key_set_composites_def oqsx_comp_set_offsets_def st_simps thenS_Inr
        hyb_ptrs_def bindR_eq_Inr set_priv_offsets_Inr set_pub_offsets_Inr)
qed

lemma set_composites_plain:
  assumes "numkeys k = 1" and "length (comp_privkey k) = 1" and "length (comp_pubkey k) = 1"
  shows "oqsx_key_set_composites fixed k =
    (Inr (), k\<lparr>comp_privkey := [buf_ptr (privkey k)], comp_pubkey := [buf_ptr (pubkey k)]\<rparr>)"
  using assms
  by (auto simp: oqsx_key_set_composites_def st_simps thenS_def bindS_def put_priv_def put_pub_def
      length_Suc_conv)

text \<open>A pointer array refers into its buffer, every component whole.\<close>

definition ptrs_ok :: "bool \<Rightarrow> nat \<Rightarrow> nat \<Rightarrow> cptr list \<Rightarrow> bytes option \<Rightarrow> bool" where
  "ptrs_ok rv pqlen maxlen ps buf \<longleftrightarrow> (case buf of
       None \<Rightarrow> ps = [Null, Null]
     | Some b \<Rightarrow> \<exists>n \<le> maxlen. ps = comp_ptrs rv pqlen n \<and> 4 + pqlen + n \<le> length b)"

lemma hyb_ptrs_not_UB:
  assumes "\<And>b. buf = Some b \<Longrightarrow> 4 + pqlen + maxlen \<le> length b"
  shows "hyb_ptrs fixed rv pqlen maxlen buf \<noteq> Inl UB"
  using assms by (fastforce simp: hyb_ptrs_def classic_len_def bindR_eq_UB rd_def
      split: option.splits if_splits)

lemma classic_len_le: "classic_len fixed maxlen buf = Inr n \<Longrightarrow> n \<le> maxlen"
  by (auto simp: classic_len_def bindR_eq_Inr split: if_splits)

lemma hyb_ptrs_ok:
  assumes "\<And>b. buf = Some b \<Longrightarrow> 4 + pqlen + maxlen \<le> length b"
    and "hyb_ptrs fixed rv pqlen maxlen buf = Inr ps"
  shows "ptrs_ok rv pqlen maxlen ps buf"
proof (cases buf)
  case (Some b)
  with assms(2) obtain n where "classic_len fixed maxlen buf = Inr n" "ps = comp_ptrs rv pqlen n"
    by (auto simp: hyb_ptrs_def bindR_eq_Inr)
  moreover from this(1) have "n \<le> maxlen" by (rule classic_len_le)
  moreover have "4 + pqlen + n \<le> length b"
    using assms(1) [OF Some] \<open>n \<le> maxlen\<close> by simp
  ultimately show ?thesis
    using Some by (auto simp: ptrs_ok_def)
qed (use assms in \<open>simp add: hyb_ptrs_def ptrs_ok_def\<close>)

subsection \<open>Setting the component pointers is safe\<close>

text \<open>What the operations on a key leave alone: everything but pointers, buffers and the EVP key.\<close>

definition erase :: "'p oqsx_key \<Rightarrow> 'p oqsx_key" where
  "erase k = k\<lparr>comp_privkey := [], comp_pubkey := [], privkey := None, pubkey := None,
     classical_pkey := None\<rparr>"

definition same_key :: "'p oqsx_key \<Rightarrow> 'p oqsx_key \<Rightarrow> bool" where
  "same_key k k' \<longleftrightarrow> erase k' = erase k"

lemma same_key_refl [simp]: "same_key k k"
  by (simp add: same_key_def)

lemma same_key_trans: "same_key a b \<Longrightarrow> same_key b c \<Longrightarrow> same_key a c"
  by (simp add: same_key_def)

lemma erase_upd [simp]:
  "erase (k\<lparr>comp_privkey := ps\<rparr>) = erase k" "erase (k\<lparr>comp_pubkey := ps\<rparr>) = erase k"
  "erase (k\<lparr>privkey := b\<rparr>) = erase k" "erase (k\<lparr>pubkey := b\<rparr>) = erase k"
  "erase (k\<lparr>classical_pkey := p\<rparr>) = erase k"
  by (simp_all add: erase_def)

lemma same_key_upd [simp]:
  "same_key a (k\<lparr>comp_privkey := ps\<rparr>) = same_key a k" "same_key a (k\<lparr>comp_pubkey := ps\<rparr>) = same_key a k"
  "same_key a (k\<lparr>privkey := b\<rparr>) = same_key a k" "same_key a (k\<lparr>pubkey := b\<rparr>) = same_key a k"
  "same_key a (k\<lparr>classical_pkey := p\<rparr>) = same_key a k"
  by (simp_all add: same_key_def)

lemma same_key_fields:
  assumes "same_key k k'"
  shows "keytype k' = keytype k" "qs k' = qs k" "numkeys k' = numkeys k" "evp_info k' = evp_info k"
    "oqsx_evp_ctx k' = oqsx_evp_ctx k" "reverse_share k' = reverse_share k"
    "privkeylen k' = privkeylen k" "pubkeylen k' = pubkeylen k" "tls_name k' = tls_name k"
    "references k' = references k" "bit_security k' = bit_security k" "propq k' = propq k"
  using assms by (cases k; cases k'; simp add: same_key_def erase_def)+

lemma wf_shape_same:
  "same_key k k' \<Longrightarrow> wf_shape k \<Longrightarrow> length (comp_privkey k') = numkeys k
    \<Longrightarrow> length (comp_pubkey k') = numkeys k \<Longrightarrow> wf_shape k'"
  using same_key_fields [of k k'] by (auto simp: wf_shape_def classic_info_ok_def)

lemma wf_key_comp_upd:
  "wf_key k \<Longrightarrow> length ps = numkeys k \<Longrightarrow> wf_key (k\<lparr>comp_privkey := ps\<rparr>)"
  "wf_key k \<Longrightarrow> length ps = numkeys k \<Longrightarrow> wf_key (k\<lparr>comp_pubkey := ps\<rparr>)"
  by (auto simp: wf_key_def wf_shape_def wf_buffers_def classic_info_ok_def)

lemma wf_key_classical_upd [simp]: "wf_key (k\<lparr>classical_pkey := p\<rparr>) = wf_key k"
  by (simp add: wf_key_def wf_shape_def wf_buffers_def classic_info_ok_def)

definition comps_ok :: "'p oqsx_key \<Rightarrow> bool" where
  "comps_ok k \<longleftrightarrow>
     (if is_hybrid (keytype k)
      then \<exists>i. evp_info k = Some i \<and>
         ptrs_ok (comp_reverse k) (qs_length_secret_key (qs k)) (length_private_key i)
           (comp_privkey k) (privkey k) \<and>
         ptrs_ok (comp_reverse k) (qs_length_public_key (qs k)) (length_public_key i)
           (comp_pubkey k) (pubkey k)
      else comp_privkey k = [buf_ptr (privkey k)] \<and> comp_pubkey k = [buf_ptr (pubkey k)])"

lemma set_priv_offsets_Inl:
  assumes "length (comp_privkey k) = 2" and "evp_info k = Some i"
    and "classic_len fixed (length_private_key i) (privkey k) = Inl e"
  shows "set_priv_offsets fixed k = (Inl e, k\<lparr>comp_privkey := (comp_privkey k)[0 := Off 4]\<rparr>)"
  using assms by (auto simp: set_priv_offsets_def thenS_def bindS_def put_priv_def st_simps)

lemma set_pub_offsets_Inl:
  assumes "length (comp_pubkey k) = 2" and "evp_info k = Some i"
    and "classic_len fixed (length_public_key i) (pubkey k) = Inl e"
  shows "set_pub_offsets fixed k = (Inl e, k\<lparr>comp_pubkey := (comp_pubkey k)[0 := Off 4]\<rparr>)"
  using assms by (auto simp: set_pub_offsets_def thenS_def bindS_def put_pub_def st_simps)

lemma hyb_ptrs_Inl:
  "hyb_ptrs fixed rv ql maxlen buf = Inl e \<Longrightarrow> buf \<noteq> None \<and> classic_len fixed maxlen buf = Inl e"
  by (cases "classic_len fixed maxlen buf") (auto simp: hyb_ptrs_def split: option.splits)

lemma set_composites_fails:
  assumes n: "numkeys k = 2" "length (comp_privkey k) = 2" "length (comp_pubkey k) = 2"
    "evp_info k = Some i"
    and f: "hyb_ptrs fixed (comp_reverse k) (qs_length_secret_key (qs k)) (length_private_key i)
           (privkey k) = Inl e \<or>
         (\<exists>ps. hyb_ptrs fixed (comp_reverse k) (qs_length_secret_key (qs k)) (length_private_key i)
           (privkey k) = Inr ps) \<and>
         hyb_ptrs fixed (comp_reverse k) (qs_length_public_key (qs k)) (length_public_key i)
           (pubkey k) = Inl e"
  shows "\<exists>ps qs'. length ps = 2 \<and> length qs' = 2 \<and>
    oqsx_key_set_composites fixed k = (Inl e, k\<lparr>comp_privkey := ps, comp_pubkey := qs'\<rparr>)"
  using f
proof (elim disjE conjE exE)
  assume "hyb_ptrs fixed (comp_reverse k) (qs_length_secret_key (qs k)) (length_private_key i)
      (privkey k) = Inl e"
  from hyb_ptrs_Inl [OF this] have "privkey k \<noteq> None"
    and *: "set_priv_offsets fixed k = (Inl e, k\<lparr>comp_privkey := (comp_privkey k)[0 := Off 4]\<rparr>)"
    using set_priv_offsets_Inl [OF n(2,4)] by auto
  then have "oqsx_key_set_composites fixed k = (Inl e, k\<lparr>comp_privkey := (comp_privkey k)[0 := Off 4]\<rparr>)"
    by (simp add: oqsx_key_set_composites_def oqsx_comp_set_offsets_def st_simps n thenS_Inl)
  then show ?thesis
    using n by (intro exI [of _ "(comp_privkey k)[0 := Off 4]"] exI [of _ "comp_pubkey k"]) simp
next
  fix ps
  assume ps: "hyb_ptrs fixed (comp_reverse k) (qs_length_secret_key (qs k)) (length_private_key i)
      (privkey k) = Inr ps"
    and "hyb_ptrs fixed (comp_reverse k) (qs_length_public_key (qs k)) (length_public_key i)
      (pubkey k) = Inl e"
  from hyb_ptrs_Inl [OF this(2)] have pub: "pubkey k \<noteq> None"
      "classic_len fixed (length_public_key i) (pubkey k) = Inl e"
    by auto
  show ?thesis
  proof (cases "privkey k")
    case None
    with pub have "oqsx_key_set_composites fixed k = (Inl e, k\<lparr>comp_pubkey := (comp_pubkey k)[0 := Off 4]\<rparr>)"
      using set_pub_offsets_Inl [OF n(3,4)]
      by (simp add: oqsx_key_set_composites_def oqsx_comp_set_offsets_def st_simps n thenS_Inl)
    then show ?thesis
      using n by (intro exI [of _ "comp_privkey k"] exI [of _ "(comp_pubkey k)[0 := Off 4]"]) simp
  next
    case (Some sb)
    with ps obtain m where m: "classic_len fixed (length_private_key i) (privkey k) = Inr m"
      by (auto simp: hyb_ptrs_def bindR_eq_Inr)
    let ?ps = "comp_ptrs (comp_reverse k) (qs_length_secret_key (qs k)) m"
    have "set_pub_offsets fixed (k\<lparr>comp_privkey := ?ps\<rparr>) =
        (Inl e, k\<lparr>comp_privkey := ?ps, comp_pubkey := (comp_pubkey k)[0 := Off 4]\<rparr>)"
      using n pub by (subst set_pub_offsets_Inl) auto
    with Some pub set_priv_offsets_Inr [OF n(2,4) m]
    have "oqsx_key_set_composites fixed k =
        (Inl e, k\<lparr>comp_privkey := ?ps, comp_pubkey := (comp_pubkey k)[0 := Off 4]\<rparr>)"
      by (simp add: oqsx_key_set_composites_def oqsx_comp_set_offsets_def st_simps n thenS_Inl thenS_Inr)
    then show ?thesis
      using n by (intro exI [of _ ?ps] exI [of _ "(comp_pubkey k)[0 := Off 4]"]) simp
  qed
qed

lemma set_composites_safe:
  "safe (\<lambda>k'. wf_key k' \<and> same_key k k') (oqsx_key_set_composites fixed)
     (\<lambda>_ k'. wf_key k' \<and> same_key k k' \<and> comps_ok k') (\<lambda>k'. wf_key k' \<and> same_key k k')"
proof (unfold safe_def, intro allI impI, elim conjE)
  fix k' assume wf: "wf_key k'" and sm: "same_key k k'"
  show "case oqsx_key_set_composites fixed k' of
      (Inr x, s') \<Rightarrow> wf_key s' \<and> same_key k s' \<and> comps_ok s'
    | (Inl e, s') \<Rightarrow> e \<noteq> UB \<and> wf_key s' \<and> same_key k s'"
  proof (cases "is_hybrid (keytype k')")
    case False
    with wf have n: "numkeys k' = 1" "length (comp_privkey k') = 1" "length (comp_pubkey k') = 1"
      by (auto simp: wf_key_def wf_shape_def)
    with wf sm False show ?thesis
      by (simp add: set_composites_plain [OF n] wf_key_comp_upd comps_ok_def)
  next
    case True
    with wf obtain i where k: "numkeys k' = 2" "length (comp_privkey k') = 2"
        "length (comp_pubkey k') = 2" "evp_info k' = Some i"
        "privkeylen k' = 4 + qs_length_secret_key (qs k') + length_private_key i"
        "pubkeylen k' = 4 + qs_length_public_key (qs k') + length_public_key i"
      by (auto simp: wf_key_def elim!: wf_hybridE)
    let ?s = "hyb_ptrs fixed (comp_reverse k') (qs_length_secret_key (qs k')) (length_private_key i) (privkey k')"
    let ?p = "hyb_ptrs fixed (comp_reverse k') (qs_length_public_key (qs k')) (length_public_key i) (pubkey k')"
    have bs: "4 + qs_length_secret_key (qs k') + length_private_key i \<le> length b" if "privkey k' = Some b" for b
      using wf that k by (auto simp: wf_key_def wf_buffers_def)
    have bp: "4 + qs_length_public_key (qs k') + length_public_key i \<le> length b" if "pubkey k' = Some b" for b
      using wf that k by (auto simp: wf_key_def wf_buffers_def)
    have not_UB: "?s \<noteq> Inl UB" "?p \<noteq> Inl UB"
      using hyb_ptrs_not_UB [OF bs] hyb_ptrs_not_UB [OF bp] by auto
    show ?thesis
    proof (cases "\<exists>ps ps'. ?s = Inr ps \<and> ?p = Inr ps'")
      case ok: True
      then obtain ps ps' where ps: "?s = Inr ps" "?p = Inr ps'" by blast
      have "ptrs_ok (comp_reverse k') (qs_length_secret_key (qs k')) (length_private_key i) ps (privkey k')"
        "ptrs_ok (comp_reverse k') (qs_length_public_key (qs k')) (length_public_key i) ps' (pubkey k')"
        using hyb_ptrs_ok [OF bs ps(1)] hyb_ptrs_ok [OF bp ps(2)] by auto
      moreover from this have "length ps = 2" "length ps' = 2"
        by (auto simp: ptrs_ok_def split: option.splits)
      ultimately show ?thesis
        using wf sm True k by (simp add: set_composites_hybrid [OF k(1-4) ps] wf_key_comp_upd comps_ok_def)
    next
      case bad: False
      then obtain e where e: "?s = Inl e \<or> (\<exists>ps. ?s = Inr ps) \<and> ?p = Inl e"
        by (cases ?s; cases ?p) auto
      with not_UB have "e \<noteq> UB" by auto
      with set_composites_fails [OF k(1-4) e] wf sm k show ?thesis
        by (auto simp: wf_key_comp_upd)
    qed
  qed
qed

end
