(* ===== verification/Registration.thy ===== *)
theory Registration
  imports Oqsx_Key
begin

text \<open>
  The NID table as the provider leaves it: the rows of \<^verbatim>\<open>nid_names\<close> with the NIDs that calls of
  \<^verbatim>\<open>oqs_set_nid\<close> stored in them. Whatever was registered, the creation of an empty key never leaves the
  tables of classical algorithms, for registered and for unknown NIDs.
\<close>

subsection \<open>The rows select within the tables of classical algorithms\<close>

lemma entry_consistent_nid_names:
  "list_all entry_consistent (nid_names kem_encoders)"
  using entries_consistent_kem entries_consistent_sig by (simp add: nid_names_def)

lemma find_name_calls_indep:
  "init_ec_curve names infos C ec t = Inl UB \<longleftrightarrow> init_ec_curve names infos C' ec' t = Inl UB"
  by (auto simp: init_ec_curve_def bindR_eq_UB Let_def split: option.splits)

lemma init_calls_indep:
  "init_kex_fun kt C ec t = Inl UB \<longleftrightarrow> init_kex_fun kt C' ec' t = Inl UB"
  using find_name_calls_indep
  by (cases kt) (auto simp: init_kex_fun_def oqshybkem_init_ecp_def oqshybkem_init_ecbp_def
      oqshybkem_init_ecx_def bindR_eq_UB Let_def split: option.splits)

lemma entry_consistent_no_UB:
  assumes "entry_consistent e"
  shows "ne_keytype e = KEY_TYPE_HYB_SIG \<Longrightarrow> oqsx_hybsig_init (secbits e) C zalloc_evp_ctx (tlsname e) \<noteq> Inl UB"
    and "is_hyb_kem (ne_keytype e) \<Longrightarrow> init_kex_fun (ne_keytype e) C zalloc_evp_ctx (tlsname e) \<noteq> Inl UB"
proof -
  assume "ne_keytype e = KEY_TYPE_HYB_SIG"
  with assms have "oqsx_hybsig_init (secbits e) all_calls_ok zalloc_evp_ctx (tlsname e) \<noteq> Inl UB"
    by (auto simp: entry_consistent_def selected_info_def)
  then show "oqsx_hybsig_init (secbits e) C zalloc_evp_ctx (tlsname e) \<noteq> Inl UB"
    by (simp add: oqsx_hybsig_init_UB)
next
  assume "is_hyb_kem (ne_keytype e)"
  with assms have "init_kex_fun (ne_keytype e) all_calls_ok zalloc_evp_ctx (tlsname e) \<noteq> Inl UB"
    by (auto simp: entry_consistent_def selected_info_def is_hyb_kem_def init_kex_fun_def)
  then show "init_kex_fun (ne_keytype e) C zalloc_evp_ctx (tlsname e) \<noteq> Inl UB"
    using init_calls_indep by blast
qed

lemma entry_consistent_nid [simp]: "entry_consistent (e\<lparr>ne_nid := n\<rparr>) = entry_consistent e"
proof -
  have "tlsname (e\<lparr>ne_nid := n\<rparr>) = tlsname e" "secbits (e\<lparr>ne_nid := n\<rparr>) = secbits e"
    "ne_keytype (e\<lparr>ne_nid := n\<rparr>) = ne_keytype e"
    by simp_all
  then show ?thesis by (simp only: entry_consistent_def selected_info_def)
qed

subsection \<open>Tables after any registrations\<close>

text \<open>\<open>table_of kem_encoders rs\<close>: the table after the registrations \<open>rs\<close> of names with their NIDs, in order.\<close>

definition table_of :: "bool \<Rightarrow> (string \<times> int) list \<Rightarrow> nid_entry list" where
  "table_of kem_encoders rs = fold (\<lambda>(name, n) tbl. snd (oqs_set_nid tbl name n)) rs (nid_names kem_encoders)"

text \<open>OpenSSL names a registered NID as the row it is stored in: \<^verbatim>\<open>OBJ_nid2sn\<close> inverts \<^verbatim>\<open>OBJ_sn2nid\<close>.\<close>

definition registered :: "nid_entry list \<Rightarrow> (int \<Rightarrow> string option) \<Rightarrow> bool" where
  "registered tbl sn \<longleftrightarrow> (\<exists>kem_encoders rs. tbl = table_of kem_encoders rs \<and>
     (\<forall>(name, n) \<in> set rs. n \<noteq> 0 \<longrightarrow> sn n = Some name))"

lemma table_of_snoc: "table_of b (rs @ [(name, n)]) = snd (oqs_set_nid (table_of b rs) name n)"
  by (simp add: table_of_def)

lemma oqs_set_nid_row:
  "e \<in> set (snd (oqs_set_nid tbl name n)) \<Longrightarrow>
     e \<in> set tbl \<or> (\<exists>e0 \<in> set tbl. e = e0\<lparr>ne_nid := n\<rparr> \<and> tlsname e0 = name)"
  by (induction tbl) (auto split: prod.splits if_splits)

lemma table_row:
  "e \<in> set (table_of b rs) \<Longrightarrow> entry_consistent e \<and> (ne_nid e \<noteq> 0 \<longrightarrow> (tlsname e, ne_nid e) \<in> set rs)"
proof (induction rs arbitrary: e rule: rev_induct)
  case Nil
  then show ?case
    using entry_consistent_nid_names [of b] nid_names_unregistered [of b] by (auto simp: table_of_def list_all_iff)
next
  case (snoc r rs)
  obtain name n where r: "r = (name, n)" by fastforce
  from snoc.prems [unfolded r table_of_snoc] have
    "e \<in> set (table_of b rs) \<or> (\<exists>e0 \<in> set (table_of b rs). e = e0\<lparr>ne_nid := n\<rparr> \<and> tlsname e0 = name)"
    by (rule oqs_set_nid_row)
  with snoc.IH show ?case by (auto simp: r)
qed

lemma registered_row:
  assumes "registered tbl sn" and "e \<in> set tbl"
  shows "entry_consistent e" and "ne_nid e \<noteq> 0 \<Longrightarrow> sn (ne_nid e) = Some (tlsname e)"
  using assms table_row by (fastforce simp: registered_def)+

lemma registered_creation:
  assumes "registered tbl sn" and "nid \<noteq> 0"
  shows "oqsx_key_new_from_nid L C ok tbl sn lc pq nid \<noteq> Inl UB"
proof (cases "List.find (\<lambda>e. ne_nid e = nid) tbl")
  case None
  then show ?thesis
    by (simp add: oqsx_key_new_from_nid_def oqsname.look_find oqsx_key_new_UB bindR_eq_UB)
next
  case (Some e)
  then have e: "e \<in> set tbl" "ne_nid e = nid" by (auto simp: find_Some_iff)
  note row = registered_row [OF assms(1) e(1)]
  have "sn nid = Some (tlsname e)" using row(2) e(2) assms(2) by simp
  then show ?thesis
    using entry_consistent_no_UB [OF row(1)]
    by (auto simp: oqsx_key_new_from_nid_def oqsname.look_find keytype.look_find secbits.look_find Some
        oqsx_key_new_UB)
qed

end
