(* ===== verification/Sample_Providers.thy ===== *)
theory Sample_Providers
  imports Oqsx_Key
begin

text \<open>
  Concrete instances of the two parameters of the model, liboqs and OpenSSL: toy algorithms with
  the documented input-output behaviour (lengths, correctness of the KEM and of the signature,
  a commutative key agreement, encodings that can be read back). They show that the hypotheses
  on the parameters can hold together; nothing else rests on them.
\<close>

definition hd0 :: "bytes \<Rightarrow> byte" where
  "hd0 b = (case b of [] \<Rightarrow> 0 | x # _ \<Rightarrow> x)"

lemma hd0_replicate [simp]: "hd0 (replicate n x) = (if n = 0 then 0 else x)"
  by (cases n) (simp_all add: hd0_def)

lemma hd0_Cons [simp]: "hd0 (x # xs) = x"
  by (simp add: hd0_def)

definition sample_qs :: qs_ctx where
  "sample_qs = \<lparr>qs_name = ''sample'', claimed_nist_level = 3, qs_length_public_key = 4,
     qs_length_secret_key = 5, qs_length_ciphertext = 3, qs_length_shared_secret = 2,
     qs_length_signature = 6\<rparr>"

definition sample_liboqs :: liboqs where
  "sample_liboqs = \<lparr>
     OQS_SIG_new = (\<lambda>_. Some sample_qs),
     OQS_KEM_new = (\<lambda>_. Some sample_qs),
     OQS_KEM_keypair = (\<lambda>c r. Some (replicate (qs_length_public_key c) (of_nat r),
        replicate (qs_length_secret_key c) (of_nat r))),
     OQS_KEM_encaps = (\<lambda>c r pk. Some (replicate (qs_length_ciphertext c) (of_nat r),
        replicate (qs_length_shared_secret c) (hd0 pk + of_nat r))),
     OQS_KEM_decaps = (\<lambda>c ct sk. Some (replicate (qs_length_shared_secret c) (hd0 sk + hd0 ct))),
     OQS_SIG_keypair = (\<lambda>c r. Some (replicate (qs_length_public_key c) (of_nat r),
        replicate (qs_length_secret_key c) (of_nat r))),
     OQS_SIG_sign_with_ctx_str = (\<lambda>c r m cs sk. Some (replicate (qs_length_signature c)
        (hd0 sk + sum_list m + sum_list cs))),
     OQS_SIG_verify_with_ctx_str = (\<lambda>c m s cs pk. s = replicate (qs_length_signature c)
        (hd0 pk + sum_list m + sum_list cs))\<rparr>"

text \<open>A classical key: its type, the lengths of its encodings and one byte of key.\<close>

type_synonym sample_pkey = "evp_type \<times> nat \<times> nat \<times> byte"

definition sample_pub :: "sample_pkey \<Rightarrow> bytes" where
  "sample_pub = (\<lambda>(t, publen, privlen, b). replicate publen b)"

definition sample_priv :: "sample_pkey \<Rightarrow> bytes" where
  "sample_priv = (\<lambda>(t, publen, privlen, b). b # of_nat publen # replicate (privlen - 2) 0)"

definition sample_parse :: "evp_type \<Rightarrow> bytes \<Rightarrow> sample_pkey option" where
  "sample_parse t b = (case b of x # n # rest \<Rightarrow> Some (t, unat n, length b, x) | _ \<Rightarrow> None)"

definition sample_byte :: "sample_pkey \<Rightarrow> byte" where
  "sample_byte = (\<lambda>(t, publen, privlen, b). b)"

definition sample_openssl :: "sample_pkey openssl" where
  "sample_openssl = \<lparr>
     EVP_PKEY_keygen = (\<lambda>i bits r. Some (ei_keytype i, length_public_key i,
        length_private_key i - (if raw_key_support i then 0 else 1), of_nat r)),
     EVP_PKEY_get1_encoded_public_key = (\<lambda>p. Some (sample_pub p)),
     EVP_PKEY_get_raw_public_key = (\<lambda>p. Some (sample_pub p)),
     EVP_PKEY_get_raw_private_key = (\<lambda>p. Some (sample_priv p)),
     i2d_PublicKey = (\<lambda>p. Some (sample_pub p)),
     i2d_PrivateKey = (\<lambda>p. Some (sample_priv p)),
     d2i_PublicKey = (\<lambda>t params b. Some (t, length b, 0, hd0 b)),
     d2i_PrivateKey = sample_parse,
     d2i_AutoPrivateKey = sample_parse EVP_PKEY_EC,
     EVP_PKEY_new_raw_public_key = (\<lambda>t b. Some (t, length b, 0, hd0 b)),
     EVP_PKEY_new_raw_private_key = sample_parse,
     EVP_PKEY_set1_encoded_public_key = (\<lambda>i b. Some (ei_keytype i, length b, 0, hd0 b)),
     EVP_PKEY_derive = (\<lambda>p q. Some (replicate 32 (sample_byte p * sample_byte q))),
     EVP_PKEY_sign = (\<lambda>p r md tbs. Some (replicate 70 (sample_byte p + sum_list tbs))),
     EVP_PKEY_verify = (\<lambda>p md s tbs. s = replicate 70 (sample_byte p + sum_list tbs)),
     EVP_digest = (\<lambda>md m. replicate 32 (sum_list m)),
     i2d_ASN1_OCTET_STRING = (\<lambda>b. Some (4 # b)),
     d2i_ASN1_OCTET_STRING = (\<lambda>d. case d of x # b \<Rightarrow> if x = 4 then Some b else None | [] \<Rightarrow> None)\<rparr>"

lemma sample_pub_hd0 [simp]: "0 < n \<Longrightarrow> hd0 (sample_pub (t, n, m, b)) = b"
  by (simp add: sample_pub_def)

lemma sample_parse_priv:
  "2 \<le> m \<Longrightarrow> n < 256 \<Longrightarrow> sample_parse t (sample_priv (t', n, m, b)) = Some (t, n, m, b)"
  by (simp add: sample_parse_def sample_priv_def unsigned_of_nat take_bit_nat_eq_self)

text \<open>Keys as \<^verbatim>\<open>oqsx_key_new\<close> returns them: a KEM key, hybrid KEM keys and a hybrid signature key.\<close>

definition sample_key :: "oqsx_key_type \<Rightarrow> string \<Rightarrow> bool \<Rightarrow> evp_info \<Rightarrow> sample_pkey oqsx_key" where
  "sample_key kt name rv i = \<lparr>libctx = 0, propq = None, keytype = kt, qs = sample_qs,
     oqsx_evp_ctx = Some \<lparr>ctx = True, keyParam = True, ec_info = Some i\<rparr>, classical_pkey = None,
     evp_info = Some i, numkeys = 2, reverse_share = rv,
     privkeylen = 9 + length_private_key i, pubkeylen = 8 + length_public_key i,
     bit_security = 128, tls_name = name, references = 1,
     comp_privkey = [Uninit, Uninit], comp_pubkey = [Uninit, Uninit],
     privkey = None, pubkey = None\<rparr>"

definition sample_plain_key :: "oqsx_key_type \<Rightarrow> string \<Rightarrow> sample_pkey oqsx_key" where
  "sample_plain_key kt name = \<lparr>libctx = 0, propq = None, keytype = kt, qs = sample_qs,
     oqsx_evp_ctx = None, classical_pkey = None, evp_info = None, numkeys = 1,
     reverse_share = False, privkeylen = 5, pubkeylen = 4,
     bit_security = 128, tls_name = name, references = 1,
     comp_privkey = [Uninit], comp_pubkey = [Uninit], privkey = None, pubkey = None\<rparr>"

definition info_x25519 :: evp_info where
  "info_x25519 = nids_ecx ! 0"

definition info_p256 :: evp_info where
  "info_p256 = nids_ecp ! 0"

definition info_p256_sig :: evp_info where
  "info_p256_sig = nids_sig ! 0"

definition x25519_mlkem :: "sample_pkey oqsx_key" where
  "x25519_mlkem = sample_key KEY_TYPE_ECX_HYB_KEM ''X25519MLKEM768'' True info_x25519"

definition p256_mlkem :: "sample_pkey oqsx_key" where
  "p256_mlkem = sample_key KEY_TYPE_ECP_HYB_KEM ''p256_mlkem512'' False info_p256"

definition p256_mldsa :: "sample_pkey oqsx_key" where
  "p256_mldsa = sample_key KEY_TYPE_HYB_SIG ''p256_mldsa44'' False info_p256_sig"

lemma info_simps [simp]:
  "info_x25519 = mk_info EVP_PKEY_X25519 NID_zero True 32 32 32 0"
  "info_p256 = mk_info EVP_PKEY_EC NID_X9_62_prime256v1 False 65 121 32 0"
  "info_p256_sig = mk_info EVP_PKEY_EC NID_X9_62_prime256v1 False 65 121 32 72"
  by (simp_all add: info_x25519_def info_p256_def info_p256_sig_def nids_ecx_def nids_ecp_def
      nids_sig_def)

lemma mk_info_fields [simp]:
  "ei_keytype (mk_info t n raw pub priv kex sig) = t" "ei_nid (mk_info t n raw pub priv kex sig) = n"
  "raw_key_support (mk_info t n raw pub priv kex sig) = raw"
  "length_public_key (mk_info t n raw pub priv kex sig) = pub"
  "length_private_key (mk_info t n raw pub priv kex sig) = priv"
  "kex_length_secret (mk_info t n raw pub priv kex sig) = kex"
  "length_signature (mk_info t n raw pub priv kex sig) = sig"
  by (simp_all add: mk_info_def)

lemma sample_keys_wf:
  "wf_key x25519_mlkem" "wf_key p256_mlkem" "wf_key p256_mldsa"
  by (simp_all add: x25519_mlkem_def p256_mlkem_def p256_mldsa_def sample_key_def sample_qs_def
      wf_key_def wf_shape_def wf_buffers_def is_hybrid_def is_hyb_kem_def classic_info_ok_def
      ok_sizes_def)

end
