(* ===== verification/Key_Gen.thy ===== *)
theory Key_Gen
  imports Sample_Providers
begin

text \<open>
  Key generation (\<^verbatim>\<open>oqsprov_keys.c\<close>): the post-quantum key pair, the classical key pair of hybrid
  signatures and of hybrid KEMs with its length headers, and \<^verbatim>\<open>oqsx_key_gen\<close>, which allocates
  the buffers and fills them. Writes go through the component pointers.
\<close>

subsection \<open>Access through the component pointers\<close>

definition read_comp :: "cptr list \<Rightarrow> nat \<Rightarrow> bytes option \<Rightarrow> nat \<Rightarrow> bytes res" where
  "read_comp ps i buf n =
     bindR (comp_at ps i) (\<lambda>off. bindR (of_option UB buf) (\<lambda>b. rd b off n))"

definition write_pub :: "nat \<Rightarrow> bytes \<Rightarrow> ('p oqsx_key, unit) st" where
  "write_pub off d =
     bindS (readS (\<lambda>k. bindR (of_option UB (pubkey k)) (\<lambda>b. wr b off d)))
           (\<lambda>b. modS (\<lambda>k. k\<lparr>pubkey := Some b\<rparr>))"

definition write_priv :: "nat \<Rightarrow> bytes \<Rightarrow> ('p oqsx_key, unit) st" where
  "write_priv off d =
     bindS (readS (\<lambda>k. bindR (of_option UB (privkey k)) (\<lambda>b. wr b off d)))
           (\<lambda>b. modS (\<lambda>k. k\<lparr>privkey := Some b\<rparr>))"

subsection \<open>The post-quantum key pair\<close>

text \<open>
  \<^verbatim>\<open>oqsx_key_gen_oqs\<close>: \<^verbatim>\<open>OQS_SUCCESS\<close> is 0 and \<^verbatim>\<open>OQS_ERROR\<close> is -1. liboqs writes the public key
  through the public component pointer and the secret key through the private one.
\<close>

definition oqsx_key_gen_oqs :: "liboqs \<Rightarrow> nat \<Rightarrow> bool \<Rightarrow> ('p oqsx_key, int) st" where
  "oqsx_key_gen_oqs L seed gen_kem =
     bindS (getS (\<lambda>k. (if gen_kem then OQS_KEM_keypair L else OQS_SIG_keypair L) (qs k) seed)) (\<lambda>kp.
     bindS (readS (\<lambda>k. comp_at (comp_pubkey k) (idx_pq k))) (\<lambda>po.
     bindS (readS (\<lambda>k. comp_at (comp_privkey k) (idx_pq k))) (\<lambda>so.
     case kp of
       None \<Rightarrow> retS (-1)
     | Some (pk, sk) \<Rightarrow> thenS (write_pub po pk) (thenS (write_priv so sk) (retS 0)))))"

subsection \<open>The classical key pair\<close>

text \<open>
  The part \<^verbatim>\<open>oqsx_key_gen_evp_key_sig\<close> and \<^verbatim>\<open>oqsx_key_gen_evp_key_kem\<close> share: the encodings of the
  new key are stored at an offset of the public and one of the private buffer. The raw readers
  are bounded by the length the caller passes; \<^verbatim>\<open>i2d_PublicKey\<close> and \<^verbatim>\<open>i2d_PrivateKey\<close> are not, so
  they write first and the length is compared afterwards.
\<close>

definition is_ed :: "evp_info \<Rightarrow> bool" where
  "is_ed i \<longleftrightarrow> ei_nid i = NID_ED25519 \<or> ei_nid i = NID_ED448"

definition store_raw_keys ::
    "'p openssl \<Rightarrow> evp_info \<Rightarrow> 'p \<Rightarrow> nat \<Rightarrow> nat \<Rightarrow> ('p oqsx_key, nat \<times> nat) st" where
  "store_raw_keys E i p po so =
     bindS (if \<not> is_ed i
        then bindS (liftS (of_option Quiet (EVP_PKEY_get1_encoded_public_key E p))) (\<lambda>b.
             thenS (ensureS (length b = length_public_key i) Quiet)
             (thenS (write_pub po b) (retS (length b))))
        else bindS (liftS (of_option Quiet (EVP_PKEY_get_raw_public_key E p))) (\<lambda>b.
             thenS (ensureS (length b \<le> length_public_key i) Quiet)
             (thenS (write_pub po b)
             (thenS (ensureS (length b = length_public_key i) Quiet) (retS (length b)))))) (\<lambda>publen.
     bindS (liftS (of_option Quiet (EVP_PKEY_get_raw_private_key E p))) (\<lambda>s.
     thenS (ensureS (length s \<le> length_private_key i) Quiet)
     (thenS (write_priv so s)
     (thenS (ensureS (length s = length_private_key i) Quiet)
     (retS (publen, length s))))))"

definition store_der_keys ::
    "'p openssl \<Rightarrow> evp_info \<Rightarrow> 'p \<Rightarrow> nat \<Rightarrow> nat \<Rightarrow> ('p oqsx_key, nat \<times> nat) st" where
  "store_der_keys E i p po so =
     bindS (liftS (of_option Quiet (i2d_PublicKey E p))) (\<lambda>b.
     thenS (write_pub po b)
     (thenS (ensureS (length b \<le> length_public_key i) Quiet)
     (bindS (liftS (of_option Quiet (i2d_PrivateKey E p))) (\<lambda>s.
     thenS (write_priv so s)
     (thenS (ensureS (length s \<le> length_private_key i) Quiet)
     (thenS (ensureS (d2i_PrivateKey E (ei_keytype i) s \<noteq> None) Quiet)
     (retS (length b, length s))))))))"

definition store_evp_keys ::
    "'p openssl \<Rightarrow> evp_info \<Rightarrow> 'p \<Rightarrow> nat \<Rightarrow> nat \<Rightarrow> ('p oqsx_key, nat \<times> nat) st" where
  "store_evp_keys E i p po so =
     (if raw_key_support i then store_raw_keys E i p po so else store_der_keys E i p po so)"

text \<open>The headers at the start of both buffers.\<close>

definition write_headers :: "nat \<times> nat \<Rightarrow> ('p oqsx_key, unit) st" where
  "write_headers = (\<lambda>(publen, privlen).
     thenS (write_pub 0 (enc32 publen)) (write_priv 0 (enc32 privlen)))"

definition key_evp_info :: "'p oqsx_key \<Rightarrow> evp_info res" where
  "key_evp_info k = of_option UB (Option.bind (oqsx_evp_ctx k) ec_info)"

definition rsa_keygen_bits :: "evp_info \<Rightarrow> nat" where
  "rsa_keygen_bits i =
     (if ei_keytype i = EVP_PKEY_RSA then if length_public_key i > 270 then 3072 else 2048 else 0)"

text \<open>
  \<^verbatim>\<open>oqsx_key_gen_evp_key_sig\<close>, called with \<^verbatim>\<open>encode = 1\<close> and the two buffers themselves.
  \<open>EVP_PKEY_keygen\<close> stands for the calls from the creation of the key generation context on:
  it has no result when one of them fails.
\<close>

definition oqsx_key_gen_evp_key_sig :: "'p openssl \<Rightarrow> nat \<Rightarrow> ('p oqsx_key, 'p) st" where
  "oqsx_key_gen_evp_key_sig E seed =
     bindS (readS key_evp_info) (\<lambda>i.
     bindS (liftS (of_option Quiet (EVP_PKEY_keygen E i (rsa_keygen_bits i) seed))) (\<lambda>p.
     bindS (store_evp_keys E i p SIZE_OF_UINT32 SIZE_OF_UINT32) (\<lambda>lens.
     thenS (write_headers lens) (retS p))))"

text \<open>\<^verbatim>\<open>oqsx_key_gen_evp_key_kem\<close>, called with \<^verbatim>\<open>encode = 1\<close> and the classical component pointers.\<close>

definition oqsx_key_gen_evp_key_kem :: "'p openssl \<Rightarrow> nat \<Rightarrow> nat \<Rightarrow> nat \<Rightarrow> ('p oqsx_key, 'p) st" where
  "oqsx_key_gen_evp_key_kem E seed po so =
     bindS (readS key_evp_info) (\<lambda>i.
     bindS (liftS (of_option Quiet (EVP_PKEY_keygen E i 0 seed))) (\<lambda>p.
     bindS (store_evp_keys E i p po so) (\<lambda>lens.
     thenS (write_headers lens) (retS p))))"

subsection \<open>\<^verbatim>\<open>oqsx_key_gen\<close>\<close>

text \<open>The label \<^verbatim>\<open>err_gen\<close>: every path ends here with the value of \<^verbatim>\<open>ret\<close>; 0 is success.\<close>

definition err_gen :: "int \<Rightarrow> ('p oqsx_key, int) st" where
  "err_gen ret =
     thenS (if ret \<noteq> 0 then modS (\<lambda>k. k\<lparr>classical_pkey := None\<rparr>) else retS ()) (retS ret)"

definition set_composites_ret :: "bool \<Rightarrow> ('p oqsx_key, int) st" where
  "set_composites_ret fixed =
     bindS (tryS (oqsx_key_set_composites fixed)) (\<lambda>r. retS (if r = None then 1 else 0))"

definition alloc_both :: "allocs \<Rightarrow> ('p oqsx_key, int) st" where
  "alloc_both ok = (\<lambda>k.
     case oqsx_key_allocate_keymaterial ok False k of (r0, k0) \<Rightarrow>
       if r0 \<noteq> 0 then (Inr 1, k0)
       else case oqsx_key_allocate_keymaterial ok True k0 of (r1, k1) \<Rightarrow>
         (Inr (if r1 \<noteq> 0 then 1 else 0), k1))"

definition gen_plain :: "liboqs \<Rightarrow> nat \<Rightarrow> bool \<Rightarrow> ('p oqsx_key, int) st" where
  "gen_plain L rq gen_kem =
     bindS (set_composites_ret False) (\<lambda>ret.
     if ret \<noteq> 0 then err_gen ret
     else bindS (oqsx_key_gen_oqs L rq gen_kem) err_gen)"

definition gen_hyb_sig :: "liboqs \<Rightarrow> 'p openssl \<Rightarrow> nat \<Rightarrow> nat \<Rightarrow> int \<Rightarrow> ('p oqsx_key, int) st" where
  "gen_hyb_sig L E rc rq ret0 =
     bindS (tryS (oqsx_key_gen_evp_key_sig E rc)) (\<lambda>pkey. case pkey of
       None \<Rightarrow> err_gen ret0
     | Some p \<Rightarrow>
         bindS (set_composites_ret False) (\<lambda>ret.
         if ret \<noteq> 0 then err_gen ret
         else thenS (modS (\<lambda>k. k\<lparr>classical_pkey := Some p\<rparr>))
              (bindS (oqsx_key_gen_oqs L rq False) err_gen)))"

definition gen_hyb_kem :: "liboqs \<Rightarrow> 'p openssl \<Rightarrow> nat \<Rightarrow> nat \<Rightarrow> ('p oqsx_key, int) st" where
  "gen_hyb_kem L E rc rq =
     bindS (set_composites_ret True) (\<lambda>ret.
     if ret \<noteq> 0 then err_gen ret
     else
       bindS (readS (\<lambda>k. comp_at (comp_pubkey k) (idx_classic k))) (\<lambda>po.
       bindS (readS (\<lambda>k. comp_at (comp_privkey k) (idx_classic k))) (\<lambda>so.
       bindS (tryS (oqsx_key_gen_evp_key_kem E rc po so)) (\<lambda>pkey. case pkey of
         None \<Rightarrow> err_gen ret
       | Some p \<Rightarrow> thenS (modS (\<lambda>k. k\<lparr>classical_pkey := Some p\<rparr>))
                   (bindS (oqsx_key_gen_oqs L rq True) err_gen)))))"

definition gen_body ::
    "liboqs \<Rightarrow> 'p openssl \<Rightarrow> nat \<Rightarrow> nat \<Rightarrow> int \<Rightarrow> oqsx_key_type \<Rightarrow> ('p oqsx_key, int) st" where
  "gen_body L E rc rq ret kt = (case kt of
       KEY_TYPE_KEM \<Rightarrow> gen_plain L rq True
     | KEY_TYPE_SIG \<Rightarrow> gen_plain L rq False
     | KEY_TYPE_HYB_SIG \<Rightarrow> gen_hyb_sig L E rc rq ret
     | _ \<Rightarrow> gen_hyb_kem L E rc rq)"

definition oqsx_key_gen ::
    "liboqs \<Rightarrow> 'p openssl \<Rightarrow> allocs \<Rightarrow> nat \<Rightarrow> nat \<Rightarrow> ('p oqsx_key, int) st" where
  "oqsx_key_gen L E ok rc rq =
     bindS (getS (\<lambda>k. k)) (\<lambda>k0.
     bindS (if privkey k0 = None \<or> pubkey k0 = None then alloc_both ok else retS 0) (\<lambda>ret.
     if ret \<noteq> 0 then err_gen ret
     else gen_body L E rc rq ret (keytype k0)))"

subsection \<open>What is assumed of liboqs and OpenSSL\<close>

text \<open>A key pair generator fills the lengths its algorithm declares.\<close>

definition keypair_lengths :: "(qs_ctx \<Rightarrow> nat \<Rightarrow> (bytes \<times> bytes) option) \<Rightarrow> bool" where
  "keypair_lengths gen \<longleftrightarrow> (\<forall>c seed pk sk. gen c seed = Some (pk, sk) \<longrightarrow>
     length pk = qs_length_public_key c \<and> length sk = qs_length_secret_key c)"

text \<open>The encodings of a classical key which the code stores.\<close>

definition classic_pub_enc :: "'p openssl \<Rightarrow> evp_info \<Rightarrow> 'p \<Rightarrow> bytes option" where
  "classic_pub_enc E i p =
     (if raw_key_support i
      then if is_ed i then EVP_PKEY_get_raw_public_key E p
           else EVP_PKEY_get1_encoded_public_key E p
      else i2d_PublicKey E p)"

definition classic_priv_enc :: "'p openssl \<Rightarrow> evp_info \<Rightarrow> 'p \<Rightarrow> bytes option" where
  "classic_priv_enc E i p =
     (if raw_key_support i then EVP_PKEY_get_raw_private_key E p else i2d_PrivateKey E p)"

text \<open>
  The sizes the tables state of the encodings: exact for raw keys, upper bounds for DER.
\<close>

definition len_matches :: "evp_info \<Rightarrow> nat \<Rightarrow> nat \<Rightarrow> bool" where
  "len_matches i n m \<longleftrightarrow> (if raw_key_support i then n = m else n \<le> m)"

definition encodings_fit :: "'p openssl \<Rightarrow> evp_info \<Rightarrow> 'p \<Rightarrow> bool" where
  "encodings_fit E i p \<longleftrightarrow>
     (\<forall>b. classic_pub_enc E i p = Some b \<longrightarrow> length b \<le> length_public_key i) \<and>
     (\<forall>s. classic_priv_enc E i p = Some s \<longrightarrow> length s \<le> length_private_key i)"

definition encodes :: "'p openssl \<Rightarrow> evp_info \<Rightarrow> 'p \<Rightarrow> bytes \<Rightarrow> bytes \<Rightarrow> bool" where
  "encodes E i p b s \<longleftrightarrow>
     classic_pub_enc E i p = Some b \<and> classic_priv_enc E i p = Some s \<and>
     len_matches i (length b) (length_public_key i) \<and>
     len_matches i (length s) (length_private_key i) \<and>
     (\<not> raw_key_support i \<longrightarrow> d2i_PrivateKey E (ei_keytype i) s \<noteq> None)"

subsection \<open>Generation stays inside the buffers\<close>

text \<open>\<open>bufs k np ns\<close>: the key \<open>k\<close>, up to the contents of its two buffers of \<open>np\<close> and \<open>ns\<close> bytes.\<close>

definition bufs :: "'p oqsx_key \<Rightarrow> nat \<Rightarrow> nat \<Rightarrow> 'p oqsx_key \<Rightarrow> bool" where
  "bufs k np ns k' \<longleftrightarrow>
     k'\<lparr>pubkey := None, privkey := None\<rparr> = k\<lparr>pubkey := None, privkey := None\<rparr> \<and>
     map_option length (pubkey k') = Some np \<and> map_option length (privkey k') = Some ns"

lemma bufs_eq: "bufs k np ns k' \<Longrightarrow> k' = k\<lparr>pubkey := pubkey k', privkey := privkey k'\<rparr>"
  by (cases k; cases k') (simp add: bufs_def)

lemma bufs_fields:
  "bufs k np ns k' \<Longrightarrow> comp_pubkey k' = comp_pubkey k \<and> comp_privkey k' = comp_privkey k \<and>
     keytype k' = keytype k \<and> qs k' = qs k \<and> numkeys k' = numkeys k \<and> evp_info k' = evp_info k \<and>
     oqsx_evp_ctx k' = oqsx_evp_ctx k \<and> reverse_share k' = reverse_share k"
  by (cases k; cases k') (simp add: bufs_def)

lemma bufs_write_pub:
  "pubkey k = Some b \<Longrightarrow> off + length d \<le> length b \<Longrightarrow>
     write_pub off d k = (Inr (), k\<lparr>pubkey := Some (patch b off d)\<rparr>)"
  by (simp add: write_pub_def bindS_def st_simps buf_simps)

lemma bufs_write_priv:
  "privkey k = Some b \<Longrightarrow> off + length d \<le> length b \<Longrightarrow>
     write_priv off d k = (Inr (), k\<lparr>privkey := Some (patch b off d)\<rparr>)"
  by (simp add: write_priv_def bindS_def st_simps buf_simps)

lemma safe_write_pub:
  "off + length d \<le> np \<Longrightarrow> safe (bufs k np ns) n Q E
    \<Longrightarrow> safe (bufs k np ns) (thenS (write_pub off d) n) Q E"
  by (rule safe_then [of _ _ "bufs k np ns"]) (auto simp: safe_def bufs_def bufs_write_pub split: prod.splits)

lemma safe_write_priv:
  "off + length d \<le> ns \<Longrightarrow> safe (bufs k np ns) n Q E
    \<Longrightarrow> safe (bufs k np ns) (thenS (write_priv off d) n) Q E"
  by (rule safe_then [of _ _ "bufs k np ns"]) (auto simp: safe_def bufs_def bufs_write_priv split: prod.splits)

lemma safe_store_evp_keys:
  assumes "po + length_public_key i \<le> np" and "so + length_private_key i \<le> ns"
    and "encodings_fit E i p"
  shows "safe (bufs k np ns) (store_evp_keys E i p po so)
    (\<lambda>(n, m) k'. bufs k np ns k' \<and> n \<le> length_public_key i \<and> m \<le> length_private_key i) (bufs k np ns)"
proof -
  let ?P = "bufs k np ns"
  let ?Q = "\<lambda>(n, m) k'. ?P k' \<and> n \<le> length_public_key i \<and> m \<le> length_private_key i"
  have fits: "po + n \<le> np" "so + m \<le> ns" if "n \<le> length_public_key i" "m \<le> length_private_key i" for n m
    using assms that by simp_all
  show ?thesis
  proof (cases "raw_key_support i")
    case True
    then show ?thesis
      unfolding store_evp_keys_def store_raw_keys_def
      by (auto intro!: safe_bind [where R = "\<lambda>n k'. ?P k' \<and> n \<le> length_public_key i"] safe_pure
         safe_option_bind safe_ensure_then safe_write_pub safe_write_priv safe_retI fits)
  next
    case False
    with assms(3) show ?thesis
      unfolding store_evp_keys_def store_der_keys_def encodings_fit_def classic_pub_enc_def
        classic_priv_enc_def
      by (auto intro!: safe_option_bind safe_ensure_then safe_write_pub safe_write_priv safe_retI fits)
  qed
qed

subsection \<open>What generation stores\<close>

lemma store_evp_keys_encodes:
  assumes "encodes E i p b s" and "pubkey k = Some pb" and "privkey k = Some sb"
    and "po + length b \<le> length pb" and "so + length s \<le> length sb"
  shows "store_evp_keys E i p po so k =
    (Inr (length b, length s), k\<lparr>pubkey := Some (patch pb po b), privkey := Some (patch sb so s)\<rparr>)"
  using assms
  by (auto simp: encodes_def classic_pub_enc_def classic_priv_enc_def len_matches_def
      store_evp_keys_def store_raw_keys_def store_der_keys_def thenS_def bindS_def st_simps
      bufs_write_pub bufs_write_priv split: if_splits)

lemma write_headers_eq:
  assumes "pubkey k = Some pb" and "privkey k = Some sb" and "4 \<le> length pb" and "4 \<le> length sb"
  shows "write_headers (n, m) k =
    (Inr (), k\<lparr>pubkey := Some (patch pb 0 (enc32 n)), privkey := Some (patch sb 0 (enc32 m))\<rparr>)"
  using assms by (simp add: write_headers_def thenS_Inr bufs_write_pub bufs_write_priv)

lemma gen_evp_key_sig_eq:
  assumes "key_evp_info k = Inr i" and "EVP_PKEY_keygen E i (rsa_keygen_bits i) seed = Some p"
    and "encodes E i p b s" and "pubkey k = Some pb" and "privkey k = Some sb"
    and "4 + length b \<le> length pb" and "4 + length s \<le> length sb"
  shows "oqsx_key_gen_evp_key_sig E seed k =
    (Inr p, k\<lparr>pubkey := Some (patch (patch pb 4 b) 0 (enc32 (length b))),
              privkey := Some (patch (patch sb 4 s) 0 (enc32 (length s)))\<rparr>)"
  using assms
  by (simp add: oqsx_key_gen_evp_key_sig_def bindS_def st_simps store_evp_keys_encodes
      thenS_Inr write_headers_eq)

lemma gen_evp_key_kem_eq:
  assumes "key_evp_info k = Inr i" and "EVP_PKEY_keygen E i 0 seed = Some p"
    and "encodes E i p b s" and "pubkey k = Some pb" and "privkey k = Some sb"
    and "4 \<le> po" and "4 \<le> so" and "po + length b \<le> length pb" and "so + length s \<le> length sb"
  shows "oqsx_key_gen_evp_key_kem E seed po so k =
    (Inr p, k\<lparr>pubkey := Some (patch (patch pb po b) 0 (enc32 (length b))),
              privkey := Some (patch (patch sb so s) 0 (enc32 (length s)))\<rparr>)"
  using assms
  by (simp add: oqsx_key_gen_evp_key_kem_def bindS_def st_simps store_evp_keys_encodes
      thenS_Inr write_headers_eq)

lemma gen_oqs_eq:
  assumes "(if gen_kem then OQS_KEM_keypair L else OQS_SIG_keypair L) (qs k) seed = Some (pk, sk)"
    and "comp_at (comp_pubkey k) (idx_pq k) = Inr po" and "comp_at (comp_privkey k) (idx_pq k) = Inr so"
    and "pubkey k = Some pb" and "privkey k = Some sb"
    and "po + length pk \<le> length pb" and "so + length sk \<le> length sb"
  shows "oqsx_key_gen_oqs L seed gen_kem k =
    (Inr 0, k\<lparr>pubkey := Some (patch pb po pk), privkey := Some (patch sb so sk)\<rparr>)"
  using assms
  by (simp add: oqsx_key_gen_oqs_def bindS_def st_simps thenS_Inr bufs_write_pub bufs_write_priv)

text \<open>
  What a key holds: the bytes its component pointers designate, and for a hybrid key the
  classical key object and the headers.
\<close>

definition holds_pq :: "'p oqsx_key \<Rightarrow> bytes \<Rightarrow> bytes \<Rightarrow> bool" where
  "holds_pq k pk sk \<longleftrightarrow>
     read_comp (comp_pubkey k) (idx_pq k) (pubkey k) (qs_length_public_key (qs k)) = Inr pk \<and>
     read_comp (comp_privkey k) (idx_pq k) (privkey k) (qs_length_secret_key (qs k)) = Inr sk"

definition header :: "bytes option \<Rightarrow> nat option" where
  "header buf = map_option (\<lambda>b. dec32 (slice b 0 4)) buf"

definition holds_classic :: "'p oqsx_key \<Rightarrow> 'p \<Rightarrow> bytes \<Rightarrow> bytes \<Rightarrow> bool" where
  "holds_classic k p b s \<longleftrightarrow>
     classical_pkey k = Some p \<and>
     header (pubkey k) = Some (length b) \<and> header (privkey k) = Some (length s) \<and>
     read_comp (comp_pubkey k) (idx_classic k) (pubkey k) (length b) = Inr b \<and>
     read_comp (comp_privkey k) (idx_classic k) (privkey k) (length s) = Inr s"

text \<open>A buffer with a header, a classical and a post-quantum part, written in that order.\<close>

definition filled :: "bytes \<Rightarrow> nat \<Rightarrow> bytes \<Rightarrow> nat \<Rightarrow> bytes \<Rightarrow> bytes" where
  "filled buf co c qo q = patch (patch (patch buf co c) 0 (enc32 (length c))) qo q"

lemma length_filled [simp]:
  "co + length c \<le> length buf \<Longrightarrow> qo + length q \<le> length buf \<Longrightarrow> 4 \<le> length buf
    \<Longrightarrow> length (filled buf co c qo q) = length buf"
  by (simp add: filled_def)

lemma filled_parts:
  assumes "co + length c \<le> length buf" and "qo + length q \<le> length buf"
    and "4 \<le> co" and "4 \<le> qo" and "co + length c \<le> qo \<or> qo + length q \<le> co"
    and "length c < 2 ^ 32"
  shows "slice (filled buf co c qo q) co (length c) = c"
    and "n = length q \<Longrightarrow> slice (filled buf co c qo q) qo n = q"
    and "dec32 (slice (filled buf co c qo q) 0 4) = length c"
  using assms
  by (auto simp: filled_def slice_patch_same slice_patch_before slice_patch_after dec32_enc32)

lemma wf_buffer_lengths:
  assumes "wf_key k" and "privkey k = Some sb" and "pubkey k = Some pb"
  shows "privkeylen k \<le> length sb" and "length pb = pubkeylen k"
  using assms by (simp_all add: wf_key_def wf_buffers_def)

lemma encodes_le:
  "encodes E i p b s \<Longrightarrow> length b \<le> length_public_key i \<and> length s \<le> length_private_key i"
  by (auto simp: encodes_def len_matches_def split: if_splits)

lemma key_evp_info_hybrid:
  "wf_key k \<Longrightarrow> is_hybrid (keytype k) \<Longrightarrow> key_evp_info k = Inr (the (evp_info k)) \<and> evp_info k \<noteq> None"
  by (auto simp: wf_key_def wf_shape_def classic_info_ok_def key_evp_info_def)

lemma set_composites_fixed:
  assumes "wf_key k" and "is_hybrid (keytype k)" and "evp_info k = Some i"
    and "privkey k = Some sb" and "pubkey k = Some pb"
  shows "oqsx_key_set_composites True k = (Inr (),
    k\<lparr>comp_privkey := comp_ptrs (comp_reverse k) (qs_length_secret_key (qs k)) (length_private_key i),
      comp_pubkey := comp_ptrs (comp_reverse k) (qs_length_public_key (qs k)) (length_public_key i)\<rparr>)"
  using assms
  by (intro set_composites_hybrid [where i = i])
    (auto simp: wf_key_def wf_shape_def hyb_ptrs_def classic_len_def)

lemma set_composites_header:
  assumes "wf_key k" and "is_hybrid (keytype k)" and "evp_info k = Some i"
    and "privkey k = Some sb" and "pubkey k = Some pb"
    and "dec32 (slice sb 0 4) = m" and "m \<le> length_private_key i"
    and "dec32 (slice pb 0 4) = n" and "n \<le> length_public_key i"
  shows "oqsx_key_set_composites False k = (Inr (),
    k\<lparr>comp_privkey := comp_ptrs (comp_reverse k) (qs_length_secret_key (qs k)) m,
      comp_pubkey := comp_ptrs (comp_reverse k) (qs_length_public_key (qs k)) n\<rparr>)"
proof -
  have "4 \<le> length sb" "4 \<le> length pb"
    using assms(1,2,4,5) by (auto simp: wf_key_def wf_shape_def wf_buffers_def classic_info_ok_def)
  with assms show ?thesis
    by (intro set_composites_hybrid [where i = i])
      (auto simp: wf_key_def wf_shape_def hyb_ptrs_def classic_len_def rd_ok)
qed

lemma header_lt: "ok_sizes i \<Longrightarrow> n \<le> length_public_key i \<or> n \<le> length_private_key i \<Longrightarrow> n < 2 ^ 32"
  by (auto simp: ok_sizes_def)

lemma idx_upd [simp]:
  "idx_classic (k\<lparr>comp_privkey := ps\<rparr>) = idx_classic k" "idx_pq (k\<lparr>comp_privkey := ps\<rparr>) = idx_pq k"
  "idx_classic (k\<lparr>comp_pubkey := ps\<rparr>) = idx_classic k" "idx_pq (k\<lparr>comp_pubkey := ps\<rparr>) = idx_pq k"
  "idx_classic (k\<lparr>privkey := b\<rparr>) = idx_classic k" "idx_pq (k\<lparr>privkey := b\<rparr>) = idx_pq k"
  "idx_classic (k\<lparr>pubkey := b\<rparr>) = idx_classic k" "idx_pq (k\<lparr>pubkey := b\<rparr>) = idx_pq k"
  "idx_classic (k\<lparr>classical_pkey := p\<rparr>) = idx_classic k" "idx_pq (k\<lparr>classical_pkey := p\<rparr>) = idx_pq k"
  by (simp_all add: idx_classic_def idx_pq_def oqsx_comp_set_idx_def)

text \<open>The key after a hybrid generation, with the offsets of the layout given by \<open>ln\<close> and \<open>lm\<close>.\<close>

definition hybrid_result ::
    "'p oqsx_key \<Rightarrow> nat \<Rightarrow> nat \<Rightarrow> 'p \<Rightarrow> bytes \<Rightarrow> bytes \<Rightarrow> bytes \<Rightarrow> bytes \<Rightarrow> bytes \<Rightarrow> bytes \<Rightarrow> 'p oqsx_key" where
  "hybrid_result k n m p pb sb b s pk sk =
     (let rv = comp_reverse k; ql = qs_length_public_key (qs k); sl = qs_length_secret_key (qs k)
      in k\<lparr>comp_privkey := comp_ptrs rv sl m, comp_pubkey := comp_ptrs rv ql n,
           classical_pkey := Some p,
           pubkey := Some (filled pb (if rv then 4 + ql else 4) b (if rv then 4 else 4 + n) pk),
           privkey := Some (filled sb (if rv then 4 + sl else 4) s (if rv then 4 else 4 + m) sk)\<rparr>)"

lemma hybrid_result_holds:
  assumes wf: "wf_key k" "is_hybrid (keytype k)" "evp_info k = Some i"
    and bf: "privkey k = Some sb" "pubkey k = Some pb"
    and len: "length pk = qs_length_public_key (qs k)" "length sk = qs_length_secret_key (qs k)"
    and nm: "length b \<le> n" "n \<le> length_public_key i" "length s \<le> m" "m \<le> length_private_key i"
  shows "holds_pq (hybrid_result k n m p pb sb b s pk sk) pk sk
    \<and> holds_classic (hybrid_result k n m p pb sb b s pk sk) p b s
    \<and> wf_key (hybrid_result k n m p pb sb b s pk sk)
    \<and> comps_ok (hybrid_result k n m p pb sb b s pk sk)"
proof -
  obtain c where k: "numkeys k = 2" "oqsx_evp_ctx k = Some c" "ec_info c = Some i" "ok_sizes i"
      "privkeylen k = 4 + qs_length_secret_key (qs k) + length_private_key i"
      "pubkeylen k = 4 + qs_length_public_key (qs k) + length_public_key i"
    using wf by (auto simp: wf_key_def elim!: wf_hybridE)
  have L: "4 + qs_length_secret_key (qs k) + length_private_key i \<le> length sb"
    "4 + qs_length_public_key (qs k) + length_public_key i = length pb"
    using wf_buffer_lengths [OF wf(1) bf] k by simp_all
  have lt: "length b < 2 ^ 32" "length s < 2 ^ 32"
    using header_lt [OF k(4)] nm by force+
  let ?r = "hybrid_result k n m p pb sb b s pk sk"
  have idx: "idx_pq ?r = idx_pq k" "idx_classic ?r = idx_classic k"
    by (simp_all add: hybrid_result_def Let_def)
  have "holds_pq ?r pk sk"
    using L nm len lt k(1) unfolding holds_pq_def idx
    by (auto simp: hybrid_result_def Let_def read_comp_def comp_at_pq filled_parts)
  moreover have "holds_classic ?r p b s"
    using L nm len lt k(1) unfolding holds_classic_def idx
    by (auto simp: hybrid_result_def Let_def read_comp_def comp_at_classic filled_parts header_def)
  moreover have "wf_key ?r"
    using wf k L nm len
    by (auto simp: hybrid_result_def Let_def wf_key_def wf_shape_def wf_buffers_def classic_info_ok_def)
  moreover have "comps_ok ?r"
    using wf k L nm len
    by (auto simp: hybrid_result_def Let_def comps_ok_def ptrs_ok_def)
  ultimately show ?thesis by blast
qed

lemma set_composites_ret_eq:
  "oqsx_key_set_composites fixed k = (Inr (), k') \<Longrightarrow> set_composites_ret fixed k = (Inr 0, k')"
  by (simp add: set_composites_ret_def bindS_def st_simps tryS_def)

lemma gen_hyb_kem_eq:
  assumes wf: "wf_key k" "is_hyb_kem (keytype k)" "evp_info k = Some i"
    and bf: "privkey k = Some sb" "pubkey k = Some pb"
    and len: "length pk = qs_length_public_key (qs k)" "length sk = qs_length_secret_key (qs k)"
    and cl: "EVP_PKEY_keygen E i 0 rc = Some p" "encodes E i p b s"
    and pq: "OQS_KEM_keypair L (qs k) rq = Some (pk, sk)"
  shows "gen_hyb_kem L E rc rq k = (Inr 0,
    hybrid_result k (length_public_key i) (length_private_key i) p pb sb b s pk sk)"
proof -
  have hyb: "is_hybrid (keytype k)" using wf(2) by (simp add: is_hybrid_def)
  obtain c where k: "numkeys k = 2" "oqsx_evp_ctx k = Some c" "ec_info c = Some i"
      "privkeylen k = 4 + qs_length_secret_key (qs k) + length_private_key i"
      "pubkeylen k = 4 + qs_length_public_key (qs k) + length_public_key i"
    using wf hyb by (auto simp: wf_key_def elim!: wf_hybridE)
  have L: "4 + qs_length_secret_key (qs k) + length_private_key i \<le> length sb"
    "4 + qs_length_public_key (qs k) + length_public_key i = length pb"
    using wf_buffer_lengths [OF wf(1) bf] k by simp_all
  note le = encodes_le [OF cl(2)]
  let ?rv = "comp_reverse k" and ?ql = "qs_length_public_key (qs k)" and ?sl = "qs_length_secret_key (qs k)"
  define k1 where "k1 = k\<lparr>comp_privkey := comp_ptrs ?rv ?sl (length_private_key i),
    comp_pubkey := comp_ptrs ?rv ?ql (length_public_key i)\<rparr>"
  have s1: "set_composites_ret True k = (Inr 0, k1)"
    unfolding k1_def by (rule set_composites_ret_eq) (rule set_composites_fixed [OF wf(1) hyb wf(3) bf])
  have inf: "key_evp_info k1 = Inr i"
    using k by (simp add: k1_def key_evp_info_def)
  define po so where "po = (if ?rv then 4 + ?ql else 4)" and "so = (if ?rv then 4 + ?sl else 4)"
  have at: "comp_at (comp_pubkey k1) (idx_classic k1) = Inr po"
    "comp_at (comp_privkey k1) (idx_classic k1) = Inr so"
    using k(1) by (simp_all add: k1_def comp_at_classic po_def so_def)
  define k2 where "k2 = k1\<lparr>pubkey := Some (patch (patch pb po b) 0 (enc32 (length b))),
    privkey := Some (patch (patch sb so s) 0 (enc32 (length s)))\<rparr>"
  have "oqsx_key_gen_evp_key_kem E rc po so k1 = (Inr p, k2)"
    unfolding k2_def using bf L le
    by (intro gen_evp_key_kem_eq [OF inf cl]) (auto simp: k1_def po_def so_def)
  then have s2: "gen_hyb_kem L E rc rq k =
      bindS (oqsx_key_gen_oqs L rq True) err_gen (k2\<lparr>classical_pkey := Some p\<rparr>)"
    unfolding gen_hyb_kem_def by (simp add: bindS_def s1 st_simps at tryS_def)
  have s3: "oqsx_key_gen_oqs L rq True (k2\<lparr>classical_pkey := Some p\<rparr>) = (Inr 0,
      hybrid_result k (length_public_key i) (length_private_key i) p pb sb b s pk sk)"
    using pq L le len k(1)
    by (subst gen_oqs_eq [where pk = pk and sk = sk and pb = "the (pubkey k2)"
          and sb = "the (privkey k2)" and po = "if ?rv then 4 else 4 + length_public_key i"
          and so = "if ?rv then 4 else 4 + length_private_key i"])
      (auto simp: k1_def k2_def comp_at_pq hybrid_result_def filled_def Let_def po_def so_def)
  show ?thesis
    unfolding s2 by (simp add: bindS_def s3 err_gen_def st_simps)
qed

lemma gen_hyb_sig_eq:
  assumes wf: "wf_key k" "keytype k = KEY_TYPE_HYB_SIG" "evp_info k = Some i"
    and bf: "privkey k = Some sb" "pubkey k = Some pb"
    and len: "length pk = qs_length_public_key (qs k)" "length sk = qs_length_secret_key (qs k)"
    and cl: "EVP_PKEY_keygen E i (rsa_keygen_bits i) rc = Some p" "encodes E i p b s"
    and pq: "OQS_SIG_keypair L (qs k) rq = Some (pk, sk)"
  shows "gen_hyb_sig L E rc rq ret k = (Inr 0,
    hybrid_result k (length b) (length s) p pb sb b s pk sk)"
proof -
  have hyb: "is_hybrid (keytype k)" and rv: "\<not> comp_reverse k"
    using wf(2) by (simp_all add: is_hybrid_def comp_reverse_def is_hyb_kem_def)
  obtain c where k: "numkeys k = 2" "oqsx_evp_ctx k = Some c" "ec_info c = Some i" "ok_sizes i"
      "privkeylen k = 4 + qs_length_secret_key (qs k) + length_private_key i"
      "pubkeylen k = 4 + qs_length_public_key (qs k) + length_public_key i"
    using wf hyb by (auto simp: wf_key_def elim!: wf_hybridE)
  have L: "4 + qs_length_secret_key (qs k) + length_private_key i \<le> length sb"
    "4 + qs_length_public_key (qs k) + length_public_key i = length pb"
    using wf_buffer_lengths [OF wf(1) bf] k by simp_all
  note le = encodes_le [OF cl(2)]
  have lt: "length b < 2 ^ 32" "length s < 2 ^ 32"
    using header_lt [OF k(4)] le by blast+
  have inf: "key_evp_info k = Inr i"
    using k by (simp add: key_evp_info_def)
  define k1 where "k1 = k\<lparr>pubkey := Some (patch (patch pb 4 b) 0 (enc32 (length b))),
     privkey := Some (patch (patch sb 4 s) 0 (enc32 (length s)))\<rparr>"
  have s1: "oqsx_key_gen_evp_key_sig E rc k = (Inr p, k1)"
    unfolding k1_def using L le by (intro gen_evp_key_sig_eq [OF inf cl bf(2,1)]) auto
  have wf1: "wf_key k1" "is_hybrid (keytype k1)" "evp_info k1 = Some i"
      "privkey k1 = Some (patch (patch sb 4 s) 0 (enc32 (length s)))"
      "pubkey k1 = Some (patch (patch pb 4 b) 0 (enc32 (length b)))"
    using wf hyb k L le
    by (auto simp: k1_def wf_key_def wf_shape_def wf_buffers_def classic_info_ok_def)
  define k2 where "k2 = k1\<lparr>comp_privkey := comp_ptrs (comp_reverse k1) (qs_length_secret_key (qs k1)) (length s),
    comp_pubkey := comp_ptrs (comp_reverse k1) (qs_length_public_key (qs k1)) (length b)\<rparr>\<lparr>classical_pkey := Some p\<rparr>"
  have "oqsx_key_set_composites False k1 = (Inr (),
      k1\<lparr>comp_privkey := comp_ptrs (comp_reverse k1) (qs_length_secret_key (qs k1)) (length s),
         comp_pubkey := comp_ptrs (comp_reverse k1) (qs_length_public_key (qs k1)) (length b)\<rparr>)"
    using L le lt
    by (intro set_composites_header [OF wf1]) (simp_all add: slice_patch_same dec32_enc32)
  from set_composites_ret_eq [OF this]
  have s2: "gen_hyb_sig L E rc rq ret k = bindS (oqsx_key_gen_oqs L rq False) err_gen k2"
    unfolding gen_hyb_sig_def
    by (subst bindS_Inr [where m = "tryS (oqsx_key_gen_evp_key_sig E rc)", OF tryS_Inr [where m = "oqsx_key_gen_evp_key_sig E rc", OF s1]])
      (simp add: bindS_def st_simps k2_def)
  have at: "comp_at (comp_pubkey k2) (idx_pq k2) = Inr (4 + length b)"
    "comp_at (comp_privkey k2) (idx_pq k2) = Inr (4 + length s)"
    using comp_at_pq [OF k(1)] rv by (simp_all add: k1_def k2_def)
  have s3: "oqsx_key_gen_oqs L rq False k2 = (Inr 0, hybrid_result k (length b) (length s) p pb sb b s pk sk)"
    using pq at L le len rv
    by (subst gen_oqs_eq [where pk = pk and sk = sk])
      (auto simp: k1_def k2_def hybrid_result_def filled_def Let_def)
  show ?thesis
    unfolding s2 by (subst bindS_Inr [where m = "oqsx_key_gen_oqs L rq False", OF s3]) (simp add: err_gen_def st_simps)
qed

lemma gen_plain_eq:
  assumes wf: "wf_key k" "\<not> is_hybrid (keytype k)"
    and bf: "privkey k = Some sb" "pubkey k = Some pb"
    and len: "length pk = qs_length_public_key (qs k)" "length sk = qs_length_secret_key (qs k)"
    and pq: "(if kem then OQS_KEM_keypair L else OQS_SIG_keypair L) (qs k) rq = Some (pk, sk)"
  shows "gen_plain L rq kem k = (Inr 0, k\<lparr>comp_privkey := [Off 0], comp_pubkey := [Off 0],
    pubkey := Some (patch pb 0 pk), privkey := Some (patch sb 0 sk)\<rparr>)"
proof -
  have k: "numkeys k = 1" "length (comp_privkey k) = 1" "length (comp_pubkey k) = 1"
      "length sk \<le> length sb" "length pk \<le> length pb"
    using wf len wf_buffer_lengths [OF wf(1) bf] by (auto simp: wf_key_def wf_shape_def)
  define k1 where "k1 = k\<lparr>comp_privkey := [Off 0], comp_pubkey := [Off 0]\<rparr>"
  have s1: "set_composites_ret False k = (Inr 0, k1)"
    using set_composites_plain [OF k(1-3)] bf
    by (intro set_composites_ret_eq) (simp add: k1_def buf_ptr_def)
  have at: "comp_at (comp_pubkey k1) (idx_pq k1) = Inr 0" "comp_at (comp_privkey k1) (idx_pq k1) = Inr 0"
    using k(1) by (auto simp: k1_def idx_pq_def oqsx_comp_set_idx_def comp_at_def)
  have s2: "oqsx_key_gen_oqs L rq kem k1 = (Inr 0, k1\<lparr>pubkey := Some (patch pb 0 pk), privkey := Some (patch sb 0 sk)\<rparr>)"
    using pq k bf by (intro gen_oqs_eq at) (auto simp: k1_def)
  show ?thesis
    unfolding gen_plain_def
    by (subst bindS_Inr [where m = "set_composites_ret False", OF s1]; simp; subst bindS_Inr [where m = "oqsx_key_gen_oqs L rq kem", OF s2])
      (simp add: err_gen_def st_simps k1_def)
qed

lemma plain_result_holds:
  assumes wf: "wf_key k" "\<not> is_hybrid (keytype k)"
    and bf: "privkey k = Some sb" "pubkey k = Some pb"
    and len: "length pk = qs_length_public_key (qs k)" "length sk = qs_length_secret_key (qs k)"
    and r: "r = k\<lparr>comp_privkey := [Off 0], comp_pubkey := [Off 0],
      pubkey := Some (patch pb 0 pk), privkey := Some (patch sb 0 sk)\<rparr>"
  shows "holds_pq r pk sk \<and> wf_key r \<and> comps_ok r"
  using wf wf_buffer_lengths [OF wf(1) bf] len unfolding r
  by (auto simp: wf_key_def wf_shape_def wf_buffers_def holds_pq_def read_comp_def comp_at_def
      idx_pq_def oqsx_comp_set_idx_def slice_patch_same comps_ok_def buf_ptr_def)

subsection \<open>Generation is memory safe\<close>

definition keygen_fits :: "'p openssl \<Rightarrow> evp_info \<Rightarrow> bool" where
  "keygen_fits E i \<longleftrightarrow>
     (\<forall>bits seed p. EVP_PKEY_keygen E i bits seed = Some p \<longrightarrow> encodings_fit E i p)"

definition inv :: "'p oqsx_key \<Rightarrow> 'p oqsx_key \<Rightarrow> bool" where
  "inv k k' \<longleftrightarrow> wf_key k' \<and> same_key k k' \<and> pubkey k' \<noteq> None \<and> privkey k' \<noteq> None"

lemma bufs_refl: "pubkey k = Some pb \<Longrightarrow> privkey k = Some sb \<Longrightarrow> bufs k (length pb) (length sb) k"
  by (simp add: bufs_def)

lemma bufs_inv: "inv k k1 \<Longrightarrow> bufs k1 np ns k' \<Longrightarrow> np = pubkeylen k \<Longrightarrow> privkeylen k \<le> ns \<Longrightarrow> inv k k'"
proof -
  assume i: "inv k k1" and b: "bufs k1 np ns k'" and n: "np = pubkeylen k" "privkeylen k \<le> ns"
  have e: "k' = k1\<lparr>pubkey := pubkey k', privkey := privkey k'\<rparr>"
    using b by (rule bufs_eq)
  have "same_key k k'" using i by (subst e) (simp add: inv_def)
  moreover have "wf_shape k'"
    using i by (subst e) (auto simp: inv_def wf_key_def wf_shape_def classic_info_ok_def split: if_splits)
  moreover have "wf_buffers k'"
    using b n same_key_fields [OF \<open>same_key k k'\<close>] by (auto simp: wf_buffers_def bufs_def)
  ultimately show ?thesis
    using b by (auto simp: inv_def wf_key_def bufs_def)
qed

lemma safe_bufs_to_inv:
  assumes "\<And>k1 np ns. inv k k1 \<Longrightarrow> np = pubkeylen k \<Longrightarrow> privkeylen k \<le> ns \<Longrightarrow>
     safe (bufs k1 np ns) m (\<lambda>x. bufs k1 np ns) (bufs k1 np ns)"
  shows "safe (inv k) m (\<lambda>_. inv k) (inv k)"
proof (unfold safe_def, intro allI impI)
  fix s assume s: "inv k s"
  then obtain pb sb where b: "pubkey s = Some pb" "privkey s = Some sb" by (auto simp: inv_def)
  have n: "length pb = pubkeylen k" "privkeylen k \<le> length sb"
    using s b wf_buffer_lengths [of s] same_key_fields [of k s] by (auto simp: inv_def)
  from safe_at [OF assms [OF s n] bufs_refl [OF b]]
  show "case m s of (Inr x, s') \<Rightarrow> inv k s' | (Inl e, s') \<Rightarrow> e \<noteq> UB \<and> inv k s'"
    by (auto intro: bufs_inv [OF s _ n] split: prod.splits sum.splits)
qed

lemma safe_write_headers:
  "4 \<le> np \<Longrightarrow> 4 \<le> ns \<Longrightarrow> safe (bufs k np ns) n Q E
    \<Longrightarrow> safe (bufs k np ns) (thenS (write_headers lens) n) Q E"
  by (cases lens, rule safe_then [of _ _ "bufs k np ns"])
    (auto simp: safe_def bufs_def write_headers_eq split: prod.splits)

lemma safe_gen_evp_key:
  assumes "key_evp_info k1 = Inr i" and "keygen_fits E i" and "4 \<le> np" "4 \<le> ns"
    and "po + length_public_key i \<le> np" and "so + length_private_key i \<le> ns"
  shows "safe (bufs k1 np ns) (oqsx_key_gen_evp_key_kem E seed po so)
      (\<lambda>_. bufs k1 np ns) (bufs k1 np ns)"
    and "po = 4 \<Longrightarrow> so = 4 \<Longrightarrow>
      safe (bufs k1 np ns) (oqsx_key_gen_evp_key_sig E seed) (\<lambda>_. bufs k1 np ns) (bufs k1 np ns)"
proof -
  have inf: "key_evp_info s = Inr i" if "bufs k1 np ns s" for s
    using assms(1) bufs_fields [OF that] by (simp add: key_evp_info_def)
  have fit: "encodings_fit E i p" if "EVP_PKEY_keygen E i bits seed = Some p" for bits p
    using assms(2) that by (auto simp: keygen_fits_def)
  have store: "safe (bufs k1 np ns) (bindS (store_evp_keys E i p po so)
      (\<lambda>lens. thenS (write_headers lens) (retS p))) (\<lambda>_. bufs k1 np ns) (bufs k1 np ns)"
    if "encodings_fit E i p" for p
    by (rule safe_bind [where R = "\<lambda>_. bufs k1 np ns"],
        rule safe_weaken [OF safe_store_evp_keys [OF assms(5,6) that]])
      (auto intro!: safe_write_headers safe_retI assms)
  show "safe (bufs k1 np ns) (oqsx_key_gen_evp_key_kem E seed po so)
      (\<lambda>_. bufs k1 np ns) (bufs k1 np ns)"
    unfolding oqsx_key_gen_evp_key_kem_def
    by (rule safe_read_bind [OF inf], assumption, rule safe_option_bind)
      (auto intro: store fit)
  show "safe (bufs k1 np ns) (oqsx_key_gen_evp_key_sig E seed) (\<lambda>_. bufs k1 np ns) (bufs k1 np ns)"
    if "po = 4" "so = 4"
    unfolding oqsx_key_gen_evp_key_sig_def using that store fit
    by (intro safe_read_bind [OF inf] safe_option_bind) auto
qed

lemma safe_err_gen: "safe (inv k) (err_gen r) (\<lambda>_. inv k) (inv k)"
  by (auto simp: safe_def err_gen_def st_simps inv_def)

lemma safe_set_composites_ret:
  "safe (inv k) (set_composites_ret fixed) (\<lambda>r k'. inv k k' \<and> (r = 0 \<longrightarrow> comps_ok k')) (inv k)"
proof (unfold safe_def, intro allI impI)
  fix s assume s: "inv k s"
  have keep: "pubkey s' = pubkey s \<and> privkey s' = privkey s"
    if "oqsx_key_set_composites fixed s = (r, s')" for r s'
    using that
    by (auto simp: oqsx_key_set_composites_def oqsx_comp_set_offsets_def set_priv_offsets_def
        set_pub_offsets_def st_simps thenS_def bindS_def put_priv_def put_pub_def
        split: prod.splits sum.splits if_splits)
  from s safe_at [OF set_composites_safe [of k fixed], of s]
  show "case set_composites_ret fixed s of (Inr r, k') \<Rightarrow> inv k k' \<and> (r = 0 \<longrightarrow> comps_ok k')
      | (Inl e, k') \<Rightarrow> e \<noteq> UB \<and> inv k k'"
    by (auto simp: set_composites_ret_def bindS_def tryS_def st_simps inv_def
        split: prod.splits sum.splits failure.splits dest!: keep)
qed

lemma ptrs_ok_pq:
  "ptrs_ok (comp_reverse k) ql ml ps (Some b) \<Longrightarrow> numkeys k = 2
    \<Longrightarrow> \<exists>po. comp_at ps (idx_pq k) = Inr po \<and> 4 \<le> po \<and> po + ql \<le> length b"
  by (auto simp: ptrs_ok_def comp_at_pq)

lemma ptrs_ok_classic:
  "ptrs_ok (comp_reverse k) ql ml ps (Some b) \<Longrightarrow> numkeys k = 2 \<Longrightarrow> 4 + ql + ml \<le> length b
    \<Longrightarrow> \<exists>po. comp_at ps (idx_classic k) = Inr po \<and> 4 \<le> po \<and> po + ml \<le> length b"
  by (auto simp: ptrs_ok_def comp_at_classic)

lemma comps_ok_pq:
  assumes wf: "wf_key k" and c: "comps_ok k"
  shows "pubkey k = Some pb \<Longrightarrow> \<exists>po. comp_at (comp_pubkey k) (idx_pq k) = Inr po
      \<and> po + qs_length_public_key (qs k) \<le> length pb"
    and "privkey k = Some sb \<Longrightarrow> \<exists>so. comp_at (comp_privkey k) (idx_pq k) = Inr so
      \<and> so + qs_length_secret_key (qs k) \<le> length sb"
proof -
  assume b: "pubkey k = Some pb"
  show "\<exists>po. comp_at (comp_pubkey k) (idx_pq k) = Inr po \<and> po + qs_length_public_key (qs k) \<le> length pb"
  proof (cases "is_hybrid (keytype k)")
    case True
    with wf have n: "numkeys k = 2" by (simp add: wf_key_def wf_shape_def)
    from True c b obtain i :: evp_info where "ptrs_ok (comp_reverse k) (qs_length_public_key (qs k)) (length_public_key i) (comp_pubkey k) (Some pb)"
      by (auto simp: comps_ok_def)
    from ptrs_ok_pq [OF this n] show ?thesis by blast
  next
    case False
    with wf have "numkeys k = 1" by (simp add: wf_key_def wf_shape_def)
    moreover from False c b have "comp_pubkey k = [Off 0]" by (simp add: comps_ok_def buf_ptr_def)
    moreover from False wf b have "qs_length_public_key (qs k) \<le> length pb" by (simp add: wf_key_def wf_shape_def wf_buffers_def)
    ultimately show ?thesis
      by (auto simp: comp_at_def idx_pq_def oqsx_comp_set_idx_def)
  qed
next
  assume b: "privkey k = Some sb"
  show "\<exists>so. comp_at (comp_privkey k) (idx_pq k) = Inr so \<and> so + qs_length_secret_key (qs k) \<le> length sb"
  proof (cases "is_hybrid (keytype k)")
    case True
    with wf have n: "numkeys k = 2" by (simp add: wf_key_def wf_shape_def)
    from True c b obtain i :: evp_info where "ptrs_ok (comp_reverse k) (qs_length_secret_key (qs k)) (length_private_key i) (comp_privkey k) (Some sb)"
      by (auto simp: comps_ok_def)
    from ptrs_ok_pq [OF this n] show ?thesis by blast
  next
    case False
    with wf have "numkeys k = 1" by (simp add: wf_key_def wf_shape_def)
    moreover from False c b have "comp_privkey k = [Off 0]" by (simp add: comps_ok_def buf_ptr_def)
    moreover from False wf b have "qs_length_secret_key (qs k) \<le> length sb" by (simp add: wf_key_def wf_shape_def wf_buffers_def)
    ultimately show ?thesis
      by (auto simp: comp_at_def idx_pq_def oqsx_comp_set_idx_def)
  qed
qed

lemma comps_ok_classic:
  assumes wf: "wf_key k" and c: "comps_ok k" and hyb: "is_hybrid (keytype k)" "evp_info k = Some i"
  shows "pubkey k = Some pb \<Longrightarrow> \<exists>po. comp_at (comp_pubkey k) (idx_classic k) = Inr po
      \<and> 4 \<le> po \<and> po + length_public_key i \<le> length pb"
    and "privkey k = Some sb \<Longrightarrow> \<exists>so. comp_at (comp_privkey k) (idx_classic k) = Inr so
      \<and> 4 \<le> so \<and> so + length_private_key i \<le> length sb"
proof -
  have k: "numkeys k = 2" "privkeylen k = 4 + qs_length_secret_key (qs k) + length_private_key i"
      "pubkeylen k = 4 + qs_length_public_key (qs k) + length_public_key i"
    using wf hyb by (auto simp: wf_key_def elim!: wf_hybridE)
  show "\<exists>po. comp_at (comp_pubkey k) (idx_classic k) = Inr po \<and> 4 \<le> po \<and> po + length_public_key i \<le> length pb"
    if "pubkey k = Some pb"
    using wf c hyb k that by (intro ptrs_ok_classic) (auto simp: comps_ok_def wf_key_def wf_buffers_def)
  show "\<exists>so. comp_at (comp_privkey k) (idx_classic k) = Inr so \<and> 4 \<le> so \<and> so + length_private_key i \<le> length sb"
    if "privkey k = Some sb"
    using wf c hyb k that by (intro ptrs_ok_classic) (auto simp: comps_ok_def wf_key_def wf_buffers_def)
qed

lemma safe_ret_branch:
  "safe P m Q E \<Longrightarrow> safe (\<lambda>s. P s \<and> c s) n Q E
    \<Longrightarrow> safe (\<lambda>s. P s \<and> (r = (0::int) \<longrightarrow> c s)) (if r \<noteq> 0 then m else n) Q E"
  by (cases "r = 0") (auto elim: safe_weaken)

lemma safe_gen_oqs:
  assumes "keypair_lengths (if gen_kem then OQS_KEM_keypair L else OQS_SIG_keypair L)"
  shows "safe (\<lambda>k'. inv k k' \<and> comps_ok k') (oqsx_key_gen_oqs L rq gen_kem) (\<lambda>_. inv k) (inv k)"
proof (unfold safe_def, intro allI impI, elim conjE)
  fix s assume s: "inv k s" and c: "comps_ok s"
  then obtain pb sb where b: "pubkey s = Some pb" "privkey s = Some sb" and wf: "wf_key s"
    by (auto simp: inv_def)
  from comps_ok_pq [OF wf c] b obtain po so where
      po: "comp_at (comp_pubkey s) (idx_pq s) = Inr po" "po + qs_length_public_key (qs s) \<le> length pb"
    and so: "comp_at (comp_privkey s) (idx_pq s) = Inr so" "so + qs_length_secret_key (qs s) \<le> length sb"
    by blast
  show "case oqsx_key_gen_oqs L rq gen_kem s of (Inr x, s') \<Rightarrow> inv k s'
      | (Inl e, s') \<Rightarrow> e \<noteq> UB \<and> inv k s'"
  proof (cases "(if gen_kem then OQS_KEM_keypair L else OQS_SIG_keypair L) (qs s) rq")
    case None
    then show ?thesis
      using s po so by (simp add: oqsx_key_gen_oqs_def bindS_def st_simps)
  next
    case (Some kp)
    then obtain pk sk where kp: "(if gen_kem then OQS_KEM_keypair L else OQS_SIG_keypair L) (qs s) rq
        = Some (pk, sk)" by (cases kp) auto
    with assms have len: "length pk = qs_length_public_key (qs s)" "length sk = qs_length_secret_key (qs s)"
      by (auto simp: keypair_lengths_def)
    have "bufs s (length pb) (length sb) (s\<lparr>pubkey := Some (patch pb po pk), privkey := Some (patch sb so sk)\<rparr>)"
      using len po so by (simp add: bufs_def)
    moreover have "length pb = pubkeylen k" "privkeylen k \<le> length sb"
      using s b wf_buffer_lengths [OF wf] same_key_fields [of k s] by (auto simp: inv_def)
    ultimately have "inv k (s\<lparr>pubkey := Some (patch pb po pk), privkey := Some (patch sb so sk)\<rparr>)"
      using bufs_inv [OF s] by blast
    then show ?thesis
      using gen_oqs_eq [OF kp po(1) so(1) b] len po so by simp
  qed
qed

lemma safe_oqs_err_gen:
  "keypair_lengths (if gen_kem then OQS_KEM_keypair L else OQS_SIG_keypair L) \<Longrightarrow>
   safe (\<lambda>k'. inv k k' \<and> comps_ok k') (bindS (oqsx_key_gen_oqs L rq gen_kem) err_gen)
     (\<lambda>_. inv k) (inv k)"
  by (rule safe_bind [OF safe_gen_oqs safe_err_gen])

lemma safe_gen_plain:
  assumes "keypair_lengths (if gen_kem then OQS_KEM_keypair L else OQS_SIG_keypair L)"
  shows "safe (inv k) (gen_plain L rq gen_kem) (\<lambda>_. inv k) (inv k)"
  unfolding gen_plain_def
proof (rule safe_bind [OF safe_set_composites_ret])
  fix r
  show "safe (\<lambda>k'. inv k k' \<and> (r = 0 \<longrightarrow> comps_ok k'))
     (if r \<noteq> 0 then err_gen r else bindS (oqsx_key_gen_oqs L rq gen_kem) err_gen) (\<lambda>_. inv k) (inv k)"
    by (rule safe_ret_branch [OF safe_err_gen safe_oqs_err_gen [OF assms]])
qed

lemma comps_ok_classical_upd [simp]: "comps_ok (k\<lparr>classical_pkey := p\<rparr>) = comps_ok k"
  by (simp add: comps_ok_def)

lemma inv_classical_upd [simp]: "inv k (k'\<lparr>classical_pkey := p\<rparr>) = inv k k'"
  by (simp add: inv_def)

lemma safe_gen_hyb_sig:
  assumes "keypair_lengths (OQS_SIG_keypair L)" and "keygen_fits E i"
    and "evp_info k = Some i" and "is_hybrid (keytype k)"
  shows "safe (inv k) (gen_hyb_sig L E rc rq ret) (\<lambda>_. inv k) (inv k)"
  unfolding gen_hyb_sig_def
proof (rule safe_bind)
  have "safe (inv k) (oqsx_key_gen_evp_key_sig E rc) (\<lambda>_. inv k) (inv k)"
  proof (rule safe_bufs_to_inv)
    fix k1 np ns assume k1: "inv k k1" "np = pubkeylen k" "privkeylen k \<le> ns"
    note f = same_key_fields [of k k1]
    have "wf_key k1" using k1 by (simp add: inv_def)
    moreover have "is_hybrid (keytype k1)" "evp_info k1 = Some i" "np = pubkeylen k1" "privkeylen k1 \<le> ns"
      using k1 assms(3,4) f by (auto simp: inv_def)
    ultimately have "key_evp_info k1 = Inr i" "4 + length_public_key i \<le> np" "4 + length_private_key i \<le> ns"
      using key_evp_info_hybrid [of k1]
      by (auto simp: wf_key_def wf_shape_def classic_info_ok_def)
    with assms(2) show "safe (bufs k1 np ns) (oqsx_key_gen_evp_key_sig E rc) (\<lambda>_. bufs k1 np ns) (bufs k1 np ns)"
      by (intro safe_gen_evp_key(2) [where po = 4 and so = 4 and i = i]) auto
  qed
  from safe_try [OF this]
  show "safe (inv k) (tryS (oqsx_key_gen_evp_key_sig E rc)) (\<lambda>_. inv k) (inv k)"
    by (rule safe_weaken) (auto split: option.splits)
next
  fix pkey
  have "safe (inv k) (bindS (set_composites_ret False) (\<lambda>ret. if ret \<noteq> 0 then err_gen ret
         else thenS (modS (\<lambda>k. k\<lparr>classical_pkey := Some p\<rparr>))
              (bindS (oqsx_key_gen_oqs L rq False) err_gen))) (\<lambda>_. inv k) (inv k)" for p
  proof (rule safe_bind [OF safe_set_composites_ret])
    fix r
    have "safe (\<lambda>k'. inv k k' \<and> comps_ok k') (thenS (modS (\<lambda>k. k\<lparr>classical_pkey := Some p\<rparr>))
              (bindS (oqsx_key_gen_oqs L rq False) err_gen)) (\<lambda>_. inv k) (inv k)"
      by (rule safe_mod_then [OF _ safe_oqs_err_gen]) (use assms(1) in auto)
    then show "safe (\<lambda>k'. inv k k' \<and> (r = 0 \<longrightarrow> comps_ok k')) (if r \<noteq> 0 then err_gen r
         else thenS (modS (\<lambda>k. k\<lparr>classical_pkey := Some p\<rparr>))
              (bindS (oqsx_key_gen_oqs L rq False) err_gen)) (\<lambda>_. inv k) (inv k)"
      by (rule safe_ret_branch [OF safe_err_gen])
  qed
  then show "safe (inv k) (case pkey of None \<Rightarrow> err_gen ret | Some p \<Rightarrow>
      bindS (set_composites_ret False) (\<lambda>ret. if ret \<noteq> 0 then err_gen ret
         else thenS (modS (\<lambda>k. k\<lparr>classical_pkey := Some p\<rparr>))
              (bindS (oqsx_key_gen_oqs L rq False) err_gen))) (\<lambda>_. inv k) (inv k)"
    by (cases pkey) (simp_all add: safe_err_gen)
qed

lemma inv_wf_info:
  "inv k s \<Longrightarrow> is_hybrid (keytype k) \<Longrightarrow> evp_info k = Some i \<Longrightarrow>
     wf_key s \<and> is_hybrid (keytype s) \<and> evp_info s = Some i \<and> key_evp_info s = Inr i"
  using same_key_fields [of k s] key_evp_info_hybrid [of s] by (simp add: inv_def)

lemma safe_gen_hyb_kem:
  assumes "keypair_lengths (OQS_KEM_keypair L)" and "keygen_fits E i"
    and "evp_info k = Some i" and "is_hybrid (keytype k)"
  shows "safe (inv k) (gen_hyb_kem L E rc rq) (\<lambda>_. inv k) (inv k)"
  unfolding gen_hyb_kem_def
proof (rule safe_bind [OF safe_set_composites_ret])
  fix r
  let ?rest = "\<lambda>po so. bindS (tryS (oqsx_key_gen_evp_key_kem E rc po so)) (\<lambda>pkey. case pkey of
         None \<Rightarrow> err_gen r
       | Some p \<Rightarrow> thenS (modS (\<lambda>k. k\<lparr>classical_pkey := Some p\<rparr>))
                   (bindS (oqsx_key_gen_oqs L rq True) err_gen))"
  have "case bindS (readS (\<lambda>k. comp_at (comp_pubkey k) (idx_classic k))) (\<lambda>po.
       bindS (readS (\<lambda>k. comp_at (comp_privkey k) (idx_classic k))) (?rest po)) s of
      (Inr x, s') \<Rightarrow> inv k s' | (Inl e, s') \<Rightarrow> e \<noteq> UB \<and> inv k s'"
    if s: "inv k s" and c: "comps_ok s" for s
  proof -
    from s obtain pb sb where b: "pubkey s = Some pb" "privkey s = Some sb" by (auto simp: inv_def)
    note w = inv_wf_info [OF s assms(4,3)]
    then have wf: "wf_key s" and hyb: "is_hybrid (keytype s)" "evp_info s = Some i"
      and inf: "key_evp_info s = Inr i" by blast+
    obtain po so where
        po: "comp_at (comp_pubkey s) (idx_classic s) = Inr po" "po + length_public_key i \<le> length pb" "4 \<le> po"
      and so: "comp_at (comp_privkey s) (idx_classic s) = Inr so" "so + length_private_key i \<le> length sb" "4 \<le> so"
      using comps_ok_classic [OF wf c hyb] b by blast
    have n: "length pb = pubkeylen k" "privkeylen k \<le> length sb"
      using s b wf_buffer_lengths [OF wf] same_key_fields [of k s] by (auto simp: inv_def)
    let ?B = "bufs s (length pb) (length sb)"
    have B: "inv k k' \<and> comps_ok k'" if "?B k'" for k'
    proof
      show i: "inv k k'" by (rule bufs_inv [OF s that n])
      have "is_hybrid (keytype k')" "evp_info k' = Some i" "comp_reverse k' = comp_reverse s" "qs k' = qs s"
        "comp_pubkey k' = comp_pubkey s" "comp_privkey k' = comp_privkey s"
        using hyb bufs_fields [OF that] by (simp_all add: comp_reverse_def)
      then show "comps_ok k'"
        using c hyb b that by (auto simp: comps_ok_def bufs_def ptrs_ok_def)
    qed
    have "safe ?B (oqsx_key_gen_evp_key_kem E rc po so) (\<lambda>_. ?B) ?B"
      by (rule safe_gen_evp_key(1) [OF inf assms(2) _ _ po(2) so(2)]) (use po so in auto)
    then have "safe ?B (tryS (oqsx_key_gen_evp_key_kem E rc po so)) (\<lambda>_ k'. inv k k' \<and> comps_ok k') (inv k)"
      by (rule safe_weaken [OF safe_try]) (auto dest: B split: option.splits)
    then have "safe ?B (?rest po so) (\<lambda>_. inv k) (inv k)"
    proof (rule safe_bind)
      fix pkey
      have "safe (\<lambda>k'. inv k k' \<and> comps_ok k') (thenS (modS (\<lambda>k. k\<lparr>classical_pkey := Some p\<rparr>))
              (bindS (oqsx_key_gen_oqs L rq True) err_gen)) (\<lambda>_. inv k) (inv k)" for p
        by (rule safe_mod_then [OF _ safe_oqs_err_gen]) (use assms(1) in auto)
      then show "safe (\<lambda>k'. inv k k' \<and> comps_ok k') (case pkey of None \<Rightarrow> err_gen r
         | Some p \<Rightarrow> thenS (modS (\<lambda>k. k\<lparr>classical_pkey := Some p\<rparr>))
                   (bindS (oqsx_key_gen_oqs L rq True) err_gen)) (\<lambda>_. inv k) (inv k)"
        by (cases pkey) (auto intro: safe_weaken [OF safe_err_gen])
    qed
    from safe_at [OF this bufs_refl [OF b]] show ?thesis
      by (simp add: bindS_readS po so)
  qed
  then have "safe (\<lambda>s. inv k s \<and> comps_ok s) (bindS (readS (\<lambda>k. comp_at (comp_pubkey k) (idx_classic k)))
      (\<lambda>po. bindS (readS (\<lambda>k. comp_at (comp_privkey k) (idx_classic k))) (?rest po))) (\<lambda>_. inv k) (inv k)"
    by (simp add: safe_def)
  then show "safe (\<lambda>k'. inv k k' \<and> (r = 0 \<longrightarrow> comps_ok k')) (if r \<noteq> 0 then err_gen r
     else bindS (readS (\<lambda>k. comp_at (comp_pubkey k) (idx_classic k))) (\<lambda>po.
       bindS (readS (\<lambda>k. comp_at (comp_privkey k) (idx_classic k))) (?rest po))) (\<lambda>_. inv k) (inv k)"
    by (rule safe_ret_branch [OF safe_err_gen])
qed

text \<open>Allocation fills in the missing buffers with zeros, or stops at the first failure.\<close>

definition with_buffers :: "'p oqsx_key \<Rightarrow> 'p oqsx_key" where
  "with_buffers k = k
     \<lparr>pubkey := Some (case pubkey k of None \<Rightarrow> replicate (pubkeylen k) 0 | Some b \<Rightarrow> b),
      privkey := Some (case privkey k of None \<Rightarrow> replicate (privkeylen k + 4) 0 | Some b \<Rightarrow> b)\<rparr>"

lemma alloc_both_ok:
  "ok A_PUBKEY \<Longrightarrow> ok A_PRIVKEY \<Longrightarrow> alloc_both ok k = (Inr 0, with_buffers k)"
  by (auto simp: alloc_both_def oqsx_key_allocate_keymaterial_def with_buffers_def split: option.splits)

lemma wf_with_buffers: "wf_key k \<Longrightarrow> inv k (with_buffers k)"
  by (auto simp: inv_def with_buffers_def wf_key_def wf_shape_def wf_buffers_def classic_info_ok_def
      split: option.splits if_splits)

lemma alloc_both_cases:
  assumes wf: "wf_key k"
  obtains "alloc_both ok k = (Inr 0, with_buffers k)"
  | k' where "alloc_both ok k = (Inr 1, k')" "wf_key k'" "same_key k k'"
proof -
  define k0 where "k0 = k\<lparr>pubkey := Some (case pubkey k of None \<Rightarrow> replicate (pubkeylen k) 0 | Some b \<Rightarrow> b)\<rparr>"
  have k0: "wf_key k0" "same_key k k0"
    using wf by (auto simp: k0_def wf_key_def wf_shape_def wf_buffers_def classic_info_ok_def
        split: if_splits option.splits)
  have "pubkey k = None \<Longrightarrow> \<not> ok A_PUBKEY \<Longrightarrow> alloc_both ok k = (Inr 1, k)"
    by (simp add: alloc_both_def oqsx_key_allocate_keymaterial_def)
  moreover have "\<not> (pubkey k = None \<and> \<not> ok A_PUBKEY) \<Longrightarrow> privkey k = None \<Longrightarrow> \<not> ok A_PRIVKEY
      \<Longrightarrow> alloc_both ok k = (Inr 1, k0)"
    by (cases "pubkey k") (auto simp: alloc_both_def oqsx_key_allocate_keymaterial_def k0_def)
  moreover have "\<not> (pubkey k = None \<and> \<not> ok A_PUBKEY) \<Longrightarrow> \<not> (privkey k = None \<and> \<not> ok A_PRIVKEY)
      \<Longrightarrow> alloc_both ok k = (Inr 0, with_buffers k)"
    by (cases "pubkey k"; cases "privkey k")
      (auto simp: alloc_both_def oqsx_key_allocate_keymaterial_def with_buffers_def)
  ultimately show ?thesis
    using that wf k0 by (metis same_key_refl)
qed

lemma safe_post:
  assumes "safe P m Q E" and "P s" and "\<And>x s'. Q x s' \<Longrightarrow> R s'" and "\<And>s'. E s' \<Longrightarrow> R s'"
  shows "fst (m s) \<noteq> Inl UB \<and> R (snd (m s))"
  using safe_at [OF assms(1,2)] assms(3,4) by (auto split: prod.splits sum.splits)

lemma gen_body_safe:
  assumes "keypair_lengths (OQS_KEM_keypair L)" and "keypair_lengths (OQS_SIG_keypair L)"
    and "\<And>i. evp_info k = Some i \<Longrightarrow> keygen_fits E i" and wf: "wf_key k"
  shows "safe (inv k) (gen_body L E rc rq ret (keytype k)) (\<lambda>_. inv k) (inv k)"
proof (cases "is_hybrid (keytype k)")
  case True
  with wf obtain i where i: "evp_info k = Some i" by (auto simp: wf_key_def elim!: wf_hybridE)
  show ?thesis
    using True assms(1,2) assms(3) [OF i]
    by (cases "keytype k")
      (auto simp: gen_body_def is_hybrid_cases intro: safe_gen_hyb_kem [OF _ _ i] safe_gen_hyb_sig [OF _ _ i])
next
  case False
  with assms(1,2) show ?thesis
    by (cases "keytype k") (auto simp: gen_body_def is_hybrid_cases intro!: safe_gen_plain)
qed

lemma oqsx_key_gen_unfold:
  assumes "wf_key k"
  shows "(\<exists>k'. wf_key k' \<and> same_key k k' \<and> oqsx_key_gen L E ok rc rq k = err_gen 1 k') \<or>
    oqsx_key_gen L E ok rc rq k = (gen_body L E rc rq 0 (keytype k)) (with_buffers k)"
proof (cases "privkey k = None \<or> pubkey k = None")
  case True
  from assms show ?thesis
    by (rule alloc_both_cases [where ok = ok])
      (use True in \<open>auto simp: oqsx_key_gen_def st_simps bindS_def\<close>)
next
  case False
  then obtain a b where b: "privkey k = Some a" "pubkey k = Some b" by auto
  then have "with_buffers k = k" by (simp add: with_buffers_def)
  with b show ?thesis
    by (simp add: oqsx_key_gen_def st_simps)
qed

lemma key_gen_inv:
  assumes "keypair_lengths (OQS_KEM_keypair L)" and "keypair_lengths (OQS_SIG_keypair L)"
    and "\<And>i. evp_info k = Some i \<Longrightarrow> keygen_fits E i" and "wf_key k"
  shows "fst (oqsx_key_gen L E ok rc rq k) \<noteq> Inl UB \<and>
    wf_key (snd (oqsx_key_gen L E ok rc rq k)) \<and> same_key k (snd (oqsx_key_gen L E ok rc rq k))"
  using oqsx_key_gen_unfold [OF assms(4), of L E ok rc rq]
proof (elim disjE exE conjE)
  fix k' assume "wf_key k'" "same_key k k'" "oqsx_key_gen L E ok rc rq k = err_gen 1 k'"
  then show ?thesis by (simp add: err_gen_def st_simps)
next
  let ?m = "gen_body L E rc rq 0 (keytype k)"
  assume "oqsx_key_gen L E ok rc rq k = ?m (with_buffers k)"
  moreover have "fst (?m (with_buffers k)) \<noteq> Inl UB \<and> inv k (snd (?m (with_buffers k)))"
    by (rule safe_post [OF gen_body_safe [OF assms] wf_with_buffers [OF assms(4)]])
  ultimately show ?thesis by (simp add: inv_def)
qed

text \<open>
  C3: On a well-formed key \<open>oqsx_key_gen\<close> has no undefined behaviour, whatever fails on the way
  (an allocation, the classical or the post-quantum generator), as long as the generators
  respect the lengths they declare; and the key stays well-formed, with its type, algorithm and
  length fields unchanged.
\<close>

theorem oqsx_key_gen_safe:
  assumes "keypair_lengths (OQS_KEM_keypair L)" and "keypair_lengths (OQS_SIG_keypair L)"
    and "\<And>i. evp_info k = Some i \<Longrightarrow> keygen_fits E i" and "wf_key k"
  shows "fst (oqsx_key_gen L E ok rc rq k) \<noteq> Inl UB \<and>
    wf_key (snd (oqsx_key_gen L E ok rc rq k)) \<and> same_key k (snd (oqsx_key_gen L E ok rc rq k))"
  by (rule key_gen_inv [OF assms])

lemma sample_lengths:
  "keypair_lengths (OQS_KEM_keypair sample_liboqs)" "keypair_lengths (OQS_SIG_keypair sample_liboqs)"
  by (simp_all add: keypair_lengths_def sample_liboqs_def)

lemma sample_keygen_fits:
  "3 \<le> length_private_key i \<Longrightarrow> keygen_fits sample_openssl i"
  by (auto simp: keygen_fits_def encodings_fit_def classic_pub_enc_def classic_priv_enc_def
      sample_openssl_def sample_pub_def sample_priv_def)

lemma oqsx_key_gen_safe_witness:
  "fst (oqsx_key_gen sample_liboqs sample_openssl (\<lambda>_. True) 7 9 x25519_mlkem) \<noteq> Inl UB"
proof -
  have "keygen_fits sample_openssl i" if "evp_info x25519_mlkem = Some i" for i
    using that by (intro sample_keygen_fits) (auto simp: x25519_mlkem_def sample_key_def)
  from oqsx_key_gen_safe [OF sample_lengths this sample_keys_wf(1)] show ?thesis by blast
qed

definition uses_kem :: "oqsx_key_type \<Rightarrow> bool" where
  "uses_kem t \<longleftrightarrow> t = KEY_TYPE_KEM \<or> is_hyb_kem t"

definition classic_bits :: "oqsx_key_type \<Rightarrow> evp_info \<Rightarrow> nat" where
  "classic_bits t i = (if t = KEY_TYPE_HYB_SIG then rsa_keygen_bits i else 0)"

lemma gen_stores:
  assumes "wf_key k" and "ok A_PUBKEY" and "ok A_PRIVKEY"
    and "(if uses_kem (keytype k) then OQS_KEM_keypair L else OQS_SIG_keypair L) (qs k) rq
           = Some (pk, sk)"
    and "length pk = qs_length_public_key (qs k)" and "length sk = qs_length_secret_key (qs k)"
    and "\<And>i. evp_info k = Some i \<Longrightarrow>
           EVP_PKEY_keygen E i (classic_bits (keytype k) i) rc = Some p \<and> encodes E i p b s"
  shows "\<exists>k'. oqsx_key_gen L E ok rc rq k = (Inr 0, k') \<and> same_key k k' \<and> wf_key k' \<and> comps_ok k' \<and>
           holds_pq k' pk sk \<and> (is_hybrid (keytype k) \<longrightarrow> holds_classic k' p b s)"
proof -
  let ?k = "with_buffers k"
  have i: "inv k ?k" using wf_with_buffers [OF assms(1)] .
  then have wf: "wf_key ?k" and f: "keytype ?k = keytype k" "qs ?k = qs k" "evp_info ?k = evp_info k"
    using same_key_fields [of k ?k] by (auto simp: inv_def)
  obtain pb sb where b: "pubkey ?k = Some pb" "privkey ?k = Some sb"
    using i by (auto simp: inv_def)
  have body: "oqsx_key_gen L E ok rc rq k = gen_body L E rc rq 0 (keytype k) ?k"
  proof (cases "privkey k = None \<or> pubkey k = None")
    case True
    then show ?thesis
      by (simp add: oqsx_key_gen_def st_simps bindS_def alloc_both_ok [OF assms(2,3)])
  next
    case False
    then obtain a b where "privkey k = Some a" "pubkey k = Some b" by auto
    moreover from this have "?k = k" by (simp add: with_buffers_def)
    ultimately show ?thesis by (simp add: oqsx_key_gen_def st_simps)
  qed
  have sm: "same_key k (hybrid_result ?k n m p pb sb b s pk sk)" for n m
    using i by (simp add: inv_def hybrid_result_def Let_def)
  show ?thesis
  proof (cases "is_hybrid (keytype k)")
    case False
    then have "gen_body L E rc rq 0 (keytype k) = gen_plain L rq (uses_kem (keytype k))"
      by (cases "keytype k") (auto simp: gen_body_def uses_kem_def is_hybrid_def is_hyb_kem_def)
    with body gen_plain_eq [OF wf _ b(2,1), of pk sk "uses_kem (keytype k)" L rq]
      plain_result_holds [OF wf _ b(2,1), of pk sk] assms f False i
    show ?thesis by (auto simp: inv_def)
  next
    case True
    with wf f have "\<exists>i. evp_info ?k = Some i" by (auto simp: wf_key_def wf_shape_def)
    then obtain i where i: "evp_info ?k = Some i" ..
    then have cl: "EVP_PKEY_keygen E i (classic_bits (keytype k) i) rc = Some p" "encodes E i p b s"
      using assms(7) f by auto
    note le = encodes_le [OF cl(2)]
    show ?thesis
    proof (cases "is_hyb_kem (keytype k)")
      case kem: True
      then have "gen_body L E rc rq 0 (keytype k) = gen_hyb_kem L E rc rq"
        and ne: "keytype k \<noteq> KEY_TYPE_HYB_SIG" and uk: "uses_kem (keytype k)"
        by (auto simp: gen_body_def is_hyb_kem_def uses_kem_def)
      moreover have "gen_hyb_kem L E rc rq ?k = (Inr 0,
          hybrid_result ?k (length_public_key i) (length_private_key i) p pb sb b s pk sk)"
        using cl kem f uk ne assms(4-6)
        by (intro gen_hyb_kem_eq [OF wf _ i b(2,1)]) (auto simp: classic_bits_def)
      ultimately show ?thesis
        using body sm True f le assms(5,6)
          hybrid_result_holds [OF wf _ i b(2,1), of pk sk b "length_public_key i" s "length_private_key i" p]
        by auto
    next
      case False
      with True have sig: "keytype k = KEY_TYPE_HYB_SIG" by (simp add: is_hybrid_def)
      moreover have "gen_hyb_sig L E rc rq 0 ?k = (Inr 0,
          hybrid_result ?k (length b) (length s) p pb sb b s pk sk)"
        using cl sig f assms(4-6)
        by (intro gen_hyb_sig_eq [OF wf _ i b(2,1)]) (auto simp: classic_bits_def uses_kem_def is_hyb_kem_def)
      ultimately show ?thesis
        using body sm True f le assms(5,6)
          hybrid_result_holds [OF wf _ i b(2,1), of pk sk b "length b" s "length s" p]
        by (auto simp: gen_body_def)
    qed
  qed
qed

text \<open>
  C4: When the generators succeed, \<open>oqsx_key_gen\<close> returns 0 and the key holds exactly the
  generated material: its component pointers designate the post-quantum key pair, and for a
  hybrid key the encodings of the classical key pair, with their lengths in the two headers,
  in the order the key's share order demands.
\<close>

theorem oqsx_key_gen_stores:
  assumes "wf_key k" and "ok A_PUBKEY" and "ok A_PRIVKEY"
    and "(if uses_kem (keytype k) then OQS_KEM_keypair L else OQS_SIG_keypair L) (qs k) rq
           = Some (pk, sk)"
    and "length pk = qs_length_public_key (qs k)" and "length sk = qs_length_secret_key (qs k)"
    and "\<And>i. evp_info k = Some i \<Longrightarrow>
           EVP_PKEY_keygen E i (classic_bits (keytype k) i) rc = Some p \<and> encodes E i p b s"
  shows "\<exists>k'. oqsx_key_gen L E ok rc rq k = (Inr 0, k') \<and> same_key k k' \<and> wf_key k' \<and> comps_ok k' \<and>
           holds_pq k' pk sk \<and> (is_hybrid (keytype k) \<longrightarrow> holds_classic k' p b s)"
  using assms by (rule gen_stores)

lemma sample_encodes:
  "2 \<le> length_private_key i \<Longrightarrow> EVP_PKEY_keygen sample_openssl i bits r = Some p \<Longrightarrow>
     \<not> raw_key_support i \<longrightarrow> 3 \<le> length_private_key i \<Longrightarrow>
     encodes sample_openssl i p (sample_pub p) (sample_priv p)"
  by (auto simp: encodes_def classic_pub_enc_def classic_priv_enc_def len_matches_def
      sample_openssl_def sample_pub_def sample_priv_def sample_parse_def)

lemma oqsx_key_gen_stores_witness:
  "\<exists>k'. oqsx_key_gen sample_liboqs sample_openssl (\<lambda>_. True) 7 9 p256_mldsa = (Inr 0, k')
     \<and> holds_pq k' (replicate 4 9) (replicate 5 9)"
proof -
  let ?p = "(EVP_PKEY_EC, 65, 120, 7) :: sample_pkey"
  have "EVP_PKEY_keygen sample_openssl i (classic_bits KEY_TYPE_HYB_SIG i) 7 = Some ?p
      \<and> encodes sample_openssl i ?p (sample_pub ?p) (sample_priv ?p)"
    if "evp_info p256_mldsa = Some i" for i
    using that sample_encodes [of i _ 7 ?p]
    by (auto simp: p256_mldsa_def sample_key_def sample_openssl_def)
  moreover have "OQS_SIG_keypair sample_liboqs sample_qs 9 = Some (replicate 4 9, replicate 5 9)"
    by (simp add: sample_liboqs_def sample_qs_def)
  ultimately show ?thesis
    using oqsx_key_gen_stores [OF sample_keys_wf(3), of "\<lambda>_. True" sample_liboqs 9 "replicate 4 9"
        "replicate 5 9" sample_openssl 7 ?p "sample_pub ?p" "sample_priv ?p"]
    by (auto simp: p256_mldsa_def sample_key_def sample_qs_def uses_kem_def is_hyb_kem_def)
qed

text \<open>
  C31: A failed classical key generation is reported as success: \<open>oqsx_key_gen\<close> on a fresh hybrid
  key returns 0, without a classical key and without having generated the post-quantum one.
\<close>

theorem oqsx_key_gen_classic_failure:
  assumes "wf_key k" and "ok A_PUBKEY" and "ok A_PRIVKEY"
    and "evp_info k = Some i" and "classical_pkey k = None"
    and "EVP_PKEY_keygen E i (classic_bits (keytype k) i) rc = None"
  shows "\<exists>k'. oqsx_key_gen L E ok rc rq k = (Inr 0, k') \<and> classical_pkey k' = None \<and>
    pubkey k' = pubkey (with_buffers k) \<and> privkey k' = privkey (with_buffers k)"
proof -
  let ?k = "with_buffers k"
  have "inv k ?k" using wf_with_buffers [OF assms(1)] .
  then have wf: "wf_key ?k" and f: "keytype ?k = keytype k" "evp_info ?k = evp_info k"
    using same_key_fields [of k ?k] by (auto simp: inv_def)
  have hyb: "is_hybrid (keytype ?k)"
    using wf f assms(4) by (auto simp: wf_key_def wf_shape_def split: if_splits)
  then have n: "numkeys ?k = 2" using wf by (simp add: wf_key_def wf_shape_def)
  have inf: "key_evp_info ?k = Inr i"
    using key_evp_info_hybrid [OF wf hyb] f assms(4) by simp
  obtain pb sb where b: "pubkey ?k = Some pb" "privkey ?k = Some sb"
    by (simp add: with_buffers_def)
  have c: "classical_pkey ?k = None" using assms(5) by (simp add: with_buffers_def)
  have body: "oqsx_key_gen L E ok rc rq k = gen_body L E rc rq 0 (keytype k) ?k"
  proof (cases "privkey k = None \<or> pubkey k = None")
    case True
    then show ?thesis
      by (simp add: oqsx_key_gen_def st_simps bindS_def alloc_both_ok [OF assms(2,3)])
  next
    case False
    then obtain a b where "privkey k = Some a" "pubkey k = Some b" by auto
    moreover from this have "?k = k" by (simp add: with_buffers_def)
    ultimately show ?thesis by (simp add: oqsx_key_gen_def st_simps)
  qed
  show ?thesis
  proof (cases "is_hyb_kem (keytype k)")
    case True
    then have eq: "gen_body L E rc rq 0 (keytype k) = gen_hyb_kem L E rc rq" "classic_bits (keytype k) i = 0"
      by (auto simp: gen_body_def is_hyb_kem_def classic_bits_def)
    have "evp_info ?k = Some i" using f assms(4) by simp
    note sc = set_composites_ret_eq [OF set_composites_fixed [OF wf hyb this b(2,1)]]
    show ?thesis
      using body eq assms(4,6) f inf c b n
      by (auto simp: gen_hyb_kem_def bindS_def sc comp_at_classic st_simps tryS_def
          oqsx_key_gen_evp_key_kem_def key_evp_info_def err_gen_def)
  next
    case False
    with hyb f have "keytype k = KEY_TYPE_HYB_SIG" by (simp add: is_hybrid_def)
    then show ?thesis
      using body assms(6) inf c b
      by (auto simp: gen_body_def classic_bits_def gen_hyb_sig_def bindS_def st_simps tryS_def
          oqsx_key_gen_evp_key_sig_def err_gen_def)
  qed
qed

lemma oqsx_key_gen_classic_failure_witness:
  "\<exists>k'. oqsx_key_gen sample_liboqs (sample_openssl\<lparr>EVP_PKEY_keygen := \<lambda>_ _ _. None\<rparr>)
     (\<lambda>_. True) 7 9 x25519_mlkem = (Inr 0, k') \<and> classical_pkey k' = None"
  using oqsx_key_gen_classic_failure [OF sample_keys_wf(1), of "\<lambda>_. True" info_x25519
      "sample_openssl\<lparr>EVP_PKEY_keygen := \<lambda>_ _ _. None\<rparr>" 7 sample_liboqs 9]
  by (auto simp: x25519_mlkem_def sample_key_def)

end
