(* ===== verification/Key_Codec.thy ===== *)
theory Key_Codec
  imports Key_Gen
begin

text \<open>
  Keys to and from their encodings (\<^verbatim>\<open>oqsprov_keys.c\<close>, \<^verbatim>\<open>oqs_encode_key2any.c\<close>): the re-creation of
  a key from the bytes of a SubjectPublicKeyInfo or a PKCS#8 structure, the re-creation of the
  classical key object, the import from parameters, and the two encoders that produce those
  bytes. The layout of the bytes of a private key is the header, the classical and the
  post-quantum private part and then the post-quantum public part.
\<close>

subsection \<open>\<^verbatim>\<open>oqsx_key_recreate_classickey\<close>\<close>

datatype oqsx_key_op_t = KEY_OP_PUBLIC | KEY_OP_PRIVATE | KEY_OP_KEYGEN

definition set_classical :: "'p \<Rightarrow> ('p oqsx_key, unit) st" where
  "set_classical p = modS (\<lambda>k. k\<lparr>classical_pkey := Some p\<rparr>)"

definition header_of :: "bytes option \<Rightarrow> nat res" where
  "header_of buf = bindR (of_option UB buf) (\<lambda>b. bindR (rd b 0 SIZE_OF_UINT32) (\<lambda>h. Inr (dec32 h)))"

definition parse_classic_pub :: "'p openssl \<Rightarrow> evp_info \<Rightarrow> bytes \<Rightarrow> 'p option" where
  "parse_classic_pub E i b =
     (if raw_key_support i then EVP_PKEY_new_raw_public_key E (ei_keytype i) b
      else d2i_PublicKey E (ei_keytype i)
        (if ei_keytype i = EVP_PKEY_RSA then None else setECParams_der (ei_nid i)) b)"

definition recreate_public :: "'p openssl \<Rightarrow> evp_info \<Rightarrow> ('p oqsx_key, unit) st" where
  "recreate_public E i =
     bindS (readS (\<lambda>k. header_of (pubkey k))) (\<lambda>n.
     thenS (ensureS (n \<le> length_public_key i) (Raise INVALID_ENCODING))
     (bindS (readS (\<lambda>k. read_comp (comp_pubkey k) (idx_classic k) (pubkey k) n)) (\<lambda>b.
      bindS (liftS (of_option (Raise INVALID_ENCODING) (parse_classic_pub E i b))) set_classical)))"

text \<open>
  The classical public key is stored at the public component pointer. Given a NULL pointer the
  raw reader only reports the length and \<^verbatim>\<open>i2d_PublicKey\<close> allocates a buffer of its own.
\<close>

definition comp_or_null :: "cptr list \<Rightarrow> nat \<Rightarrow> nat option res" where
  "comp_or_null ps i =
     (if i < length ps then case ps ! i of Off n \<Rightarrow> Inr (Some n) | Null \<Rightarrow> Inr None | Uninit \<Rightarrow> Inl UB
      else Inl UB)"

definition store_classic_pub :: "'p openssl \<Rightarrow> evp_info \<Rightarrow> 'p \<Rightarrow> ('p oqsx_key, unit) st" where
  "store_classic_pub E i p =
     bindS (readS (\<lambda>k. comp_or_null (comp_pubkey k) (idx_classic k))) (\<lambda>at.
     if raw_key_support i then
       bindS (liftS (of_option (Raise INVALID_ENCODING) (EVP_PKEY_get_raw_public_key E p))) (\<lambda>b.
       thenS (ensureS (length b = length_public_key i) (Raise INVALID_ENCODING))
       (case at of None \<Rightarrow> retS () | Some off \<Rightarrow> write_pub off b))
     else
       bindS (liftS (of_option (Raise INVALID_ENCODING) (i2d_PublicKey E p))) (\<lambda>b.
       thenS (case at of None \<Rightarrow> retS () | Some off \<Rightarrow> write_pub off b)
       (ensureS (length b = length_public_key i) (Raise INVALID_ENCODING))))"

definition recreate_private :: "'p openssl \<Rightarrow> evp_info \<Rightarrow> ('p oqsx_key, unit) st" where
  "recreate_private E i =
     bindS (readS (\<lambda>k. header_of (privkey k))) (\<lambda>n.
     thenS (ensureS (n \<le> length_private_key i) (Raise INVALID_ENCODING))
     (bindS (readS (\<lambda>k. read_comp (comp_privkey k) (idx_classic k) (privkey k) n)) (\<lambda>s.
      bindS (liftS (of_option (Raise INVALID_ENCODING)
         (if raw_key_support i then EVP_PKEY_new_raw_private_key E (ei_keytype i) s
          else d2i_PrivateKey E (ei_keytype i) s))) (\<lambda>p.
      thenS (set_classical p) (store_classic_pub E i p)))))"

definition oqsx_key_recreate_classickey :: "'p openssl \<Rightarrow> oqsx_key_op_t \<Rightarrow> ('p oqsx_key, unit) st" where
  "oqsx_key_recreate_classickey E op =
     bindS (getS (\<lambda>k. k)) (\<lambda>k0.
     if numkeys k0 = 2 then
       bindS (liftS (of_option (Raise EVPINFO_MISSING) (evp_info k0))) (\<lambda>i.
       (case op of
         KEY_OP_PUBLIC \<Rightarrow> recreate_public E i
       | KEY_OP_PRIVATE \<Rightarrow> recreate_private E i
       | KEY_OP_KEYGEN \<Rightarrow> retS ()))
     else retS ())"

subsection \<open>\<^verbatim>\<open>oqsx_key_op\<close>\<close>

text \<open>The algorithm identifier of the structure: its parameters' type and its object's NID.\<close>

record x509_algor =
  params_undef :: bool
  alg_nid :: int

definition allocS :: "allocs \<Rightarrow> bool \<Rightarrow> ('p oqsx_key, unit) st" where
  "allocS ok include_private = (\<lambda>k.
     case oqsx_key_allocate_keymaterial ok include_private k of (r, k') \<Rightarrow>
       (if r \<noteq> 0 then Inl (Raise MALLOC_FAILURE) else Inr (), k'))"

definition key_op_public :: "allocs \<Rightarrow> bytes \<Rightarrow> ('p oqsx_key, unit) st" where
  "key_op_public ok p =
     bindS (getS pubkeylen) (\<lambda>n.
     thenS (ensureS (n = length p) (Raise INVALID_ENCODING))
     (thenS (allocS ok False) (write_pub 0 p)))"

text \<open>The length of the header, the classical and the post-quantum private part in the bytes.\<close>

definition actual_privkeylen :: "'p oqsx_key \<Rightarrow> bytes \<Rightarrow> nat res" where
  "actual_privkeylen k p =
     (if numkeys k = 2 then
        (let pq = qs_length_secret_key (qs k) + qs_length_public_key (qs k) in
         if length p > SIZE_OF_UINT32 + pq then
           bindR (of_option UB (evp_info k)) (\<lambda>i.
           let space = length p - pq - SIZE_OF_UINT32 in
           bindR (ensure (space \<le> length_private_key i) (Raise INVALID_ENCODING)) (\<lambda>_.
           bindR (rd p 0 SIZE_OF_UINT32) (\<lambda>h.
           bindR (ensure (dec32 h = space) (Raise INVALID_ENCODING)) (\<lambda>_.
           Inr (privkeylen k - (length_private_key i - dec32 h))))))
         else Inl (Raise INVALID_ENCODING))
      else Inr (privkeylen k))"

definition store_oqs_pub :: "bytes \<Rightarrow> nat \<Rightarrow> ('p oqsx_key, unit) st" where
  "store_oqs_pub p actual =
     bindS (getS (\<lambda>k. k)) (\<lambda>k0.
     if numkeys k0 = 2 then
       bindS (liftS (of_option UB (evp_info k0))) (\<lambda>i.
       thenS (write_pub 0 (enc32 (length_public_key i)))
       (write_pub (if reverse_share k0 then SIZE_OF_UINT32 else SIZE_OF_UINT32 + length_public_key i)
          (drop actual p)))
     else write_pub 0 (drop (privkeylen k0) p))"

definition key_op_private :: "allocs \<Rightarrow> bytes \<Rightarrow> ('p oqsx_key, unit) st" where
  "key_op_private ok p =
     bindS (readS (\<lambda>k. actual_privkeylen k p)) (\<lambda>actual.
     bindS (getS oqsx_key_get_oqs_public_key_len) (\<lambda>publen.
     thenS (ensureS (actual + publen = length p) (Raise INVALID_ENCODING))
     (thenS (allocS ok True)
     (thenS (allocS ok False)
     (bindS (liftS (rd p 0 actual)) (\<lambda>priv.
      thenS (write_priv 0 priv)
      (thenS (ensureS (publen = length p - actual) (Raise INVALID_ENCODING))
      (store_oqs_pub p actual))))))))"

definition key_op_body :: "'p openssl \<Rightarrow> allocs \<Rightarrow> bytes \<Rightarrow> oqsx_key_op_t \<Rightarrow> ('p oqsx_key, unit) st" where
  "key_op_body E ok p op =
     thenS (if op = KEY_OP_PUBLIC then key_op_public ok p else key_op_private ok p)
     (bindS (getS (\<lambda>k. is_hyb_kem (keytype k))) (\<lambda>fixed.
      thenS (oqsx_key_set_composites fixed) (oqsx_key_recreate_classickey E op)))"

text \<open>
  The parameters of key creation that the process holds: the NID table, OpenSSL's short names,
  and the outcomes of its set-up calls and of the allocator.
\<close>

record key_env =
  env_tbl :: "nid_entry list"
  env_sn :: "int \<Rightarrow> string option"
  env_calls :: evp_calls
  env_ok :: allocs

definition oqsx_key_op ::
    "liboqs \<Rightarrow> 'p openssl \<Rightarrow> key_env \<Rightarrow> x509_algor option \<Rightarrow> bytes option \<Rightarrow> oqsx_key_op_t
      \<Rightarrow> nat \<Rightarrow> string option \<Rightarrow> 'p oqsx_key res" where
  "oqsx_key_op L E env palg p op lc pq =
     bindR (case palg of None \<Rightarrow> Inr 0
            | Some a \<Rightarrow> bindR (ensure (params_undef a) (Raise INVALID_ENCODING)) (\<lambda>_. Inr (alg_nid a))) (\<lambda>nid.
     bindR (of_option (Raise INVALID_ENCODING) p) (\<lambda>p.
     bindR (ensure (nid \<noteq> 0) (Raise INVALID_ENCODING)) (\<lambda>_.
     (case oqsx_key_new_from_nid L (env_calls env) (env_ok env) (env_tbl env) (env_sn env) lc pq nid of
       Inl UB \<Rightarrow> Inl UB
     | Inl _ \<Rightarrow> Inl (Raise MALLOC_FAILURE)
     | Inr key \<Rightarrow> (case key_op_body E (env_ok env) p op key of
           (Inr _, key') \<Rightarrow> Inr key'
         | (Inl e, _) \<Rightarrow> Inl e)))))"

text \<open>An X.509 public key or a PKCS#8 structure, as OpenSSL's accessors present it.\<close>

record asn1_key =
  ak_alg :: "x509_algor option"
  ak_bytes :: "bytes option"

definition oqsx_key_from_x509pubkey ::
    "liboqs \<Rightarrow> 'p openssl \<Rightarrow> key_env \<Rightarrow> asn1_key option \<Rightarrow> nat \<Rightarrow> string option \<Rightarrow> 'p oqsx_key res" where
  "oqsx_key_from_x509pubkey L E env xpk lc pq =
     (case xpk of
       None \<Rightarrow> Inl Quiet
     | Some x \<Rightarrow> oqsx_key_op L E env (ak_alg x) (ak_bytes x) KEY_OP_PUBLIC lc pq)"

definition oqsx_key_from_pkcs8 ::
    "liboqs \<Rightarrow> 'p openssl \<Rightarrow> key_env \<Rightarrow> asn1_key option \<Rightarrow> nat \<Rightarrow> string option \<Rightarrow> 'p oqsx_key res" where
  "oqsx_key_from_pkcs8 L E env p8inf lc pq =
     (case p8inf of
       None \<Rightarrow> Inl Quiet
     | Some x \<Rightarrow> oqsx_key_op L E env (ak_alg x)
         (Option.bind (ak_bytes x) (d2i_ASN1_OCTET_STRING E)) KEY_OP_PRIVATE lc pq)"

subsection \<open>\<^verbatim>\<open>oqsx_key_fromdata\<close>\<close>

record ossl_param =
  op_octets :: bool
  op_data :: bytes

text \<open>
  A buffer is freed before its successor is allocated, so from then on the old component
  pointers are indeterminate.
\<close>

definition replace_priv :: "allocs \<Rightarrow> bytes \<Rightarrow> ('p oqsx_key, unit) st" where
  "replace_priv ok d =
     thenS (modS (\<lambda>k. k\<lparr>privkey := None, comp_privkey := map (\<lambda>_. Uninit) (comp_privkey k)\<rparr>))
     (thenS (ensureS (ok A_PRIVKEY) (Raise MALLOC_FAILURE))
      (modS (\<lambda>k. k\<lparr>privkey := Some d\<rparr>)))"

definition replace_pub :: "allocs \<Rightarrow> bytes \<Rightarrow> ('p oqsx_key, unit) st" where
  "replace_pub ok d =
     thenS (modS (\<lambda>k. k\<lparr>pubkey := None, comp_pubkey := map (\<lambda>_. Uninit) (comp_pubkey k)\<rparr>))
     (thenS (ensureS (ok A_PUBKEY) (Raise MALLOC_FAILURE))
      (modS (\<lambda>k. k\<lparr>pubkey := Some d\<rparr>)))"

definition oqsx_key_fromdata ::
    "'p openssl \<Rightarrow> allocs \<Rightarrow> ossl_param option \<Rightarrow> ossl_param option \<Rightarrow> bool \<Rightarrow> ('p oqsx_key, unit) st" where
  "oqsx_key_fromdata E ok pp1 pp2 include_private =
     thenS (ensureS (pp1 \<noteq> None \<or> pp2 \<noteq> None) (Raise WRONG_PARAMETERS))
     (thenS (case pp1 of
         Some d \<Rightarrow> if include_private then
           thenS (ensureS (op_octets d) (Raise INVALID_ENCODING))
           (bindS (getS privkeylen) (\<lambda>n.
            thenS (ensureS (n = length (op_data d)) (Raise INVALID_SIZE)) (replace_priv ok (op_data d))))
           else retS ()
       | None \<Rightarrow> retS ())
     (thenS (case pp2 of
         Some d \<Rightarrow>
           thenS (ensureS (op_octets d) Quiet)
           (bindS (getS pubkeylen) (\<lambda>n.
            thenS (ensureS (n = length (op_data d)) (Raise INVALID_SIZE)) (replace_pub ok (op_data d))))
       | None \<Rightarrow> retS ())
     (bindS (getS (\<lambda>k. is_hyb_kem (keytype k))) (\<lambda>fixed.
      thenS (oqsx_key_set_composites fixed)
      (bindS (getS (\<lambda>k. if privkey k \<noteq> None then KEY_OP_PRIVATE else KEY_OP_PUBLIC)) (\<lambda>op.
       oqsx_key_recreate_classickey E op))))))"

subsection \<open>The encoders\<close>

text \<open>\<^verbatim>\<open>oqsx_spki_pub_to_der\<close>: \<open>ok\<close> is the outcome of \<^verbatim>\<open>OPENSSL_memdup\<close>.\<close>

definition oqsx_spki_pub_to_der :: "bool \<Rightarrow> 'p oqsx_key option \<Rightarrow> bytes res" where
  "oqsx_spki_pub_to_der ok key =
     bindR (of_option (Raise PASSED_NULL_PARAMETER) key) (\<lambda>k.
     bindR (of_option (Raise PASSED_NULL_PARAMETER) (pubkey k)) (\<lambda>b.
     bindR (ensure ok (Raise MALLOC_FAILURE)) (\<lambda>_.
     rd b 0 (pubkeylen k))))"

text \<open>
  \<^verbatim>\<open>oqsx_pki_priv_to_der\<close>, in the widths the code uses: \<^verbatim>\<open>privkeylen\<close>, \<^verbatim>\<open>buflen\<close> and the decoded
  header are \<^verbatim>\<open>uint32_t\<close>, the sizes of liboqs and of the tables \<^verbatim>\<open>size_t\<close>. Copying more than the
  allocated \<^verbatim>\<open>buflen\<close> bytes is undefined.
\<close>

definition stored_privkeylen :: "'p oqsx_key \<Rightarrow> bytes \<Rightarrow> 32 word res" where
  "stored_privkeylen k sb =
     (let n = (of_nat (privkeylen k) :: 32 word) in
      if numkeys k > 1 then
        bindR (of_option UB (evp_info k)) (\<lambda>i.
        bindR (rd sb 0 SIZE_OF_UINT32) (\<lambda>h.
        let actual = DECODE_UINT32 h;
            space = (ucast (n - of_nat SIZE_OF_UINT32) :: 64 word) - of_nat (qs_length_secret_key (qs k));
            maxlen = (of_nat (length_private_key i) :: 64 word)
        in if ucast actual > maxlen \<or> ucast actual > space then Inl (Raise INVALID_ENCODING)
           else Inr (n - ucast (maxlen - ucast actual))))
      else Inr n)"

definition oqsx_pki_priv_to_der :: "'p openssl \<Rightarrow> bool \<Rightarrow> 'p oqsx_key option \<Rightarrow> bytes res" where
  "oqsx_pki_priv_to_der E ok key =
     bindR (of_option (Raise PASSED_NULL_PARAMETER) key) (\<lambda>k.
     bindR (of_option (Raise PASSED_NULL_PARAMETER) (privkey k)) (\<lambda>sb.
     bindR (of_option (Raise PASSED_NULL_PARAMETER) (pubkey k)) (\<lambda>_.
     bindR (stored_privkeylen k sb) (\<lambda>n.
     let publen = oqsx_key_get_oqs_public_key_len k; buflen = n + of_nat publen in
     bindR (ensure ok (Raise MALLOC_FAILURE)) (\<lambda>_.
     bindR (rd sb 0 (unat n)) (\<lambda>priv.
     bindR (read_comp (comp_pubkey k) (if reverse_share k then 0 else numkeys k - 1) (pubkey k) publen) (\<lambda>pub.
     bindR (ensure (unat n + publen \<le> unat buflen) UB) (\<lambda>_.
     of_option (Raise MALLOC_FAILURE) (i2d_ASN1_OCTET_STRING E (priv @ pub))))))))))"

subsection \<open>Re-creation is memory safe\<close>

text \<open>
  \<open>hb pp ss k0 k\<close>: \<open>k\<close> is well-formed and has the fixed fields of \<open>k0\<close>; it has a public buffer if
  \<open>pp\<close> and a private one if \<open>ss\<close>.
\<close>

definition hb :: "bool \<Rightarrow> bool \<Rightarrow> 'p oqsx_key \<Rightarrow> 'p oqsx_key \<Rightarrow> bool" where
  "hb pp ss k0 k \<longleftrightarrow> wf_key k \<and> same_key k0 k \<and> (pp \<longrightarrow> pubkey k \<noteq> None) \<and> (ss \<longrightarrow> privkey k \<noteq> None)"

abbreviation wfs :: "'p oqsx_key \<Rightarrow> 'p oqsx_key \<Rightarrow> bool" where
  "wfs \<equiv> hb False False"

lemma hb_weaken: "hb pp ss k0 k \<Longrightarrow> wfs k0 k"
  by (simp add: hb_def)

lemma wf_key_buffer_upd:
  "wf_key k \<Longrightarrow> length b = pubkeylen k \<Longrightarrow> wf_key (k\<lparr>pubkey := Some b\<rparr>)"
  "wf_key k \<Longrightarrow> privkeylen k \<le> length b \<Longrightarrow> wf_key (k\<lparr>privkey := Some b\<rparr>)"
  "wf_key k \<Longrightarrow> wf_key (k\<lparr>pubkey := None\<rparr>)" "wf_key k \<Longrightarrow> wf_key (k\<lparr>privkey := None\<rparr>)"
  by (auto simp: wf_key_def wf_shape_def wf_buffers_def classic_info_ok_def split: if_splits)

lemma safe_allocS:
  "safe (hb pp ss k0) (allocS ok False) (\<lambda>_. hb True ss k0) (wfs k0)"
  "safe (hb pp ss k0) (allocS ok True) (\<lambda>_. hb pp True k0) (wfs k0)"
  by (auto simp: safe_def hb_def allocS_def oqsx_key_allocate_keymaterial_def wf_key_buffer_upd
      split: prod.splits if_splits)

lemma safe_hb_write_pub:
  assumes "off + length d \<le> pubkeylen k0"
  shows "safe (hb True ss k0) (write_pub off d) (\<lambda>_. hb True ss k0) E"
proof (unfold safe_def, intro allI impI)
  fix s assume s: "hb True ss k0 s"
  then obtain b where b: "pubkey s = Some b" "length b = pubkeylen k0"
    using same_key_fields(8) [of k0 s] by (auto simp: hb_def wf_key_def wf_buffers_def)
  with s assms same_key_fields(8) [of k0 s]
  show "case write_pub off d s of (Inr x, s') \<Rightarrow> hb True ss k0 s' | (Inl e, s') \<Rightarrow> e \<noteq> UB \<and> E s'"
    by (auto simp: bufs_write_pub hb_def wf_key_buffer_upd)
qed

lemma safe_hb_write_priv:
  assumes "off + length d \<le> privkeylen k0"
  shows "safe (hb pp True k0) (write_priv off d) (\<lambda>_. hb pp True k0) E"
proof (unfold safe_def, intro allI impI)
  fix s assume s: "hb pp True k0 s"
  then obtain b where b: "privkey s = Some b" "privkeylen k0 \<le> length b"
    using same_key_fields(7) [of k0 s] by (auto simp: hb_def wf_key_def wf_buffers_def)
  with s assms same_key_fields(7) [of k0 s]
  show "case write_priv off d s of (Inr x, s') \<Rightarrow> hb pp True k0 s' | (Inl e, s') \<Rightarrow> e \<noteq> UB \<and> E s'"
    by (auto simp: bufs_write_priv hb_def wf_key_buffer_upd)
qed

lemma set_composites_keeps:
  "oqsx_key_set_composites fixed s = (r, s') \<Longrightarrow>
     pubkey s' = pubkey s \<and> privkey s' = privkey s \<and> classical_pkey s' = classical_pkey s"
  by (auto simp: oqsx_key_set_composites_def oqsx_comp_set_offsets_def set_priv_offsets_def
      set_pub_offsets_def st_simps thenS_def bindS_def put_priv_def put_pub_def
      split: prod.splits sum.splits if_splits)

lemma safe_hb_set_composites:
  "safe (hb pp ss k0) (oqsx_key_set_composites fixed) (\<lambda>_ k. hb pp ss k0 k \<and> comps_ok k) (wfs k0)"
proof (unfold safe_def, intro allI impI)
  fix s assume s: "hb pp ss k0 s"
  then have "wf_key s \<and> same_key k0 s" by (simp add: hb_def)
  from safe_at [OF set_composites_safe this, of fixed] s
  show "case oqsx_key_set_composites fixed s of (Inr x, s') \<Rightarrow> hb pp ss k0 s' \<and> comps_ok s'
      | (Inl e, s') \<Rightarrow> e \<noteq> UB \<and> wfs k0 s'"
    by (auto simp: hb_def split: prod.splits sum.splits dest!: set_composites_keeps)
qed

text \<open>
  The classical part of a private key that is not a raw key decides, through OpenSSL's parser, how much
  \<^verbatim>\<open>i2d_PublicKey\<close> writes at the classical position of the public buffer. \<open>overlong_public\<close>: that is
  more than there is up to the end of the buffer. \<open>overruns\<close>: the buffers of a key hold such a part,
  behind headers that the code accepts.
\<close>

definition overlong_public :: "'p openssl \<Rightarrow> 'p oqsx_key \<Rightarrow> evp_info \<Rightarrow> bytes \<Rightarrow> bool" where
  "overlong_public E k i s \<longleftrightarrow> \<not> raw_key_support i \<and>
     (case Option.bind (d2i_PrivateKey E (ei_keytype i) s) (i2d_PublicKey E) of
        None \<Rightarrow> False
      | Some d \<Rightarrow> pubkeylen k < (if comp_reverse k then 4 + qs_length_public_key (qs k) else 4) + length d)"

definition classic_overlong :: "'p openssl \<Rightarrow> 'p oqsx_key \<Rightarrow> evp_info \<Rightarrow> bytes \<Rightarrow> bool" where
  "classic_overlong E k i sb \<longleftrightarrow> dec32 (slice sb 0 4) \<le> length_private_key i \<and>
     overlong_public E k i
       (slice sb (if comp_reverse k then 4 + qs_length_secret_key (qs k) else 4) (dec32 (slice sb 0 4)))"

definition overruns :: "'p openssl \<Rightarrow> 'p oqsx_key \<Rightarrow> bool" where
  "overruns E k \<longleftrightarrow> (case (evp_info k, privkey k, pubkey k) of
     (Some i, Some sb, Some b) \<Rightarrow> classic_overlong E k i sb \<and>
       (is_hyb_kem (keytype k) \<or> dec32 (slice b 0 4) \<le> length_public_key i)
   | _ \<Rightarrow> False)"

lemma comps_ok_upd:
  "comps_ok k \<Longrightarrow> pubkey k = Some b \<Longrightarrow> length b' = length b \<Longrightarrow> comps_ok (k\<lparr>pubkey := Some b'\<rparr>)"
  by (auto simp: comps_ok_def ptrs_ok_def buf_ptr_def split: if_splits)

lemma comp_or_null_classic:
  assumes "wf_key k" and "comps_ok k" and "is_hybrid (keytype k)"
  shows "comp_or_null (comp_pubkey k) (idx_classic k) = Inr (case pubkey k of None \<Rightarrow> None
    | Some _ \<Rightarrow> Some (if comp_reverse k then 4 + qs_length_public_key (qs k) else 4))"
  using assms
  by (auto simp: comps_ok_def ptrs_ok_def comp_or_null_def comp_ptrs_def idx_classic_def oqsx_comp_set_idx_def
      wf_key_def wf_shape_def split: option.splits)

lemma comp_priv_classic:
  assumes "wf_key k" and "comps_ok k" and "is_hybrid (keytype k)" and "privkey k = Some sb"
  shows "comp_at (comp_privkey k) (idx_classic k) =
    Inr (if comp_reverse k then 4 + qs_length_secret_key (qs k) else 4)"
  using assms
  by (auto simp: comps_ok_def ptrs_ok_def comp_at_def comp_ptrs_def idx_classic_def oqsx_comp_set_idx_def
      wf_key_def wf_shape_def)

lemma hb_info:
  assumes "hb pp ss k0 k" and "is_hybrid (keytype k0)" and "evp_info k0 = Some i"
  shows "wf_key k" "is_hybrid (keytype k)" "evp_info k = Some i"
    "pubkey k = Some pb \<Longrightarrow> 4 \<le> length pb" "privkey k = Some sb \<Longrightarrow> 4 \<le> length sb"
  using assms same_key_fields [of k0 k]
  by (auto simp: hb_def wf_key_def wf_shape_def wf_buffers_def classic_info_ok_def)

definition hbc :: "'p oqsx_key \<Rightarrow> 'p oqsx_key \<Rightarrow> bool" where
  "hbc k0 k \<longleftrightarrow> wfs k0 k \<and> comps_ok k"

lemma store_classic_pub_outcome:
  assumes hyb: "is_hybrid (keytype k0)" "evp_info k0 = Some i" and s: "hbc k0 s"
    and eq: "store_classic_pub E i p s = (r, s')"
  shows "hbc k0 s'" and "r = Inl UB \<longleftrightarrow> pubkey s \<noteq> None \<and> \<not> raw_key_support i \<and> (case i2d_PublicKey E p of
      None \<Rightarrow> False
    | Some d \<Rightarrow> pubkeylen s < (if comp_reverse s then 4 + qs_length_public_key (qs s) else 4) + length d)"
proof -
  have h: "wfs k0 s" and c: "comps_ok s" using s by (simp_all add: hbc_def)
  note w = hb_info [OF h hyb]
  let ?off = "if comp_reverse s then 4 + qs_length_public_key (qs s) else 4"
  note at = comp_or_null_classic [OF w(1) c w(2)]
  have "hbc k0 s' \<and> (r = Inl UB \<longleftrightarrow> pubkey s \<noteq> None \<and> \<not> raw_key_support i \<and> (case i2d_PublicKey E p of
      None \<Rightarrow> False | Some d \<Rightarrow> pubkeylen s < ?off + length d))"
  proof (cases "pubkey s")
    case None
    with eq s at show ?thesis
      by (auto simp: store_classic_pub_def bindS_readS st_simps thenS_def bindS_def ensure_def of_option_def
          split: option.splits if_splits)
  next
    case (Some b)
    have b: "length b = pubkeylen s" "?off + length_public_key i \<le> length b"
      using w Some by (auto simp: wf_key_def wf_buffers_def wf_shape_def classic_info_ok_def)
    have upd: "hbc k0 (s\<lparr>pubkey := Some (patch b ?off d)\<rparr>)" if "?off + length d \<le> length b" for d
    proof -
      have "wf_key (s\<lparr>pubkey := Some (patch b ?off d)\<rparr>)"
        using w(1) that b(1) by (intro wf_key_buffer_upd(1)) simp_all
      then show ?thesis
        using s Some that by (auto simp: hbc_def hb_def comps_ok_upd)
    qed
    have wr: "write_pub ?off d s = (if ?off + length d \<le> length b
        then (Inr (), s\<lparr>pubkey := Some (patch b ?off d)\<rparr>) else (Inl UB, s))" for d
      using Some by (auto simp: write_pub_def st_simps wr_def patch_def bindS_def)
    show ?thesis
    proof (cases "raw_key_support i")
      case True
      with eq s at Some b upd show ?thesis
        by (cases "EVP_PKEY_get_raw_public_key E p")
          (auto simp: store_classic_pub_def bindS_readS st_simps thenS_def bindS_def ensure_def wr
            simp del: add.commute split: if_splits)
    next
      case False
      with eq s at Some b upd show ?thesis
        by (cases "i2d_PublicKey E p")
          (auto simp: store_classic_pub_def bindS_readS st_simps thenS_def bindS_def ensure_def wr not_le
            split: if_splits)
    qed
  qed
  then show "hbc k0 s'" and "r = Inl UB \<longleftrightarrow> pubkey s \<noteq> None \<and> \<not> raw_key_support i \<and> (case i2d_PublicKey E p of
      None \<Rightarrow> False | Some d \<Rightarrow> pubkeylen s < ?off + length d)" by blast+
qed

lemma safe_then_state:
  assumes "\<And>s. P s \<Longrightarrow> case m s of (Inr x, s') \<Rightarrow> Q x s' | (Inl e, s') \<Rightarrow> e \<noteq> UB \<and> E s'"
  shows "safe P m Q E"
  using assms by (simp add: safe_def)

lemma header_of_ok: "buf = Some b \<Longrightarrow> 4 \<le> length b \<Longrightarrow> header_of buf = Inr (dec32 (slice b 0 4))"
  by (simp add: header_of_def rd_ok)

lemma safe_recreate_public:
  assumes "is_hybrid (keytype k0)" and "evp_info k0 = Some i"
  shows "safe (\<lambda>k. hb True ss k0 k \<and> comps_ok k) (recreate_public E i) (\<lambda>_. hbc k0) (hbc k0)"
proof (rule safe_then_state, elim conjE)
  fix s assume h: "hb True ss k0 s" and c: "comps_ok s"
  note w = hb_info [OF h assms]
  obtain b where b: "pubkey s = Some b" using h by (auto simp: hb_def)
  obtain off where off: "comp_at (comp_pubkey s) (idx_classic s) = Inr off" "off + length_public_key i \<le> length b"
    using comps_ok_classic(1) [OF w(1) c w(2,3) b] by blast
  have h': "hbc k0 s" using h c by (simp add: hbc_def hb_def)
  then have "hbc k0 (s\<lparr>classical_pkey := q\<rparr>)" for q
    by (simp add: hbc_def hb_def)
  with h' off b w(4) [OF b]
  show "case recreate_public E i s of (Inr x, s') \<Rightarrow> hbc k0 s' | (Inl e, s') \<Rightarrow> e \<noteq> UB \<and> hbc k0 s'"
    by (cases "parse_classic_pub E i (slice b off (dec32 (slice b 0 4)))")
      (auto simp: recreate_public_def bindS_def thenS_def st_simps header_of_ok read_comp_def rd_ok
        ensure_def set_classical_def)
qed

lemma recreate_private_outcome:
  assumes hyb: "is_hybrid (keytype k0)" "evp_info k0 = Some i" and h: "hb pp True k0 s" and c: "comps_ok s"
    and b: "privkey s = Some sb" and eq: "recreate_private E i s = (r, s')"
  shows "hbc k0 s'" and "r = Inl UB \<longleftrightarrow> pubkey s \<noteq> None \<and> classic_overlong E s i sb"
proof -
  note w = hb_info [OF h hyb]
  let ?n = "dec32 (slice sb 0 4)" and ?off = "if comp_reverse s then 4 + qs_length_secret_key (qs s) else 4"
  note at = comp_priv_classic [OF w(1) c w(2) b]
  have fit: "?off + length_private_key i \<le> length sb"
    using w b by (auto simp: wf_key_def wf_buffers_def wf_shape_def classic_info_ok_def)
  have h': "hbc k0 s" using h c by (simp add: hbc_def hb_def)
  let ?parsed = "if raw_key_support i then EVP_PKEY_new_raw_private_key E (ei_keytype i) (slice sb ?off ?n)
     else d2i_PrivateKey E (ei_keytype i) (slice sb ?off ?n)"
  have hd: "header_of (privkey s) = Inr ?n" using b w(5) [OF b] by (simp add: header_of_ok)
  have "hbc k0 s' \<and> (r = Inl UB \<longleftrightarrow> pubkey s \<noteq> None \<and> classic_overlong E s i sb)"
  proof (cases "?n \<le> length_private_key i \<and> ?parsed \<noteq> None")
    case False
    with h' at fit b hd eq show ?thesis
      by (auto simp: recreate_private_def bindS_def thenS_def st_simps read_comp_def rd_ok ensure_def
          classic_overlong_def overlong_public_def split: if_splits)
  next
    case True
    then obtain p where p: "?parsed = Some p" by auto
    have st: "store_classic_pub E i p (s\<lparr>classical_pkey := Some p\<rparr>) = (r, s')"
      using True p at fit b hd eq
      by (auto simp: recreate_private_def bindS_def thenS_def st_simps read_comp_def rd_ok ensure_def set_classical_def
          split: if_splits)
    have "hbc k0 (s\<lparr>classical_pkey := Some p\<rparr>)" using h' by (simp add: hbc_def hb_def)
    from store_classic_pub_outcome [OF hyb this st] True p show ?thesis
      by (auto simp: classic_overlong_def overlong_public_def split: option.splits if_splits)
  qed
  then show "hbc k0 s'" "r = Inl UB \<longleftrightarrow> pubkey s \<noteq> None \<and> classic_overlong E s i sb" by blast+
qed

text \<open>The last steps of every import: the component pointers and the classical key object.\<close>

definition import_tail :: "'p openssl \<Rightarrow> oqsx_key_op_t \<Rightarrow> ('p oqsx_key, unit) st" where
  "import_tail E op =
     bindS (getS (\<lambda>k. is_hyb_kem (keytype k))) (\<lambda>fixed.
      thenS (oqsx_key_set_composites fixed) (oqsx_key_recreate_classickey E op))"

lemma recreate_outcome:
  assumes h: "hb pp ss k0 s" "comps_ok s" and op: "op = KEY_OP_PUBLIC \<Longrightarrow> pp" "op = KEY_OP_PRIVATE \<Longrightarrow> ss"
    and eq: "oqsx_key_recreate_classickey E op s = (r, s')"
  shows "hbc k0 s'" and "r = Inl UB \<longleftrightarrow> op = KEY_OP_PRIVATE \<and> pubkey s \<noteq> None \<and>
    (\<exists>i sb. evp_info s = Some i \<and> privkey s = Some sb \<and> classic_overlong E s i sb)"
proof -
  have wf: "wf_key s" and sm: "same_key k0 s" and h': "hbc k0 s" using h by (simp_all add: hb_def hbc_def)
  have "hbc k0 s' \<and> (r = Inl UB \<longleftrightarrow> op = KEY_OP_PRIVATE \<and> pubkey s \<noteq> None \<and>
    (\<exists>i sb. evp_info s = Some i \<and> privkey s = Some sb \<and> classic_overlong E s i sb))"
  proof (cases "is_hybrid (keytype s)")
    case False
    with wf h' eq show ?thesis
      by (auto simp: oqsx_key_recreate_classickey_def st_simps wf_key_def wf_shape_def)
  next
    case True
    with wf obtain i where n: "numkeys s = 2" and i: "evp_info s = Some i"
      by (auto simp: wf_key_def wf_shape_def)
    have k0: "is_hybrid (keytype k0)" "evp_info k0 = Some i"
      using True i same_key_fields [OF sm] by simp_all
    note e = eq [unfolded oqsx_key_recreate_classickey_def]
    show ?thesis
    proof (cases op)
      case KEY_OP_PUBLIC
      with h op(1) have "hb True False k0 s \<and> comps_ok s" by (simp add: hb_def)
      from safe_at [OF safe_recreate_public [OF k0] this, of E] e n i KEY_OP_PUBLIC show ?thesis
        by (auto simp: st_simps split: sum.splits)
    next
      case KEY_OP_PRIVATE
      with h op(2) have hp: "hb pp True k0 s" by simp
      then obtain sb where sb: "privkey s = Some sb" by (auto simp: hb_def)
      have "recreate_private E i s = (r, s')" using e n i KEY_OP_PRIVATE by (simp add: st_simps)
      from recreate_private_outcome [OF k0 hp h(2) sb this] i sb KEY_OP_PRIVATE show ?thesis by auto
    next
      case KEY_OP_KEYGEN
      with e n i h' show ?thesis by (auto simp: st_simps)
    qed
  qed
  then show "hbc k0 s'" "r = Inl UB \<longleftrightarrow> op = KEY_OP_PRIVATE \<and> pubkey s \<noteq> None \<and>
    (\<exists>i sb. evp_info s = Some i \<and> privkey s = Some sb \<and> classic_overlong E s i sb)" by blast+
qed

lemma overruns_static:
  assumes "same_key k0 s" and "same_key k0 s1" and "privkey s1 = privkey s" and "pubkey s1 = pubkey s"
  shows "overruns E s1 = overruns E s"
proof -
  note f = same_key_fields [OF assms(1)] same_key_fields [OF assms(2)]
  have e: "comp_reverse s1 = comp_reverse s" "evp_info s1 = evp_info s" "keytype s1 = keytype s"
    "qs s1 = qs s" "pubkeylen s1 = pubkeylen s"
    by (simp_all add: comp_reverse_def f)
  show ?thesis
    by (simp only: overruns_def classic_overlong_def overlong_public_def assms(3,4) e)
qed

text \<open>The headers decide whether the component pointers can be set.\<close>

lemma set_composites_headers:
  assumes h: "hb pp ss k0 s" and i: "evp_info s = Some i" and eq: "oqsx_key_set_composites (is_hyb_kem (keytype s)) s = (r, s1)"
  shows "r = Inr () \<longleftrightarrow> is_hyb_kem (keytype s) \<or>
    (case privkey s of None \<Rightarrow> True | Some sb \<Rightarrow> dec32 (slice sb 0 4) \<le> length_private_key i) \<and>
    (case pubkey s of None \<Rightarrow> True | Some b \<Rightarrow> dec32 (slice b 0 4) \<le> length_public_key i)"
proof -
  have wf: "wf_key s" using h by (simp add: hb_def)
  then have hyb: "is_hybrid (keytype s)" using i by (auto simp: wf_key_def wf_shape_def split: if_splits)
  have n: "numkeys s = 2" "length (comp_privkey s) = 2" "length (comp_pubkey s) = 2"
    using wf hyb by (auto simp: wf_key_def wf_shape_def)
  have four: "pubkey s = Some b \<Longrightarrow> 4 \<le> length b" "privkey s = Some b \<Longrightarrow> 4 \<le> length b" for b
    using hb_info(4,5) [of False False s s i] wf hyb i by (auto simp: hb_def)
  let ?f = "is_hyb_kem (keytype s)"
  let ?s = "hyb_ptrs ?f (comp_reverse s) (qs_length_secret_key (qs s)) (length_private_key i) (privkey s)"
  let ?p = "hyb_ptrs ?f (comp_reverse s) (qs_length_public_key (qs s)) (length_public_key i) (pubkey s)"
  have res: "(\<exists>ps. ?s = Inr ps) \<longleftrightarrow> ?f \<or>
      (case privkey s of None \<Rightarrow> True | Some sb \<Rightarrow> dec32 (slice sb 0 4) \<le> length_private_key i)"
    "(\<exists>ps. ?p = Inr ps) \<longleftrightarrow> ?f \<or>
      (case pubkey s of None \<Rightarrow> True | Some b \<Rightarrow> dec32 (slice b 0 4) \<le> length_public_key i)"
    using four by (auto simp: hyb_ptrs_def classic_len_def rd_ok split: option.splits)
  show ?thesis
  proof (cases "\<exists>ps ps'. ?s = Inr ps \<and> ?p = Inr ps'")
    case True
    then obtain ps ps' where "?s = Inr ps" "?p = Inr ps'" by blast
    from set_composites_hybrid [OF n i this] eq True res show ?thesis by auto
  next
    case False
    then obtain e where "?s = Inl e \<or> (\<exists>ps. ?s = Inr ps) \<and> ?p = Inl e" by (cases ?s; cases ?p) auto
    from set_composites_fails [OF n i this] eq False res show ?thesis by auto
  qed
qed

lemma import_tail_outcome:
  assumes h: "hb pp ss k0 s" and op: "op = KEY_OP_PUBLIC \<Longrightarrow> pp" "op = KEY_OP_PRIVATE \<Longrightarrow> ss"
    and eq: "import_tail E op s = (r, s')"
  shows "wfs k0 s'" and "r = Inr () \<Longrightarrow> comps_ok s'" and "r = Inl UB \<longleftrightarrow> op = KEY_OP_PRIVATE \<and> overruns E s"
proof -
  obtain r1 s1 where c: "oqsx_key_set_composites (is_hyb_kem (keytype s)) s = (r1, s1)" by fastforce
  from safe_at [OF safe_hb_set_composites h, of "is_hyb_kem (keytype s)"] c
  have s1: "r1 = Inr () \<Longrightarrow> hb pp ss k0 s1 \<and> comps_ok s1" "r1 \<noteq> Inl UB" "wfs k0 s1"
    by (auto simp: hb_def split: sum.splits)
  have sm: "same_key k0 s" "same_key k0 s1" using h s1(3) by (simp_all add: hb_def)
  note keep = set_composites_keeps [OF c]
  have over: "overruns E s1 = overruns E s" by (rule overruns_static [OF sm]) (simp_all add: keep)
  have "wfs k0 s' \<and> (r = Inr () \<longrightarrow> comps_ok s') \<and> (r = Inl UB \<longleftrightarrow> op = KEY_OP_PRIVATE \<and> overruns E s)"
  proof (cases r1)
    case (Inl e)
    have "\<not> overruns E s"
    proof
      assume o: "overruns E s"
      then obtain i where i: "evp_info s = Some i" by (auto simp: overruns_def split: option.splits)
      from set_composites_headers [OF h i c] o i Inl show False
        by (auto simp: overruns_def classic_overlong_def split: option.splits)
    qed
    with eq c Inl s1(2,3) show ?thesis by (auto simp: import_tail_def st_simps thenS_def bindS_def)
  next
    case (Inr u)
    then have ok: "r1 = Inr ()" by simp
    have rec: "oqsx_key_recreate_classickey E op s1 = (r, s')"
      using eq c Inr by (simp add: import_tail_def st_simps thenS_def bindS_def)
    note out = recreate_outcome [OF conjunct1 [OF s1(1) [OF ok]] conjunct2 [OF s1(1) [OF ok]] op rec]
    have "evp_info s1 = evp_info s" "keytype s1 = keytype s"
      using same_key_fields [OF sm(1)] same_key_fields [OF sm(2)] by simp_all
    then have "(pubkey s1 \<noteq> None \<and> (\<exists>i sb. evp_info s1 = Some i \<and> privkey s1 = Some sb \<and> classic_overlong E s1 i sb))
        \<longleftrightarrow> overruns E s1"
      using set_composites_headers [OF h _ c] ok keep by (auto simp: overruns_def split: option.splits)
    with out over show ?thesis by (auto simp: hbc_def)
  qed
  then show "wfs k0 s'" "r = Inr () \<Longrightarrow> comps_ok s'" "r = Inl UB \<longleftrightarrow> op = KEY_OP_PRIVATE \<and> overruns E s" by blast+
qed

lemma safe_read_bind_res:
  assumes "\<And>s. P s \<Longrightarrow> g s = r" and "\<And>s. P s \<Longrightarrow> E s" and "r \<noteq> Inl UB"
    and "\<And>v. r = Inr v \<Longrightarrow> safe P (f v) Q E"
  shows "safe P (bindS (readS g) f) Q E"
  using assms by (cases r) (auto simp: safe_def bindS_def readS_def)

lemma safe_key_op_public: "safe (wfs k0) (key_op_public ok p) (\<lambda>_. hb True False k0) (wfs k0)"
  unfolding key_op_public_def
proof (rule safe_get_bind [where v = "pubkeylen k0"])
  show "pubkeylen s = pubkeylen k0" if "wfs k0 s" for s
    using that same_key_fields [of k0 s] by (simp add: hb_def)
  show "safe (wfs k0) (thenS (ensureS (pubkeylen k0 = length p) (Raise INVALID_ENCODING))
      (thenS (allocS ok False) (write_pub 0 p))) (\<lambda>_. hb True False k0) (wfs k0)"
    by (rule safe_ensure_then; (rule safe_then [OF safe_allocS(1) safe_hb_write_pub])?) simp_all
qed

lemma actual_privkeylen_static:
  assumes "same_key k0 s"
  shows "actual_privkeylen s p = actual_privkeylen k0 p"
  unfolding actual_privkeylen_def same_key_fields [OF assms] ..

lemma actual_privkeylen_ok:
  assumes "wf_key k"
  shows "actual_privkeylen k p \<noteq> Inl UB"
    and "actual_privkeylen k p = Inr n \<Longrightarrow> n \<le> privkeylen k"
    and "actual_privkeylen k p = Inr n \<Longrightarrow> n + oqsx_key_get_oqs_public_key_len k = length p \<Longrightarrow>
      is_hybrid (keytype k) \<Longrightarrow> evp_info k = Some i \<Longrightarrow>
      n = length p - qs_length_public_key (qs k) \<and> 4 + qs_length_secret_key (qs k) + dec32 (slice p 0 4) = n \<and>
      dec32 (slice p 0 4) \<le> length_private_key i"
  using assms
  by (auto simp: actual_privkeylen_def bindR_eq_UB bindR_eq_Inr Let_def wf_key_def wf_shape_def
      classic_info_ok_def oqsx_key_get_oqs_public_key_len_def is_hybrid_def is_hyb_kem_def
      split: if_splits oqsx_key_type.splits)

lemma oqs_publen: "wf_key k \<Longrightarrow> oqsx_key_get_oqs_public_key_len k = qs_length_public_key (qs k)"
  by (cases "keytype k")
    (auto simp: oqsx_key_get_oqs_public_key_len_def wf_key_def wf_shape_def is_hybrid_def is_hyb_kem_def)

lemma safe_store_oqs_pub:
  assumes wf: "wf_key k0" and len: "length p = actual + qs_length_public_key (qs k0)"
    and plain: "\<not> is_hybrid (keytype k0) \<Longrightarrow> actual = privkeylen k0"
  shows "safe (hb True True k0) (store_oqs_pub p actual) (\<lambda>_. hb True True k0) (wfs k0)"
proof (rule safe_then_state)
  fix s assume s: "hb True True k0 s"
  then have sm: "same_key k0 s" by (simp add: hb_def)
  note f = same_key_fields [OF sm]
  show "case store_oqs_pub p actual s of (Inr x, s') \<Rightarrow> hb True True k0 s'
      | (Inl e, s') \<Rightarrow> e \<noteq> UB \<and> wfs k0 s'"
  proof (cases "is_hybrid (keytype k0)")
    case False
    with wf f have "numkeys s = 1" "pubkeylen k0 = qs_length_public_key (qs k0)"
      by (auto simp: wf_key_def wf_shape_def)
    moreover have "safe (hb True True k0) (write_pub 0 (drop (privkeylen k0) p)) (\<lambda>_. hb True True k0) (wfs k0)"
      using len plain [OF False] calculation by (intro safe_hb_write_pub) simp
    from safe_at [OF this s] calculation(1) f show ?thesis
      by (simp add: store_oqs_pub_def st_simps)
  next
    case True
    with wf obtain i where i: "evp_info k0 = Some i" "numkeys k0 = 2"
      "pubkeylen k0 = 4 + qs_length_public_key (qs k0) + length_public_key i"
      by (auto simp: wf_key_def wf_shape_def classic_info_ok_def)
    let ?off = "if reverse_share k0 then 4 else 4 + length_public_key i"
    have "safe (hb True True k0) (thenS (write_pub 0 (enc32 (length_public_key i)))
        (write_pub ?off (drop actual p))) (\<lambda>_. hb True True k0) (wfs k0)"
      using len i by (intro safe_then [OF safe_hb_write_pub safe_hb_write_pub]) auto
    from safe_at [OF this s] i f show ?thesis
      by (cases "reverse_share k0") (simp_all add: store_oqs_pub_def st_simps)
  qed
qed

lemma safe_key_op_private:
  assumes wf: "wf_key k0"
  shows "safe (wfs k0) (key_op_private ok p) (\<lambda>_. hb True True k0) (wfs k0)"
  unfolding key_op_private_def
proof (rule safe_read_bind_res [where r = "actual_privkeylen k0 p"])
  show "actual_privkeylen s p = actual_privkeylen k0 p" if "wfs k0 s" for s
    using that by (simp add: hb_def actual_privkeylen_static)
  show "actual_privkeylen k0 p \<noteq> Inl UB" by (rule actual_privkeylen_ok [OF wf])
  fix n assume n: "actual_privkeylen k0 p = Inr n"
  let ?q = "qs_length_public_key (qs k0)"
  show "safe (wfs k0) (bindS (getS oqsx_key_get_oqs_public_key_len) (\<lambda>publen.
     thenS (ensureS (n + publen = length p) (Raise INVALID_ENCODING))
     (thenS (allocS ok True) (thenS (allocS ok False)
     (bindS (liftS (rd p 0 n)) (\<lambda>priv.
      thenS (write_priv 0 priv)
      (thenS (ensureS (publen = length p - n) (Raise INVALID_ENCODING)) (store_oqs_pub p n))))))))
      (\<lambda>_. hb True True k0) (wfs k0)"
  proof (rule safe_get_bind [where v = ?q], goal_cases)
    case (1 s)
    then have "wf_key s" "qs s = qs k0" using same_key_fields [of k0 s] by (simp_all add: hb_def)
    then show ?case using oqs_publen [of s] by simp
  next
    case 2
    show ?case
    proof (rule safe_ensure_then, goal_cases)
      case 3
      have "n \<le> privkeylen k0" by (rule actual_privkeylen_ok(2) [OF wf n])
      moreover have "\<not> is_hybrid (keytype k0) \<Longrightarrow> n = privkeylen k0"
        using n wf by (auto simp: actual_privkeylen_def wf_key_def wf_shape_def)
      ultimately show ?case
        using 3 by (intro safe_then [OF safe_allocS(2)] safe_then [OF safe_allocS(1)]
            safe_lift_bind [OF rd_ok] safe_then [OF safe_hb_write_priv] safe_ensure_then
            safe_store_oqs_pub [OF wf]) (auto intro: hb_weaken)
    qed simp_all
  qed
qed (simp add: hb_weaken)

text \<open>
  What a hybrid key reads of the bytes of a private key: they are accepted when they have the length that
  their header announces, and then start the private buffer.
\<close>

lemma actual_privkeylen_hybrid:
  assumes wf: "wf_key k" and i: "evp_info k = Some i"
  shows "actual_privkeylen k p = Inr n \<longleftrightarrow> n = 4 + qs_length_secret_key (qs k) + dec32 (slice p 0 4) \<and>
    0 < dec32 (slice p 0 4) \<and> dec32 (slice p 0 4) \<le> length_private_key i \<and> length p = n + qs_length_public_key (qs k)"
proof -
  have k: "numkeys k = 2" "privkeylen k = 4 + qs_length_secret_key (qs k) + length_private_key i"
    using wf i by (auto simp: wf_key_def wf_shape_def classic_info_ok_def split: if_splits)
  show ?thesis
    by (auto simp: actual_privkeylen_def bindR_eq_Inr Let_def k i)
qed

lemma key_op_private_content:
  assumes wf: "wf_key k" and i: "evp_info k = Some i" and fresh: "privkey k = None" "pubkey k = None"
    and eq: "key_op_private ok p k = (r, s)"
  defines "h \<equiv> dec32 (slice p 0 4)" and "n \<equiv> 4 + qs_length_secret_key (qs k) + dec32 (slice p 0 4)"
  shows "r = Inr () \<longleftrightarrow> 0 < h \<and> h \<le> length_private_key i \<and> length p = n + qs_length_public_key (qs k) \<and>
      ok A_PRIVKEY \<and> ok A_PUBKEY"
    and "r = Inr () \<Longrightarrow> \<exists>sb b. privkey s = Some sb \<and> slice sb 0 n = slice p 0 n \<and> pubkey s = Some b \<and>
      dec32 (slice b 0 4) = length_public_key i"
proof -
  let ?q = "qs_length_public_key (qs k)" and ?m = "length_public_key i"
  have k: "numkeys k = 2" "privkeylen k = 4 + qs_length_secret_key (qs k) + length_private_key i"
      "pubkeylen k = 4 + ?q + ?m" "ok_sizes i"
    using wf i by (auto simp: wf_key_def wf_shape_def classic_info_ok_def split: if_splits)
  note act = actual_privkeylen_hybrid [OF wf i, of p, folded n_def h_def]
  have "(r = Inr () \<longleftrightarrow> 0 < h \<and> h \<le> length_private_key i \<and> length p = n + ?q \<and> ok A_PRIVKEY \<and> ok A_PUBKEY) \<and>
    (r = Inr () \<longrightarrow> (\<exists>sb b. privkey s = Some sb \<and> slice sb 0 n = slice p 0 n \<and> pubkey s = Some b \<and>
      dec32 (slice b 0 4) = ?m))"
  proof (cases "actual_privkeylen k p")
    case (Inl e)
    with eq act [of n] show ?thesis by (auto simp: key_op_private_def bindS_def readS_def)
  next
    case (Inr n')
    with act [of n'] have a: "n' = n" "0 < h" "h \<le> length_private_key i" "length p = n + ?q" by auto
    let ?sb = "patch (replicate (privkeylen k + 4) 0) 0 (slice p 0 n)"
    let ?b0 = "patch (replicate (pubkeylen k) 0) 0 (enc32 ?m)" and ?off = "if reverse_share k then 4 else 4 + ?m"
    let ?b = "patch ?b0 ?off (drop n p)"
    have n: "n \<le> privkeylen k + 4" "n \<le> length p" using a k(2) by (simp_all add: n_def h_def)
    have fit: "?off + length (drop n p) \<le> length ?b0" using a k(3) by auto
    have sb: "slice ?sb 0 n = slice p 0 n" using n by (simp add: slice_patch_same)
    have "slice ?b 0 4 = enc32 ?m" using a(4) k(3) by (subst slice_patch_before) (auto simp: slice_patch_same)
    moreover have "dec32 (enc32 ?m) = ?m" by (rule dec32_enc32 [OF header_lt [OF k(4)]]) simp
    ultimately have hdr: "dec32 (slice ?b 0 4) = ?m" by simp
    have comm: "k\<lparr>pubkey := x, privkey := y\<rparr> = k\<lparr>privkey := y, pubkey := x\<rparr>" for x y by (cases k) simp
    have run: "key_op_private ok p k =
        (if ok A_PRIVKEY \<and> ok A_PUBKEY then (Inr (), k\<lparr>privkey := Some ?sb, pubkey := Some ?b\<rparr>)
         else (Inl (Raise MALLOC_FAILURE), if ok A_PRIVKEY then k\<lparr>privkey := Some (replicate (privkeylen k + 4) 0)\<rparr> else k))"
      using a n fit fresh oqs_publen [OF wf]
      by (simp add: key_op_private_def bindS_readS Inr st_simps rd_ok allocS_def oqsx_key_allocate_keymaterial_def
          thenS_def bindS_def bufs_write_priv store_oqs_pub_def k(1,3) i bufs_write_pub comm)
    show ?thesis
      using run eq a sb hdr by (auto split: if_splits)
  qed
  then show "r = Inr () \<longleftrightarrow> 0 < h \<and> h \<le> length_private_key i \<and> length p = n + ?q \<and> ok A_PRIVKEY \<and> ok A_PUBKEY"
    and "r = Inr () \<Longrightarrow> \<exists>sb b. privkey s = Some sb \<and> slice sb 0 n = slice p 0 n \<and> pubkey s = Some b \<and>
      dec32 (slice b 0 4) = ?m" by blast+
qed

text \<open>
  The bytes of a private key for the fresh key \<open>k\<close> that make the import overrun the public buffer: they have
  a form that the code accepts, and the public encoding of their classical part is too long.
\<close>

definition import_overruns :: "'p openssl \<Rightarrow> allocs \<Rightarrow> 'p oqsx_key \<Rightarrow> bytes \<Rightarrow> bool" where
  "import_overruns E ok k p \<longleftrightarrow> (case evp_info k of
       None \<Rightarrow> False
     | Some i \<Rightarrow> 0 < dec32 (slice p 0 4) \<and>
         length p = 4 + qs_length_secret_key (qs k) + dec32 (slice p 0 4) + qs_length_public_key (qs k) \<and>
         ok A_PRIVKEY \<and> ok A_PUBKEY \<and> classic_overlong E k i p)"

lemma same_key_hb: "hb pp ss k s \<Longrightarrow> same_key k s"
  by (simp add: hb_def)

lemma overruns_imported:
  assumes wf: "wf_key k" and fresh: "privkey k = None" "pubkey k = None"
    and eq: "key_op_private ok p k = (r, s)" and sm: "same_key k s"
  shows "r = Inr () \<and> overruns E s \<longleftrightarrow> import_overruns E ok k p"
proof (cases "evp_info k")
  case None
  with same_key_fields(4) [OF sm] show ?thesis by (simp add: overruns_def import_overruns_def)
next
  case (Some i)
  let ?h = "dec32 (slice p 0 4)" and ?s = "qs_length_secret_key (qs k)"
  note c = key_op_private_content [OF wf Some fresh eq]
  have "classic_overlong E s i sb \<longleftrightarrow> classic_overlong E k i p"
    if sb: "slice sb 0 (4 + ?s + ?h) = slice p 0 (4 + ?s + ?h)" for sb
  proof -
    have sub: "slice sb o' m = slice p o' m" if "o' + m \<le> 4 + ?s + ?h" for o' m
      using slice_slice [of o' m "4 + ?s + ?h" sb 0] slice_slice [of o' m "4 + ?s + ?h" p 0] sb that by simp
    have e: "comp_reverse s = comp_reverse k" "qs s = qs k" "pubkeylen s = pubkeylen k"
      using same_key_fields [OF sm] by (simp_all add: comp_reverse_def)
    have "slice sb 0 4 = slice p 0 4" by (rule sub) simp
    moreover have "slice sb (if comp_reverse k then 4 + ?s else 4) ?h = slice p (if comp_reverse k then 4 + ?s else 4) ?h"
      by (rule sub) simp
    ultimately show ?thesis
      by (simp only: classic_overlong_def overlong_public_def e)
  qed
  with c Some same_key_fields(4) [OF sm] show ?thesis
    by (auto simp: overruns_def import_overruns_def classic_overlong_def [of E k i p])
qed

lemma key_op_body_outcome:
  assumes wf: "wf_key k" and fresh: "privkey k = None" "pubkey k = None"
    and eq: "key_op_body E ok p op k = (r, s')"
  shows "r = Inr () \<Longrightarrow> hbc k s'" and "r = Inl UB \<longleftrightarrow> op = KEY_OP_PRIVATE \<and> import_overruns E ok k p"
proof -
  have k: "wfs k k" using wf by (simp add: hb_def)
  let ?first = "if op = KEY_OP_PUBLIC then key_op_public ok p else key_op_private ok p"
  have body: "key_op_body E ok p op = thenS ?first (import_tail E op)"
    by (simp add: key_op_body_def import_tail_def)
  have first: "safe (wfs k) ?first (\<lambda>_. hb True (op \<noteq> KEY_OP_PUBLIC) k) (wfs k)"
    using safe_key_op_public [of k ok p] safe_key_op_private [OF wf, of ok p] by simp
  obtain r1 s1 where s1: "?first k = (r1, s1)" by fastforce
  have over: "r1 = Inr () \<and> overruns E s1 \<longleftrightarrow> import_overruns E ok k p"
    if "op \<noteq> KEY_OP_PUBLIC" "same_key k s1"
    using overruns_imported [OF wf fresh _ that(2)] s1 that(1) by simp
  have "(r = Inr () \<longrightarrow> hbc k s') \<and> (r = Inl UB \<longleftrightarrow> op = KEY_OP_PRIVATE \<and> import_overruns E ok k p)"
  proof (cases r1)
    case (Inl e)
    with safe_at [OF first k] s1 have "e \<noteq> UB" "wfs k s1" by auto
    with Inl s1 eq over show ?thesis by (auto simp: body thenS_def bindS_def hb_def)
  next
    case (Inr u)
    with safe_at [OF first k] s1 have h: "hb True (op \<noteq> KEY_OP_PUBLIC) k s1" by simp
    have "import_tail E op s1 = (r, s')" using eq s1 Inr by (simp add: body thenS_def bindS_def)
    from import_tail_outcome [OF h _ _ this] over [OF _ same_key_hb [OF h]] Inr show ?thesis
      by (auto simp: hbc_def)
  qed
  then show "r = Inr () \<Longrightarrow> hbc k s'" and "r = Inl UB \<longleftrightarrow> op = KEY_OP_PRIVATE \<and> import_overruns E ok k p" by blast+
qed

lemma new_from_nid_wf:
  "oqsx_key_new_from_nid L C ok tbl sn lc pq nid = Inr k \<Longrightarrow>
     wf_key k \<and> privkey k = None \<and> pubkey k = None \<and> keytype k = get_keytype tbl nid"
  by (auto simp: oqsx_key_new_from_nid_def bindR_eq_Inr dest!: oqsx_key_new_wf)

lemma oqsx_key_op_outcome:
  fixes E :: "'p openssl"
  shows "oqsx_key_op L E env palg p op lc pq = Inl UB \<longleftrightarrow>
      (\<exists>a b. palg = Some a \<and> p = Some b \<and> params_undef a \<and> alg_nid a \<noteq> 0 \<and>
        (case (oqsx_key_new_from_nid L (env_calls env) (env_ok env) (env_tbl env) (env_sn env) lc pq (alg_nid a)
             :: 'p oqsx_key res) of
           Inl e \<Rightarrow> e = UB
         | Inr k \<Rightarrow> op = KEY_OP_PRIVATE \<and> import_overruns E (env_ok env) k b))" (is ?ub)
    and "oqsx_key_op L E env palg p op lc pq = Inr k' \<Longrightarrow>
      \<exists>a k. palg = Some a \<and> oqsx_key_new_from_nid L (env_calls env) (env_ok env) (env_tbl env) (env_sn env) lc pq
        (alg_nid a) = Inr k \<and> hbc k k'" (is "?ret \<Longrightarrow> ?ok")
proof -
  let ?new = "\<lambda>a. oqsx_key_new_from_nid L (env_calls env) (env_ok env) (env_tbl env) (env_sn env) lc pq (alg_nid a)
    :: 'p oqsx_key res"
  have "?ub \<and> (?ret \<longrightarrow> ?ok)"
  proof (cases "\<exists>a b k. palg = Some a \<and> p = Some b \<and> params_undef a \<and> alg_nid a \<noteq> 0 \<and> ?new a = Inr k")
    case False
    then show ?thesis
      by (auto simp: oqsx_key_op_def bindR_def ensure_def of_option_def
          split: option.splits sum.splits failure.splits if_splits)
  next
    case True
    then obtain a b k where a: "palg = Some a" "p = Some b" "params_undef a" "alg_nid a \<noteq> 0" and k: "?new a = Inr k"
      by blast
    obtain r s where body: "key_op_body E (env_ok env) b op k = (r, s)" by fastforce
    then have eq: "oqsx_key_op L E env palg p op lc pq = (case r of Inl e \<Rightarrow> Inl e | Inr _ \<Rightarrow> Inr s)"
      using a k by (simp add: oqsx_key_op_def split: sum.split)
    from new_from_nid_wf [OF k] have "wf_key k" "privkey k = None" "pubkey k = None" by simp_all
    from key_op_body_outcome [OF this body] show ?thesis
      unfolding eq using a k by (auto split: sum.splits)
  qed
  then show ?ub and "?ret \<Longrightarrow> ?ok" by blast+
qed

text \<open>
  C18: Reading a key from the bytes of a SubjectPublicKeyInfo or a PKCS#8 structure, for every content of the
  structure: the behaviour is undefined in exactly two cases, when the creation of the empty key is
  (for the NIDs the provider registers it never is), and when a private key is read whose classical
  part decodes to a key with a public encoding too long for the buffer it is written to before its
  length is checked. A key that is returned satisfies the key invariant, its component pointers lie
  inside its buffers and it has the type registered for the identifier in the structure.
\<close>

theorem oqsx_key_op_exact:
  fixes E :: "'p openssl"
  shows "(oqsx_key_op L E env palg p op lc pq = Inl UB \<longleftrightarrow>
      (\<exists>a b. palg = Some a \<and> p = Some b \<and> params_undef a \<and> alg_nid a \<noteq> 0 \<and>
        (case (oqsx_key_new_from_nid L (env_calls env) (env_ok env) (env_tbl env) (env_sn env) lc pq (alg_nid a)
             :: 'p oqsx_key res) of
           Inl e \<Rightarrow> e = UB
         | Inr k \<Rightarrow> op = KEY_OP_PRIVATE \<and> import_overruns E (env_ok env) k b))) \<and>
    (case oqsx_key_op L E env palg p op lc pq of
       Inl e \<Rightarrow> True
     | Inr k \<Rightarrow> wf_key k \<and> comps_ok k \<and>
         (\<exists>a. palg = Some a \<and> keytype k = get_keytype (env_tbl env) (alg_nid a)))"
proof (rule conjI [OF oqsx_key_op_outcome(1)])
  show "case oqsx_key_op L E env palg p op lc pq of
       Inl e \<Rightarrow> True
     | Inr k \<Rightarrow> wf_key k \<and> comps_ok k \<and>
         (\<exists>a. palg = Some a \<and> keytype k = get_keytype (env_tbl env) (alg_nid a))"
    using oqsx_key_op_outcome(2) [of L E env palg p op lc pq] new_from_nid_wf same_key_fields(1)
    by (fastforce simp: hbc_def hb_def split: sum.splits)
qed

text \<open>
  C22: When the classical key in a private key is not a raw key, \<^verbatim>\<open>i2d_PublicKey\<close> stores its public
  part before the code compares the length: the behaviour is undefined exactly when the part does
  not fit between the classical component and the end of the buffer; a part of a wrong length that
  does fit is reported, after it has overwritten the bytes behind the component.
\<close>

theorem classic_pub_overflow:
  assumes "wf_key k" and "comps_ok k" and "is_hybrid (keytype k)" and "evp_info k = Some i"
    and "\<not> raw_key_support i" and "i2d_PublicKey E p = Some d" and "pubkey k = Some b"
    and "off = (if comp_reverse k then 4 + qs_length_public_key (qs k) else 4)"
  shows "store_classic_pub E i p k =
    (if length b < off + length d then (Inl UB, k)
     else (if length d = length_public_key i then Inr () else Inl (Raise INVALID_ENCODING),
           k\<lparr>pubkey := Some (patch b off d)\<rparr>))"
proof -
  have "comp_or_null (comp_pubkey k) (idx_classic k) = Inr (Some off)"
    using assms by (auto simp: comps_ok_def ptrs_ok_def comp_or_null_def comp_ptrs_def idx_classic_def
        oqsx_comp_set_idx_def wf_key_def wf_shape_def)
  then show ?thesis
    using assms
    by (auto simp: store_classic_pub_def bindS_readS st_simps thenS_def bindS_def write_pub_def
        ensure_def not_less wr_def patch_def)
qed

subsection \<open>What the encoders emit\<close>

text \<open>
  The bytes of the private buffer that the components use: all of them for a plain key; for a
  hybrid one the header, the classical part at its actual length and the post-quantum part.
\<close>

definition used_priv :: "'p oqsx_key \<Rightarrow> bytes \<Rightarrow> nat" where
  "used_priv k sb = (case evp_info k of
       None \<Rightarrow> privkeylen k
     | Some i \<Rightarrow> privkeylen k - (length_private_key i - dec32 (slice sb 0 4)))"

lemma header_word: "ucast (DECODE_UINT32 h) = (of_nat (dec32 h) :: 'a::len word)"
  by (simp add: dec32_def)

lemma word_diff_less:
  fixes a b :: "'a::len word"
  assumes "unat a \<le> x" and "x < 2 ^ LENGTH('a)" and "b = of_nat x"
  shows "\<not> a > b"
  using assms by (simp add: word_less_nat_alt unsigned_of_nat take_bit_nat_eq_self)

lemma stored_privkeylen_eq:
  assumes "wf_key k" and "privkey k = Some sb" and "privkeylen k < 2 ^ 32"
    and "\<And>i. evp_info k = Some i \<Longrightarrow> dec32 (slice sb 0 4) \<le> length_private_key i"
  shows "stored_privkeylen k sb = Inr (of_nat (used_priv k sb))" and "used_priv k sb \<le> length sb"
    and "unat (of_nat (used_priv k sb) :: 32 word) = used_priv k sb"
proof -
  have len: "privkeylen k \<le> length sb" using assms(1,2) by (simp add: wf_key_def wf_buffers_def)
  have le: "used_priv k sb \<le> privkeylen k" by (simp add: used_priv_def split: option.split)
  with len show "used_priv k sb \<le> length sb" by simp
  show "unat (of_nat (used_priv k sb) :: 32 word) = used_priv k sb"
    using le assms(3) by (simp add: unsigned_of_nat take_bit_nat_eq_self)
  show "stored_privkeylen k sb = Inr (of_nat (used_priv k sb))"
  proof (cases "is_hybrid (keytype k)")
    case False
    with assms(1) have "numkeys k = 1" "evp_info k = None" by (auto simp: wf_key_def wf_shape_def)
    then show ?thesis by (simp add: stored_privkeylen_def used_priv_def)
  next
    case True
    with assms(1) obtain i where i: "numkeys k = 2" "evp_info k = Some i"
        "privkeylen k = 4 + qs_length_secret_key (qs k) + length_private_key i"
      by (auto simp: wf_key_def wf_shape_def classic_info_ok_def)
    let ?h = "slice sb 0 4" and ?m = "length_private_key i" and ?n = "privkeylen k"
    have h: "dec32 ?h \<le> ?m" by (rule assms(4) [OF i(2)])
    let ?q = "qs_length_secret_key (qs k)"
    have "(of_nat ?n :: 32 word) - of_nat 4 = of_nat (?q + ?m)"
      using i(3) by (simp add: algebra_simps)
    moreover have "(ucast (of_nat (?q + ?m) :: 32 word) :: 64 word) = of_nat (?q + ?m)"
      using assms(3) i(3) by (simp add: word_unat_eq_iff unsigned_ucast_eq unsigned_of_nat take_bit_nat_eq_self del: of_nat_add)
    ultimately have space: "(ucast ((of_nat ?n :: 32 word) - of_nat 4) :: 64 word) - of_nat ?q = of_nat ?m"
      by (simp only: of_nat_add) simp
    have m: "\<not> (of_nat (dec32 ?h) :: 64 word) > of_nat ?m"
      using h i(3) assms(3)
      by (intro word_diff_less [OF _ _ refl]) (simp_all add: unsigned_of_nat take_bit_nat_eq_self)
    have d: "(of_nat ?m :: 64 word) - of_nat (dec32 ?h) = of_nat (?m - dec32 ?h)"
      using h by simp
    have r: "(of_nat ?n :: 32 word) - ucast (of_nat (?m - dec32 ?h) :: 64 word) = of_nat (used_priv k sb)"
    proof -
      have "ucast (of_nat (?m - dec32 ?h) :: 64 word) = (of_nat (?m - dec32 ?h) :: 32 word)"
        by (rule word_unat_eq_iff [THEN iffD2])
          (simp add: unsigned_ucast_eq unsigned_of_nat take_bit_take_bit)
      moreover have "(of_nat (?n - (?m - dec32 ?h)) :: 32 word) = of_nat ?n - of_nat (?m - dec32 ?h)"
        using i(3) by (intro of_nat_diff) simp
      ultimately show ?thesis by (simp add: used_priv_def i(2))
    qed
    have "4 \<le> length sb" using len i(3) by simp
    then show ?thesis
      using i(1,2) m
      by (simp only: stored_privkeylen_def Let_def) (simp add: rd_ok header_word space [simplified] m d [simplified] r [simplified])
  qed
qed

definition pq_pub_part :: "'p oqsx_key \<Rightarrow> bytes res" where
  "pq_pub_part k = read_comp (comp_pubkey k) (idx_pq k) (pubkey k) (qs_length_public_key (qs k))"

lemma pki_priv_to_der_eq:
  assumes "wf_key k" and "privkey k = Some sb" and "pq_pub_part k = Inr pub"
    and "privkeylen k + qs_length_public_key (qs k) < 2 ^ 32"
    and "\<And>i. evp_info k = Some i \<Longrightarrow> dec32 (slice sb 0 4) \<le> length_private_key i"
  shows "oqsx_pki_priv_to_der E True (Some k) =
    of_option (Raise MALLOC_FAILURE) (i2d_ASN1_OCTET_STRING E (take (used_priv k sb) sb @ pub))"
proof -
  have n: "stored_privkeylen k sb = Inr (of_nat (used_priv k sb))" "used_priv k sb \<le> length sb"
    "unat (of_nat (used_priv k sb) :: 32 word) = used_priv k sb"
    using stored_privkeylen_eq [OF assms(1,2) _ assms(5)] assms(4) by simp_all
  have rv: "reverse_share k \<longleftrightarrow> comp_reverse k"
    using assms(1) by (auto simp: wf_key_def wf_shape_def comp_reverse_def)
  have idx: "(if reverse_share k then 0 else numkeys k - 1) = idx_pq k"
    by (simp add: idx_pq_def oqsx_comp_set_idx_def rv)
  obtain pb where pb: "pubkey k = Some pb" using assms(3)
    by (auto simp: pq_pub_part_def read_comp_def bindR_eq_Inr)
  have le: "used_priv k sb + qs_length_public_key (qs k) < 2 ^ 32"
  proof -
    have "used_priv k sb \<le> privkeylen k" by (simp add: used_priv_def split: option.split)
    with assms(4) show ?thesis by linarith
  qed
  have u: "unat ((of_nat (used_priv k sb) :: 32 word) + of_nat (qs_length_public_key (qs k)))
      = used_priv k sb + qs_length_public_key (qs k)"
    using le by (simp add: unsigned_of_nat take_bit_nat_eq_self flip: of_nat_add)
  show ?thesis
    using assms(2,3) n(2) le
    by (simp add: oqsx_pki_priv_to_der_def pb n(1,3) Let_def oqs_publen [OF assms(1)] idx
        pq_pub_part_def u rd_ok slice_def)
qed

subsection \<open>Round trips\<close>

text \<open>The component pointers are the ones \<^verbatim>\<open>oqsx_key_set_composites\<close> computes from the buffers.\<close>

definition comps_current :: "'p oqsx_key \<Rightarrow> bool" where
  "comps_current k \<longleftrightarrow> oqsx_key_set_composites (is_hyb_kem (keytype k)) k = (Inr (), k)"

text \<open>Two keys of the same algorithm.\<close>

definition twin :: "'p oqsx_key \<Rightarrow> 'p oqsx_key \<Rightarrow> bool" where
  "twin k k' \<longleftrightarrow> keytype k' = keytype k \<and> qs k' = qs k \<and> evp_info k' = evp_info k \<and>
     reverse_share k' = reverse_share k \<and> numkeys k' = numkeys k"

lemma twin_wf:
  assumes "twin k k'" and "wf_key k" and "wf_key k'"
  shows "numkeys k' = numkeys k" "privkeylen k' = privkeylen k" "pubkeylen k' = pubkeylen k"
    "comp_reverse k' = comp_reverse k" "idx_classic k' = idx_classic k" "idx_pq k' = idx_pq k"
    "length (comp_privkey k') = length (comp_privkey k)" "length (comp_pubkey k') = length (comp_pubkey k)"
  using assms
  by (auto simp: twin_def wf_key_def wf_shape_def classic_info_ok_def comp_reverse_def idx_classic_def
      idx_pq_def oqsx_comp_set_idx_def split: if_splits)

lemma comps_current_hybrid:
  assumes "wf_key k" and "comps_current k" and "is_hybrid (keytype k)" and "evp_info k = Some i"
  shows "hyb_ptrs (is_hyb_kem (keytype k)) (comp_reverse k) (qs_length_secret_key (qs k))
      (length_private_key i) (privkey k) = Inr (comp_privkey k)"
    and "hyb_ptrs (is_hyb_kem (keytype k)) (comp_reverse k) (qs_length_public_key (qs k))
      (length_public_key i) (pubkey k) = Inr (comp_pubkey k)"
proof -
  let ?f = "is_hyb_kem (keytype k)"
  let ?s = "hyb_ptrs ?f (comp_reverse k) (qs_length_secret_key (qs k)) (length_private_key i) (privkey k)"
  let ?p = "hyb_ptrs ?f (comp_reverse k) (qs_length_public_key (qs k)) (length_public_key i) (pubkey k)"
  have n: "numkeys k = 2" "length (comp_privkey k) = 2" "length (comp_pubkey k) = 2"
    using assms(1,3) by (auto simp: wf_key_def wf_shape_def)
  note fails = set_composites_fails [OF n assms(4), of ?f]
  have "\<exists>ps ps'. ?s = Inr ps \<and> ?p = Inr ps'"
  proof (rule ccontr)
    assume "\<not> ?thesis"
    then obtain e where "?s = Inl e \<or> (\<exists>ps. ?s = Inr ps) \<and> ?p = Inl e"
      by (cases ?s; cases ?p) auto
    from fails [OF this] assms(2) show False by (auto simp: comps_current_def)
  qed
  then obtain ps ps' where ps: "?s = Inr ps" "?p = Inr ps'" by blast
  from set_composites_hybrid [OF n assms(4) ps] assms(2)
  have "k = k\<lparr>comp_privkey := ps, comp_pubkey := ps'\<rparr>" by (simp add: comps_current_def)
  from arg_cong [OF this, of comp_privkey] arg_cong [OF this, of comp_pubkey]
  have "comp_privkey k = ps" "comp_pubkey k = ps'" by simp_all
  with ps show "?s = Inr (comp_privkey k)" "?p = Inr (comp_pubkey k)" by simp_all
qed

lemma comps_current_plain:
  assumes "wf_key k" and "comps_current k" and "\<not> is_hybrid (keytype k)"
  shows "comp_privkey k = [buf_ptr (privkey k)]" and "comp_pubkey k = [buf_ptr (pubkey k)]"
proof -
  have n: "numkeys k = 1" "length (comp_privkey k) = 1" "length (comp_pubkey k) = 1"
    using assms(1,3) by (auto simp: wf_key_def wf_shape_def)
  let ?k = "k\<lparr>comp_privkey := [buf_ptr (privkey k)], comp_pubkey := [buf_ptr (pubkey k)]\<rparr>"
  from set_composites_plain [OF n] assms(2) have "k = ?k" by (simp add: comps_current_def)
  from arg_cong [OF this, of comp_privkey] arg_cong [OF this, of comp_pubkey]
  show "comp_privkey k = [buf_ptr (privkey k)]" "comp_pubkey k = [buf_ptr (pubkey k)]" by simp_all
qed

lemma hyb_ptrs_header:
  assumes "4 \<le> length a" and "4 \<le> length b" and "slice a 0 4 = slice b 0 4"
  shows "hyb_ptrs f rv q m (Some a) = hyb_ptrs f rv q m (Some b)"
  using assms by (simp add: hyb_ptrs_def classic_len_def rd_ok)

text \<open>
  A key of the same algorithm whose buffers start with the same headers gets the same pointers;
  without a private buffer it gets NULL for the private ones.
\<close>

lemma set_composites_twin:
  assumes wf: "wf_key k" "wf_key k'" and t: "twin k k'" and cur: "comps_current k"
    and pub: "pubkey k = Some b" "pubkey k' = Some b'" "is_hybrid (keytype k) \<Longrightarrow> slice b' 0 4 = slice b 0 4"
    and priv: "privkey k' = None \<or> (\<exists>s s'. privkey k = Some s \<and> privkey k' = Some s' \<and>
       (is_hybrid (keytype k) \<longrightarrow> slice s' 0 4 = slice s 0 4))"
  shows "oqsx_key_set_composites (is_hyb_kem (keytype k)) k' =
    (Inr (), k'\<lparr>comp_privkey := (if privkey k' = None then map (\<lambda>_. Null) (comp_privkey k') else comp_privkey k),
        comp_pubkey := comp_pubkey k\<rparr>)"
proof (cases "is_hybrid (keytype k)")
  case False
  have n: "numkeys k' = 1" "length (comp_privkey k') = 1" "length (comp_pubkey k') = 1"
    using wf(2) t False by (auto simp: wf_key_def wf_shape_def twin_def)
  then have "map (\<lambda>_. Null) (comp_privkey k') = [Null]" by (cases "comp_privkey k'") auto
  with comps_current_plain [OF wf(1) cur False] pub(1,2) priv show ?thesis
    by (auto simp: set_composites_plain [OF n] buf_ptr_def)
next
  case True
  then obtain i where i: "evp_info k = Some i" using wf(1) by (auto simp: wf_key_def wf_shape_def)
  have n: "numkeys k' = 2" "length (comp_privkey k') = 2" "length (comp_pubkey k') = 2" "evp_info k' = Some i"
    using wf(2) t True i by (auto simp: wf_key_def wf_shape_def twin_def)
  have big: "4 \<le> length b" "4 \<le> length b'" "\<And>s. privkey k = Some s \<Longrightarrow> 4 \<le> length s"
    "\<And>s. privkey k' = Some s \<Longrightarrow> 4 \<le> length s"
    using hb_info(4,5) [of False False k k] hb_info(4,5) [of False False k' k'] wf True i n t pub(1,2)
    by (auto simp: hb_def twin_def)
  note e = twin_wf [OF t wf]
  note c = comps_current_hybrid [OF wf(1) cur True i]
  have q: "qs k' = qs k" using t by (simp add: twin_def)
  have p: "hyb_ptrs (is_hyb_kem (keytype k)) (comp_reverse k') (qs_length_public_key (qs k'))
      (length_public_key i) (pubkey k') = Inr (comp_pubkey k)"
    using c(2) hyb_ptrs_header [OF big(2,1) pub(3) [OF True]] by (simp add: pub(1,2) e(4) q)
  have s: "hyb_ptrs (is_hyb_kem (keytype k)) (comp_reverse k') (qs_length_secret_key (qs k'))
      (length_private_key i) (privkey k') =
      Inr (if privkey k' = None then map (\<lambda>_. Null) (comp_privkey k') else comp_privkey k)"
  proof (cases "privkey k'")
    case None
    from n(2) have "map (\<lambda>_. Null) (comp_privkey k') = [Null, Null]"
      by (cases "comp_privkey k'"; cases "tl (comp_privkey k')") auto
    with None show ?thesis by (simp add: hyb_ptrs_def)
  next
    case (Some s')
    with priv True obtain s where s: "privkey k = Some s" "slice s' 0 4 = slice s 0 4" by auto
    with c(1) hyb_ptrs_header [OF big(4) [OF Some] big(3) [OF s(1)] s(2)] Some show ?thesis
      by (simp add: e(4) q)
  qed
  from set_composites_hybrid [OF n s p] show ?thesis .
qed

lemma recreate_public_local:
  assumes "comp_pubkey k' = comp_pubkey k" and "pubkey k' = pubkey k" and "idx_classic k' = idx_classic k"
    and "recreate_public E i k = (Inr (), r)"
  shows "recreate_public E i k' = (Inr (), k'\<lparr>classical_pkey := classical_pkey r\<rparr>)"
  using assms
  by (auto simp: recreate_public_def bindS_def thenS_def st_simps ensure_def of_option_def set_classical_def
      split: sum.splits option.splits if_splits)

lemma recreate_public_twin:
  assumes wf: "wf_key k" "wf_key k'" and t: "twin k k'"
    and e: "comp_pubkey k' = comp_pubkey k" "pubkey k' = pubkey k" "classical_pkey k' = None"
    and r: "oqsx_key_recreate_classickey E KEY_OP_PUBLIC k = (Inr (), r)"
  shows "oqsx_key_recreate_classickey E KEY_OP_PUBLIC k' = (Inr (), k'\<lparr>classical_pkey :=
     (if is_hybrid (keytype k) then classical_pkey r else None)\<rparr>)"
proof (cases "is_hybrid (keytype k)")
  case True
  then obtain i where "numkeys k = 2" "evp_info k = Some i" "numkeys k' = 2" "evp_info k' = Some i"
    using wf t by (auto simp: wf_key_def wf_shape_def twin_def)
  with r True recreate_public_local [OF e(1,2) twin_wf(5) [OF t wf]] show ?thesis
    by (simp add: oqsx_key_recreate_classickey_def st_simps)
next
  case False
  then have "numkeys k' = 1" using wf(2) t by (simp add: wf_key_def wf_shape_def twin_def)
  then show ?thesis using False e(3) by (simp add: oqsx_key_recreate_classickey_def st_simps)
qed

lemma key_op_public_fresh:
  assumes "length b = pubkeylen k0" and "pubkey k0 = None" and "ok A_PUBKEY"
  shows "key_op_public ok b k0 = (Inr (), k0\<lparr>pubkey := Some b\<rparr>)"
proof -
  have "patch (replicate (pubkeylen k0) 0) 0 b = b" using assms(1) by (simp add: patch_def)
  with assms show ?thesis
    by (simp add: key_op_public_def allocS_def oqsx_key_allocate_keymaterial_def thenS_def bindS_def
        st_simps bufs_write_pub)
qed

lemma new_classical:
  "new_plain q ok kt lc tls bits = Inr k \<Longrightarrow> classical_pkey k = None"
  "new_hybrid q init accepts ok kt rshare lc tls bits = Inr k \<Longrightarrow> classical_pkey k = None"
  by (auto simp: new_plain_def new_hybrid_def bindR_eq_Inr)

lemma new_from_nid_classical:
  "oqsx_key_new_from_nid L C ok tbl sn lc pq nid = Inr k \<Longrightarrow> classical_pkey k = None"
  by (cases pq; cases "get_keytype tbl nid")
    (auto simp: oqsx_key_new_from_nid_def oqsx_key_new_def bindR_eq_Inr dest: new_classical)

definition spki_of :: "int \<Rightarrow> bytes \<Rightarrow> asn1_key" where
  "spki_of nid d = \<lparr>ak_alg = Some \<lparr>params_undef = True, alg_nid = nid\<rparr>, ak_bytes = Some d\<rparr>"

lemma public_reload:
  assumes "wf_key k" and "comps_current k" and "pubkey k = Some b"
    and "oqsx_key_new_from_nid L (env_calls env) (env_ok env) (env_tbl env) (env_sn env) lc pq nid = Inr k0"
    and "twin k k0" and "nid \<noteq> 0" and "env_ok env A_PUBKEY"
    and "oqsx_key_recreate_classickey E KEY_OP_PUBLIC k = (Inr (), r)"
  shows "\<exists>k'. bindR (oqsx_spki_pub_to_der True (Some k)) (\<lambda>d.
        oqsx_key_from_x509pubkey L E env (Some (spki_of nid d)) lc pq) = Inr k' \<and>
      twin k k' \<and> pubkey k' = Some b \<and> comp_pubkey k' = comp_pubkey k \<and> privkey k' = None \<and>
      classical_pkey k' = (if is_hybrid (keytype k) then classical_pkey r else None) \<and> same_key k0 k' \<and>
      comp_privkey k' = map (\<lambda>_. Null) (comp_privkey k0)"
proof -
  have len: "length b = pubkeylen k" using assms(1,3) by (simp add: wf_key_def wf_buffers_def)
  from new_from_nid_wf [OF assms(4)] new_from_nid_classical [OF assms(4)]
  have k0: "wf_key k0" "privkey k0 = None" "pubkey k0 = None" "classical_pkey k0 = None" by simp_all
  note e = twin_wf [OF assms(5,1) k0(1)]
  let ?k1 = "k0\<lparr>pubkey := Some b\<rparr>"
  let ?k2 = "?k1\<lparr>comp_privkey := map (\<lambda>_. Null) (comp_privkey k0), comp_pubkey := comp_pubkey k\<rparr>"
  have wf1: "wf_key ?k1" using k0(1) len e(3) by (simp add: wf_key_buffer_upd)
  have t: "twin k ?k1" "twin k ?k2" using assms(5) by (simp_all add: twin_def)
  have sc: "oqsx_key_set_composites (is_hyb_kem (keytype k)) ?k1 = (Inr (), ?k2)"
    using set_composites_twin [OF assms(1) wf1 t(1) assms(2,3)] k0 by simp
  have "length (comp_pubkey k) = numkeys ?k1"
    using e(1) assms(1) by (simp add: wf_key_def wf_shape_def)
  moreover have "length (map (\<lambda>_. Null) (comp_privkey k0)) = numkeys ?k1"
    using k0(1) by (simp add: wf_key_def wf_shape_def)
  ultimately have wf2: "wf_key ?k2" using wf1 by (simp add: wf_key_comp_upd)
  have "oqsx_key_recreate_classickey E KEY_OP_PUBLIC ?k2 = (Inr (), ?k2\<lparr>classical_pkey :=
     (if is_hybrid (keytype k) then classical_pkey r else None)\<rparr>)"
    using k0 assms(3) by (intro recreate_public_twin [OF assms(1) wf2 t(2) _ _ _ assms(8)]) simp_all
  moreover have "keytype k0 = keytype k" using assms(5) by (simp add: twin_def)
  ultimately have "key_op_body E (env_ok env) b KEY_OP_PUBLIC k0 = (Inr (), ?k2\<lparr>classical_pkey :=
     (if is_hybrid (keytype k) then classical_pkey r else None)\<rparr>)"
    using sc by (simp add: key_op_body_def thenS_def bindS_def st_simps
        key_op_public_fresh e(3) len k0(3) assms(7))
  then show ?thesis
    using assms(4-6) len k0(2)
    by (simp add: oqsx_spki_pub_to_der_def assms(3) rd_ok slice_self oqsx_key_from_x509pubkey_def
        spki_of_def oqsx_key_op_def twin_def)
qed

text \<open>
  C8: A public key survives its encoding: reading the bytes that the SubjectPublicKeyInfo encoder
  emits for a well-formed key, under a NID that creates keys of the same algorithm, succeeds and
  gives a key with the same public bytes, the same public components and the classical key object
  that re-creation gives for the original, and without private material. The hypothesis on
  re-creation says that the classical public part is one OpenSSL can parse.
\<close>

theorem public_key_round_trip:
  assumes "wf_key k" and "comps_current k" and "pubkey k = Some b"
    and "oqsx_key_new_from_nid L (env_calls env) (env_ok env) (env_tbl env) (env_sn env) lc pq nid = Inr k0"
    and "twin k k0" and "nid \<noteq> 0" and "env_ok env A_PUBKEY"
    and "oqsx_key_recreate_classickey E KEY_OP_PUBLIC k = (Inr (), r)"
  shows "\<exists>k'. bindR (oqsx_spki_pub_to_der True (Some k)) (\<lambda>d.
        oqsx_key_from_x509pubkey L E env (Some (spki_of nid d)) lc pq) = Inr k' \<and>
      twin k k' \<and> pubkey k' = Some b \<and> comp_pubkey k' = comp_pubkey k \<and> privkey k' = None \<and>
      classical_pkey k' = (if is_hybrid (keytype k) then classical_pkey r else None)"
  using public_reload [OF assms] by blast

text \<open>The private and the public buffer that \<^verbatim>\<open>oqsx_key_op\<close> builds from a private key's bytes.\<close>

definition reload_priv :: "'p oqsx_key \<Rightarrow> bytes \<Rightarrow> bytes" where
  "reload_priv k d = d @ replicate (privkeylen k + 4 - length d) 0"

definition reload_pub :: "'p oqsx_key \<Rightarrow> bytes \<Rightarrow> bytes" where
  "reload_pub k pub = (case evp_info k of
       None \<Rightarrow> pub
     | Some i \<Rightarrow> patch (patch (replicate (pubkeylen k) 0) 0 (enc32 (length_public_key i)))
         (if reverse_share k then 4 else 4 + length_public_key i) pub)"

lemma used_priv_hybrid:
  assumes "wf_key k" and "evp_info k = Some i" and "dec32 (slice sb 0 4) \<le> length_private_key i"
  shows "used_priv k sb = 4 + qs_length_secret_key (qs k) + dec32 (slice sb 0 4)"
proof -
  have "is_hybrid (keytype k)" using assms(1,2) by (auto simp: wf_key_def wf_shape_def split: if_splits)
  then have "privkeylen k = 4 + qs_length_secret_key (qs k) + length_private_key i"
    using assms(1,2) by (auto simp: wf_key_def wf_shape_def classic_info_ok_def)
  with assms(2,3) show ?thesis by (simp add: used_priv_def)
qed

lemma used_priv_le: "used_priv k sb \<le> privkeylen k"
  by (simp add: used_priv_def split: option.split)

lemma actual_privkeylen_emitted:
  assumes wf: "wf_key k" "wf_key k0" "twin k k0" and sb: "privkey k = Some sb"
    and h: "\<And>i. evp_info k = Some i \<Longrightarrow> 0 < dec32 (slice sb 0 4) \<and> dec32 (slice sb 0 4) \<le> length_private_key i"
    and pub: "length pub = qs_length_public_key (qs k)"
  shows "actual_privkeylen k0 (take (used_priv k sb) sb @ pub) = Inr (used_priv k sb)"
proof -
  note e = twin_wf [OF wf(3,1,2)]
  have sl: "privkeylen k \<le> length sb" using wf(1) sb by (simp add: wf_key_def wf_buffers_def)
  show ?thesis
  proof (cases "is_hybrid (keytype k)")
    case False
    then have "numkeys k0 = 1" "evp_info k = None"
      using wf e(1) by (auto simp: wf_key_def wf_shape_def)
    then show ?thesis by (simp add: actual_privkeylen_def used_priv_def e(2))
  next
    case True
    then obtain i where i: "numkeys k0 = 2" "evp_info k = Some i" "evp_info k0 = Some i" "qs k0 = qs k"
        "privkeylen k = 4 + qs_length_secret_key (qs k) + length_private_key i"
      using wf e(1) by (auto simp: wf_key_def wf_shape_def twin_def classic_info_ok_def)
    note u = used_priv_hybrid [OF wf(1) i(2)]
    have "slice (take (used_priv k sb) sb @ pub) 0 4 = slice sb 0 4"
      using u h [OF i(2)] sl i(5) by (simp add: slice_def min_absorb1)
    with i h [OF i(2)] u sl pub e(2) show ?thesis
      by (simp add: actual_privkeylen_def Let_def rd_ok ensure_def)
  qed
qed

lemma key_op_private_fresh:
  assumes wf: "wf_key k" "wf_key k0" "twin k k0" and sb: "privkey k = Some sb"
    and h: "\<And>i. evp_info k = Some i \<Longrightarrow> 0 < dec32 (slice sb 0 4) \<and> dec32 (slice sb 0 4) \<le> length_private_key i"
    and pub: "length pub = qs_length_public_key (qs k)"
    and k0: "privkey k0 = None" "pubkey k0 = None" "ok A_PUBKEY" "ok A_PRIVKEY"
  shows "key_op_private ok (take (used_priv k sb) sb @ pub) k0 =
    (Inr (), k0\<lparr>privkey := Some (reload_priv k (take (used_priv k sb) sb)), pubkey := Some (reload_pub k pub)\<rparr>)"
proof -
  let ?n = "used_priv k sb"
  let ?priv = "take ?n sb"
  note e = twin_wf [OF wf(3,1,2)]
  note n = used_priv_le [of k sb]
  have sl: "privkeylen k \<le> length sb" using wf(1) sb by (simp add: wf_key_def wf_buffers_def)
  have lp: "length ?priv = ?n" using n sl by simp
  have rp: "patch (replicate (privkeylen k0 + 4) 0) 0 ?priv = reload_priv k ?priv"
    using e(2) by (simp add: patch_def reload_priv_def)
  have q: "oqsx_key_get_oqs_public_key_len k0 = length pub"
    using oqs_publen [OF wf(2)] wf(3) pub by (simp add: twin_def)
  have r: "slice (?priv @ pub) 0 ?n = ?priv" "drop ?n (?priv @ pub) = pub"
    using lp by (simp_all add: slice_append_whole)
  let ?k1 = "k0\<lparr>privkey := Some (reload_priv k ?priv), pubkey := Some (replicate (pubkeylen k0) 0)\<rparr>"
  have comm: "k0\<lparr>pubkey := a, privkey := c\<rparr> = k0\<lparr>privkey := c, pubkey := a\<rparr>" for a c
    by (cases k0) simp
  have "key_op_private ok (?priv @ pub) k0 = store_oqs_pub (?priv @ pub) ?n ?k1"
    using k0 lp q n e(2)
    by (simp add: key_op_private_def bindS_readS actual_privkeylen_emitted [OF wf sb h pub] st_simps
        rd_ok r allocS_def oqsx_key_allocate_keymaterial_def thenS_def bindS_def bufs_write_priv rp [unfolded e(2)] comm)
  also have "\<dots> = (Inr (), ?k1\<lparr>pubkey := Some (reload_pub k pub)\<rparr>)"
  proof (cases "is_hybrid (keytype k)")
    case False
    then have "numkeys k0 = 1" "evp_info k = None" "pubkeylen k0 = length pub" "?n = privkeylen k0"
      using wf e(1-3) pub by (auto simp: wf_key_def wf_shape_def used_priv_def)
    with r show ?thesis
      by (simp add: store_oqs_pub_def st_simps bufs_write_pub reload_pub_def patch_def)
  next
    case True
    then obtain i where i: "numkeys k0 = 2" "evp_info k = Some i" "evp_info k0 = Some i"
        "pubkeylen k = 4 + qs_length_public_key (qs k) + length_public_key i"
        "reverse_share k0 = reverse_share k"
      using wf e(1) by (auto simp: wf_key_def wf_shape_def twin_def classic_info_ok_def)
    then show ?thesis
      by (simp add: store_oqs_pub_def st_simps thenS_def bindS_def bufs_write_pub r(2) lp [simplified] pub
          reload_pub_def e(3))
  qed
  finally show ?thesis by simp
qed

lemma eq_by_slices:
  assumes "length a = 4 + x + y" and "length b = 4 + x + y"
    and "slice a 0 4 = slice b 0 4" and "slice a 4 x = slice b 4 x" and "slice a (4 + x) y = slice b (4 + x) y"
  shows "a = b"
proof -
  have "slice a 0 (4 + x) = slice b 0 (4 + x)"
    using slice_join_eq [of a 0 4 b 0 x] assms(3,4) by simp
  then have "slice a 0 (4 + x + y) = slice b 0 (4 + x + y)"
    using slice_join_eq [of a 0 "4 + x" b 0 y] assms(5) by simp
  then show ?thesis using assms(1,2) by (simp add: slice_def)
qed

text \<open>A hybrid public buffer with the full classical length in its header: where its parts lie.\<close>

lemma hybrid_pub_layout:
  assumes wf: "wf_key k" and cur: "comps_current k" and hyb: "is_hybrid (keytype k)"
    and i: "evp_info k = Some i" and b: "pubkey k = Some b"
    and hdr: "slice b 0 4 = enc32 (length_public_key i)" and small: "pubkeylen k < 2 ^ 32"
  shows "length b = 4 + qs_length_public_key (qs k) + length_public_key i"
    and "comp_at (comp_pubkey k) (idx_classic k) =
       Inr (if comp_reverse k then 4 + qs_length_public_key (qs k) else 4)"
    and "pq_pub_part k =
       Inr (slice b (if comp_reverse k then 4 else 4 + length_public_key i) (qs_length_public_key (qs k)))"
proof -
  have n: "numkeys k = 2" "pubkeylen k = 4 + qs_length_public_key (qs k) + length_public_key i"
    using wf hyb i by (auto simp: wf_key_def wf_shape_def classic_info_ok_def)
  with wf b show len: "length b = 4 + qs_length_public_key (qs k) + length_public_key i"
    by (simp add: wf_key_def wf_buffers_def)
  have "dec32 (slice b 0 4) = length_public_key i" using hdr small n by (simp add: dec32_enc32)
  then have "comp_pubkey k = comp_ptrs (comp_reverse k) (qs_length_public_key (qs k)) (length_public_key i)"
    using comps_current_hybrid(2) [OF wf cur hyb i] len
    by (auto simp: b hyb_ptrs_def classic_len_def rd_ok split: if_splits)
  with n(1) len b show "comp_at (comp_pubkey k) (idx_classic k) =
       Inr (if comp_reverse k then 4 + qs_length_public_key (qs k) else 4)"
    "pq_pub_part k =
       Inr (slice b (if comp_reverse k then 4 else 4 + length_public_key i) (qs_length_public_key (qs k)))"
    by (simp_all add: comp_at_classic pq_pub_part_def read_comp_def comp_at_pq rd_ok)
qed

lemma reload_pub_restores:
  assumes wf: "wf_key k" and cur: "comps_current k" and hyb: "is_hybrid (keytype k)"
    and i: "evp_info k = Some i" and b: "pubkey k = Some b"
    and hdr: "slice b 0 4 = enc32 (length_public_key i)" and small: "pubkeylen k < 2 ^ 32"
    and pub: "pq_pub_part k = Inr pub"
    and off: "comp_at (comp_pubkey k) (idx_classic k) = Inr off"
    and cb: "length cb = length_public_key i" "patch b off cb = b"
  shows "length (reload_pub k pub) = pubkeylen k" "slice (reload_pub k pub) 0 4 = slice b 0 4"
    and "patch (reload_pub k pub) off cb = b"
proof -
  note l = hybrid_pub_layout [OF wf cur hyb i b hdr small]
  let ?rv = "comp_reverse k" and ?q = "qs_length_public_key (qs k)" and ?m = "length_public_key i"
  have rv: "reverse_share k = ?rv" using wf by (auto simp: comp_reverse_def wf_key_def wf_shape_def)
  have n: "pubkeylen k = length b" using wf b by (simp add: wf_key_def wf_buffers_def)
  have offs: "off = (if ?rv then 4 + ?q else 4)" using l(2) off by simp
  have p: "pub = slice b (if ?rv then 4 else 4 + ?m) ?q" "length pub = ?q"
    using l(1,3) pub by (cases ?rv; simp)+
  have "off + length cb \<le> length b" by (simp add: cb(1) l(1) offs)
  from slice_patch_same [OF this cb(1) [symmetric]] have c: "slice b off ?m = cb"
    by (simp only: cb(2))
  let ?o = "if ?rv then 4 else 4 + ?m" and ?z = "patch (replicate (pubkeylen k) 0) 0 (enc32 ?m)"
  have re: "reload_pub k pub = patch ?z ?o pub" by (simp add: reload_pub_def i rv)
  have lz: "length ?z = pubkeylen k" "?o + length pub \<le> length ?z" using p(2) l(1) n by auto
  show "length (reload_pub k pub) = pubkeylen k" unfolding re using lz by simp
  show "slice (reload_pub k pub) 0 4 = slice b 0 4"
    unfolding re hdr using lz l(1) n by (subst slice_patch_before) (auto simp: slice_patch_same)
  show "patch (reload_pub k pub) off cb = b"
  proof (cases ?rv)
    case True
    show ?thesis
      by (rule eq_by_slices [where x = ?q and y = ?m])
        (use True p l(1) n hdr cb(1) c offs in \<open>simp_all add: reload_pub_def i rv buf_simps\<close>)
  next
    case False
    show ?thesis
      by (rule eq_by_slices [where x = ?m and y = ?q])
        (use False p l(1) n hdr cb(1) c offs in \<open>simp_all add: reload_pub_def i rv buf_simps\<close>)
  qed
qed

text \<open>Re-creation from a private key reads the private buffer's header and classical part only.\<close>

lemma recreate_private_local:
  assumes e: "comp_privkey k' = comp_privkey k" "comp_pubkey k' = comp_pubkey k" "idx_classic k' = idx_classic k"
    and h: "header_of (privkey k') = header_of (privkey k)"
    and r: "\<And>n. header_of (privkey k) = Inr n \<Longrightarrow> read_comp (comp_privkey k) (idx_classic k) (privkey k') n =
        read_comp (comp_privkey k) (idx_classic k) (privkey k) n"
    and off: "comp_at (comp_pubkey k) (idx_classic k) = Inr off"
    and b: "pubkey k = Some b" "pubkey k' = Some b'" "off + length_public_key i \<le> length b" "length b' = length b"
    and k: "recreate_private E i k = (Inr (), k)"
  shows "\<exists>cb. length cb = length_public_key i \<and> patch b off cb = b \<and>
    recreate_private E i k' = (Inr (), k'\<lparr>classical_pkey := classical_pkey k, pubkey := Some (patch b' off cb)\<rparr>)"
proof -
  have at: "comp_or_null (comp_pubkey k) (idx_classic k) = Inr (Some off)"
    using off by (auto simp: comp_at_def comp_or_null_def split: if_splits cptr.splits)
  from k obtain n s p where n: "header_of (privkey k) = Inr n" "n \<le> length_private_key i"
    and s: "read_comp (comp_privkey k) (idx_classic k) (privkey k) n = Inr s"
    and p: "(if raw_key_support i then EVP_PKEY_new_raw_private_key E (ei_keytype i) s
          else d2i_PrivateKey E (ei_keytype i) s) = Some p"
    and st: "store_classic_pub E i p (k\<lparr>classical_pkey := Some p\<rparr>) = (Inr (), k)"
    by (auto simp: recreate_private_def bindS_def thenS_def st_simps ensure_def of_option_def set_classical_def
        split: sum.splits option.splits if_splits)
  let ?enc = "if raw_key_support i then EVP_PKEY_get_raw_public_key E p else i2d_PublicKey E p"
  from st obtain cb where cb: "?enc = Some cb" "length cb = length_public_key i"
    and w: "write_pub off cb (k\<lparr>classical_pkey := Some p\<rparr>) = (Inr (), k)"
    by (cases ?enc)
      (auto simp: store_classic_pub_def bindS_readS at st_simps thenS_def bindS_def ensure_def
        split: if_splits sum.splits prod.splits)
  from w have keq: "k = k\<lparr>classical_pkey := Some p, pubkey := Some (patch b off cb)\<rparr>"
    using b(1,3) cb(2) by (simp add: bufs_write_pub)
  from arg_cong [OF keq, of pubkey] arg_cong [OF keq, of classical_pkey] b(1)
  have pb: "patch b off cb = b" and cp: "classical_pkey k = Some p" by simp_all
  have "store_classic_pub E i p (k'\<lparr>classical_pkey := Some p\<rparr>) =
      (Inr (), k'\<lparr>classical_pkey := Some p, pubkey := Some (patch b' off cb)\<rparr>)"
    using cb b(2-4)
    by (cases "raw_key_support i")
      (simp_all add: store_classic_pub_def bindS_readS at e st_simps bufs_write_pub thenS_Inr ensure_def)
  then have "recreate_private E i k' =
      (Inr (), k'\<lparr>classical_pkey := classical_pkey k, pubkey := Some (patch b' off cb)\<rparr>)"
    using n s p
    by (simp add: recreate_private_def bindS_readS h e r st_simps set_classical_def cp)
  with cb(2) pb show ?thesis by blast
qed

lemma reload_priv_reads:
  assumes wf: "wf_key k" and cur: "comps_current k" and hyb: "is_hybrid (keytype k)"
    and i: "evp_info k = Some i" and sb: "privkey k = Some sb"
    and h: "dec32 (slice sb 0 4) \<le> length_private_key i"
  defines "s' \<equiv> reload_priv k (take (used_priv k sb) sb)"
  shows "privkeylen k \<le> length s'" "slice s' 0 4 = slice sb 0 4"
    and "header_of (Some s') = header_of (privkey k)"
    and "header_of (privkey k) = Inr n \<Longrightarrow>
      read_comp (comp_privkey k) (idx_classic k) (Some s') n = read_comp (comp_privkey k) (idx_classic k) (privkey k) n"
proof -
  note u = used_priv_hybrid [OF wf i h]
  have sl: "privkeylen k \<le> length sb" using wf sb by (simp add: wf_key_def wf_buffers_def)
  have ul: "used_priv k sb \<le> length sb" using used_priv_le [of k sb] sl by linarith
  have same: "slice s' o' m = slice sb o' m" if "o' + m \<le> used_priv k sb" for o' m
    using that ul by (simp add: s'_def reload_priv_def slice_append_left) (simp add: slice_def drop_take min_def)
  show len: "privkeylen k \<le> length s'" by (simp add: s'_def reload_priv_def)
  show sl4: "slice s' 0 4 = slice sb 0 4" by (rule same) (simp add: u)
  have four: "4 \<le> length sb" "4 \<le> length s'"
    using ul u used_priv_le [of k sb] len by linarith+
  then show "header_of (Some s') = header_of (privkey k)"
    by (simp add: header_of_ok [OF refl] sb sl4)
  assume "header_of (privkey k) = Inr n"
  then have n: "n = dec32 (slice sb 0 4)" using four(1) by (simp add: header_of_ok sb)
  obtain m where "comp_ptrs (comp_reverse k) (qs_length_secret_key (qs k)) m = comp_privkey k"
    using comps_current_hybrid(1) [OF wf cur hyb i] by (auto simp: sb hyb_ptrs_def bindR_eq_Inr)
  note m = this [symmetric]
  have "numkeys k = 2" using wf hyb by (simp add: wf_key_def wf_shape_def)
  with m obtain off where off: "comp_at (comp_privkey k) (idx_classic k) = Inr off"
      "off + n \<le> used_priv k sb"
    using u n by (auto simp: comp_at_classic)
  moreover have "off + n \<le> length s'" "off + n \<le> length sb"
    using off(2) used_priv_le [of k sb] len ul by linarith+
  ultimately show "read_comp (comp_privkey k) (idx_classic k) (Some s') n =
      read_comp (comp_privkey k) (idx_classic k) (privkey k) n"
    by (simp add: read_comp_def sb rd_ok same)
qed

definition pkcs8_of :: "int \<Rightarrow> bytes \<Rightarrow> asn1_key" where
  "pkcs8_of nid d = \<lparr>ak_alg = Some \<lparr>params_undef = True, alg_nid = nid\<rparr>, ak_bytes = Some d\<rparr>"

definition octet_string_codec :: "'p openssl \<Rightarrow> bool" where
  "octet_string_codec E \<longleftrightarrow>
     (\<forall>b. \<exists>d. i2d_ASN1_OCTET_STRING E b = Some d \<and> d2i_ASN1_OCTET_STRING E d = Some b)"

text \<open>
  A key with both parts whose classical key object is the one its private part describes, with
  the full classical length in the header of its public part.
\<close>

definition full_key :: "'p openssl \<Rightarrow> 'p oqsx_key \<Rightarrow> bytes \<Rightarrow> bytes \<Rightarrow> bool" where
  "full_key E k b sb \<longleftrightarrow>
     wf_key k \<and> comps_current k \<and> pubkey k = Some b \<and> privkey k = Some sb \<and>
     (case evp_info k of
        None \<Rightarrow> classical_pkey k = None
      | Some i \<Rightarrow> slice b 0 4 = enc32 (length_public_key i) \<and>
          0 < dec32 (slice sb 0 4) \<and> dec32 (slice sb 0 4) \<le> length_private_key i \<and>
          oqsx_key_recreate_classickey E KEY_OP_PRIVATE k = (Inr (), k)) \<and>
     pubkeylen k < 2 ^ 32 \<and> privkeylen k + qs_length_public_key (qs k) < 2 ^ 32"

lemma pq_pub_full:
  assumes "full_key E k b sb"
  obtains pub where "pq_pub_part k = Inr pub" "length pub = qs_length_public_key (qs k)"
    "\<not> is_hybrid (keytype k) \<Longrightarrow> pub = b"
proof (cases "is_hybrid (keytype k)")
  case True
  then obtain i where i: "evp_info k = Some i"
    using assms by (auto simp: full_key_def wf_key_def wf_shape_def)
  with assms have a: "wf_key k" "comps_current k" "pubkey k = Some b" "slice b 0 4 = enc32 (length_public_key i)"
      "pubkeylen k < 2 ^ 32"
    by (simp_all add: full_key_def)
  note l = hybrid_pub_layout [OF a(1,2) True i a(3-5)]
  show thesis by (rule that [OF l(3)]) (use l(1) True in auto)
next
  case False
  with assms have a: "wf_key k" "comps_current k" "pubkey k = Some b" by (simp_all add: full_key_def)
  have "comp_pubkey k = [Off 0]" using comps_current_plain [OF a(1,2) False] a(3) by (simp add: buf_ptr_def)
  moreover have "numkeys k = 1" "length b = qs_length_public_key (qs k)"
    using a(1,3) False by (auto simp: wf_key_def wf_shape_def wf_buffers_def)
  ultimately have "pq_pub_part k = Inr b" "length b = qs_length_public_key (qs k)"
    by (simp_all add: pq_pub_part_def read_comp_def comp_at_def idx_pq_def oqsx_comp_set_idx_def a(3)
        slice_self)
  then show thesis by (rule that) simp
qed

lemma key_op_body_emitted:
  assumes f: "full_key E k b sb" and k0: "wf_key k0" "twin k k0" "privkey k0 = None" "pubkey k0 = None"
      "classical_pkey k0 = None" and ok: "ok A_PUBKEY" "ok A_PRIVKEY"
    and pub: "pq_pub_part k = Inr pub" "length pub = qs_length_public_key (qs k)"
      "\<not> is_hybrid (keytype k) \<Longrightarrow> pub = b"
  shows "\<exists>k'. key_op_body E ok (take (used_priv k sb) sb @ pub) KEY_OP_PRIVATE k0 = (Inr (), k') \<and>
    twin k k' \<and> pubkey k' = Some b \<and> privkey k' = Some (reload_priv k (take (used_priv k sb) sb)) \<and>
    comp_pubkey k' = comp_pubkey k \<and> comp_privkey k' = comp_privkey k \<and> classical_pkey k' = classical_pkey k \<and> same_key k0 k'"
proof -
  have a: "wf_key k" "comps_current k" "pubkey k = Some b" "privkey k = Some sb" "pubkeylen k < 2 ^ 32"
    using f by (simp_all add: full_key_def)
  have h: "0 < dec32 (slice sb 0 4) \<and> dec32 (slice sb 0 4) \<le> length_private_key i" if "evp_info k = Some i" for i
    using f that by (simp add: full_key_def)
  note e = twin_wf [OF k0(2) a(1) k0(1)]
  let ?s = "reload_priv k (take (used_priv k sb) sb)" and ?b = "reload_pub k pub"
  let ?k1 = "k0\<lparr>privkey := Some ?s, pubkey := Some ?b\<rparr>"
  let ?k2 = "?k1\<lparr>comp_privkey := comp_privkey k, comp_pubkey := comp_pubkey k\<rparr>"
  have fresh: "key_op_private ok (take (used_priv k sb) sb @ pub) k0 = (Inr (), ?k1)"
    by (rule key_op_private_fresh [OF a(1) k0(1,2) a(4) _ pub(2) k0(3,4) ok]) (rule h)
  have t: "twin k ?k1" "twin k ?k2" using k0(2) by (simp_all add: twin_def)
  have kt: "keytype k0 = keytype k" using k0(2) by (simp add: twin_def)
  have body: "key_op_body E ok (take (used_priv k sb) sb @ pub) KEY_OP_PRIVATE k0 =
      oqsx_key_recreate_classickey E KEY_OP_PRIVATE ?k2"
    if "length ?b = pubkeylen k" "privkeylen k \<le> length ?s"
      "is_hybrid (keytype k) \<Longrightarrow> slice ?b 0 4 = slice b 0 4"
      "is_hybrid (keytype k) \<Longrightarrow> slice ?s 0 4 = slice sb 0 4"
  proof -
    have "wf_key (k0\<lparr>privkey := Some ?s\<rparr>)"
      using k0(1) that(2) e(2) by (simp add: wf_key_buffer_upd(2))
    then have wf1: "wf_key ?k1"
      by (rule wf_key_buffer_upd(1)) (simp add: that(1) e(3))
    have "oqsx_key_set_composites (is_hyb_kem (keytype k)) ?k1 = (Inr (), ?k2)"
      using set_composites_twin [OF a(1) wf1 t(1) a(2,3), of ?b] that(3,4) a(4) by simp
    then show ?thesis
      by (simp add: key_op_body_def fresh thenS_def bindS_def st_simps kt)
  qed
  show ?thesis
  proof (cases "is_hybrid (keytype k)")
    case False
    then have n: "numkeys k0 = 1" "evp_info k = None"
      using a(1) e(1) by (auto simp: wf_key_def wf_shape_def)
    have "length ?b = pubkeylen k" "?b = b"
      using pub(3) [OF False] a(1,3) by (simp_all add: reload_pub_def n(2) wf_key_def wf_buffers_def)
    moreover have "privkeylen k \<le> length ?s" by (simp add: reload_priv_def)
    ultimately show ?thesis
      using body False n(1) f n(2) k0(5) t(2)
      by (simp add: oqsx_key_recreate_classickey_def st_simps full_key_def)
  next
    case True
    then obtain i where i: "evp_info k = Some i" using a(1) by (auto simp: wf_key_def wf_shape_def)
    have n: "numkeys k = 2" using a(1) True by (simp add: wf_key_def wf_shape_def)
    have hdr: "slice b 0 4 = enc32 (length_public_key i)"
      and "oqsx_key_recreate_classickey E KEY_OP_PRIVATE k = (Inr (), k)"
      using f i by (simp_all add: full_key_def)
    then have rk: "recreate_private E i k = (Inr (), k)"
      by (simp add: oqsx_key_recreate_classickey_def st_simps n i)
    note l = hybrid_pub_layout [OF a(1,2) True i a(3) hdr a(5)]
    note r = reload_priv_reads [OF a(1,2) True i a(4) conjunct2 [OF h [OF i]]]
    let ?off = "if comp_reverse k then 4 + qs_length_public_key (qs k) else 4"
    have fit: "?off + length_public_key i \<le> length b" using l(1) by simp
    have len: "length ?b = length b"
    proof -
      have "pubkeylen k = length b" using a(1,3) by (simp add: wf_key_def wf_buffers_def)
      with l(1) pub(2) show ?thesis by (simp add: reload_pub_def i)
    qed
    obtain cb where cb: "length cb = length_public_key i" "patch b ?off cb = b"
      and rec: "recreate_private E i ?k2 = (Inr (), ?k2\<lparr>classical_pkey := classical_pkey k, pubkey := Some (patch ?b ?off cb)\<rparr>)"
      using recreate_private_local [where k' = ?k2, OF _ _ _ _ _ l(2) a(3) _ fit len rk] r(3,4) e(5) by auto
    note p = reload_pub_restores [OF a(1,2) True i a(3) hdr a(5) pub(1) l(2) cb]
    have "numkeys k0 = 2" "evp_info k0 = Some i" using e(1) n k0(2) i by (simp_all add: twin_def)
    with rec p(3) have "oqsx_key_recreate_classickey E KEY_OP_PRIVATE ?k2 =
        (Inr (), ?k2\<lparr>classical_pkey := classical_pkey k, pubkey := Some b\<rparr>)"
      by (simp add: oqsx_key_recreate_classickey_def st_simps)
    with body [OF p(1) r(1) p(2) r(2)] t(2) show ?thesis by (simp add: twin_def)
  qed
qed

lemma private_reload:
  assumes f: "full_key E k b sb" and oct: "octet_string_codec E"
    and new: "oqsx_key_new_from_nid L (env_calls env) (env_ok env) (env_tbl env) (env_sn env) lc pq nid = Inr k0"
    and t: "twin k k0" and nid: "nid \<noteq> 0" and ok: "env_ok env A_PUBKEY" "env_ok env A_PRIVKEY"
  shows "\<exists>k'. bindR (oqsx_pki_priv_to_der E True (Some k)) (\<lambda>d.
        oqsx_key_from_pkcs8 L E env (Some (pkcs8_of nid d)) lc pq) = Inr k' \<and>
      twin k k' \<and> pubkey k' = Some b \<and> privkey k' = Some (reload_priv k (take (used_priv k sb) sb)) \<and>
      comp_pubkey k' = comp_pubkey k \<and> comp_privkey k' = comp_privkey k \<and> classical_pkey k' = classical_pkey k \<and> same_key k0 k'"
proof -
  from new_from_nid_wf [OF new] new_from_nid_classical [OF new]
  have k0: "wf_key k0" "privkey k0 = None" "pubkey k0 = None" "classical_pkey k0 = None" by simp_all
  from pq_pub_full [OF f] obtain pub where pub: "pq_pub_part k = Inr pub"
      "length pub = qs_length_public_key (qs k)" "\<not> is_hybrid (keytype k) \<Longrightarrow> pub = b"
    by blast
  let ?d = "take (used_priv k sb) sb @ pub"
  from oct obtain d where d: "i2d_ASN1_OCTET_STRING E ?d = Some d" "d2i_ASN1_OCTET_STRING E d = Some ?d"
    by (auto simp: octet_string_codec_def)
  have "oqsx_pki_priv_to_der E True (Some k) = Inr d"
    using f by (subst pki_priv_to_der_eq [OF _ _ pub(1), of sb]) (auto simp: full_key_def d(1))
  with key_op_body_emitted [OF f k0(1) t k0(2-4) ok pub] show ?thesis
    using new nid by (auto simp: oqsx_key_from_pkcs8_def pkcs8_of_def d(2) oqsx_key_op_def)
qed

text \<open>
  The classical component of a hybrid private key survives the encoding, and so does the post-quantum one
  of every key whose used bytes reach the end of that component.
\<close>

definition classic_priv_part :: "'p oqsx_key \<Rightarrow> bytes res" where
  "classic_priv_part k = bindR (header_of (privkey k)) (read_comp (comp_privkey k) (idx_classic k) (privkey k))"

definition pq_priv_part :: "'p oqsx_key \<Rightarrow> bytes res" where
  "pq_priv_part k = read_comp (comp_privkey k) (idx_pq k) (privkey k) (qs_length_secret_key (qs k))"

lemma pq_priv_position:
  assumes "full_key E k b sb" and "\<not> (is_hyb_kem (keytype k) \<and> \<not> reverse_share k \<and> used_priv k sb < privkeylen k)"
  shows "\<exists>off. comp_at (comp_privkey k) (idx_pq k) = Inr off \<and> off + qs_length_secret_key (qs k) \<le> used_priv k sb"
proof (cases "is_hybrid (keytype k)")
  case False
  with assms(1) have a: "wf_key k" "comps_current k" "privkey k = Some sb" "evp_info k = None" "numkeys k = 1"
      "privkeylen k = qs_length_secret_key (qs k)"
    by (auto simp: full_key_def wf_key_def wf_shape_def)
  have "comp_privkey k = [Off 0]" using comps_current_plain(1) [OF a(1,2) False] a(3) by (simp add: buf_ptr_def)
  then show ?thesis using a(4-6) by (simp add: used_priv_def comp_at_def idx_pq_def oqsx_comp_set_idx_def)
next
  case True
  with assms(1) obtain i where i: "evp_info k = Some i" by (auto simp: full_key_def wf_key_def wf_shape_def)
  with assms(1) have a: "wf_key k" "comps_current k" "privkey k = Some sb" "dec32 (slice sb 0 4) \<le> length_private_key i"
    by (simp_all add: full_key_def)
  have n: "numkeys k = 2" "privkeylen k = 4 + qs_length_secret_key (qs k) + length_private_key i"
    using a(1) True i by (auto simp: wf_key_def wf_shape_def classic_info_ok_def)
  have four: "4 \<le> length sb" using a(1,3) n(2) by (simp add: wf_key_def wf_buffers_def)
  let ?m = "if is_hyb_kem (keytype k) then length_private_key i else dec32 (slice sb 0 4)"
  have "comp_privkey k = comp_ptrs (comp_reverse k) (qs_length_secret_key (qs k)) ?m"
    using comps_current_hybrid(1) [OF a(1,2) True i] four a(3,4)
    by (auto simp: hyb_ptrs_def classic_len_def rd_ok split: if_splits)
  with comp_at_pq [OF n(1)] show ?thesis
    using used_priv_hybrid [OF a(1) i a(4)] assms(2) n(2) a(4) by (auto simp: comp_reverse_def)
qed

lemma reloaded_parts:
  assumes f: "full_key E k b sb" and t: "twin k k'" and c: "comp_privkey k' = comp_privkey k"
    and p: "privkey k' = Some (reload_priv k (take (used_priv k sb) sb))"
  shows "is_hybrid (keytype k) \<Longrightarrow> classic_priv_part k' = classic_priv_part k"
    and "\<not> (is_hyb_kem (keytype k) \<and> \<not> reverse_share k \<and> used_priv k sb < privkeylen k) \<Longrightarrow>
      pq_priv_part k' = pq_priv_part k"
proof -
  have idx: "idx_pq k' = idx_pq k" "idx_classic k' = idx_classic k" "qs k' = qs k"
    using t by (auto simp: twin_def idx_pq_def idx_classic_def oqsx_comp_set_idx_def comp_reverse_def)
  have a: "wf_key k" "comps_current k" "privkey k = Some sb" using f by (simp_all add: full_key_def)
  show "classic_priv_part k' = classic_priv_part k" if hyb: "is_hybrid (keytype k)"
  proof -
    from hyb a(1) obtain i where i: "evp_info k = Some i" by (auto simp: wf_key_def wf_shape_def)
    with f have "dec32 (slice sb 0 4) \<le> length_private_key i" by (simp add: full_key_def)
    note r = reload_priv_reads [OF a(1,2) hyb i a(3) this]
    show ?thesis
      by (cases "header_of (privkey k)") (simp_all add: classic_priv_part_def p c idx r(3,4))
  qed
  show "pq_priv_part k' = pq_priv_part k"
    if reaches: "\<not> (is_hyb_kem (keytype k) \<and> \<not> reverse_share k \<and> used_priv k sb < privkeylen k)"
  proof -
    let ?q = "qs_length_secret_key (qs k)" and ?u = "used_priv k sb"
    obtain off where off: "comp_at (comp_privkey k) (idx_pq k) = Inr off" "off + ?q \<le> ?u"
      using pq_priv_position [OF f reaches] by blast
    have u: "?u \<le> length sb" using used_priv_le [of k sb] a(1,3) by (simp add: wf_key_def wf_buffers_def)
    have "slice (reload_priv k (take ?u sb)) off ?q = slice sb off ?q"
      using off(2) u by (simp add: reload_priv_def slice_append_left) (simp add: slice_def drop_take min_def)
    moreover have "off + ?q \<le> length (reload_priv k (take ?u sb))" using off(2) u by (simp add: reload_priv_def)
    ultimately show ?thesis
      using off u by (simp add: pq_priv_part_def p c idx read_comp_def a(3) rd_ok)
  qed
qed

text \<open>
  C7: Reading the PKCS#8 bytes the encoder emits for a key with both parts succeeds and gives a key of the
  same algorithm with the same public bytes, component pointers and classical key object. Of the
  private buffer exactly the bytes the encoder counts as used come back, followed by zeros: that
  restores the classical private component always and the post-quantum one too, except for a
  hybrid KEM key with the classical part in front whose classical encoding is shorter than its
  maximum.
\<close>

theorem private_key_round_trip:
  assumes "full_key E k b sb" and "octet_string_codec E"
    and "oqsx_key_new_from_nid L (env_calls env) (env_ok env) (env_tbl env) (env_sn env) lc pq nid = Inr k0"
    and "twin k k0" and "nid \<noteq> 0" and "env_ok env A_PUBKEY" and "env_ok env A_PRIVKEY"
  shows "\<exists>k'. bindR (oqsx_pki_priv_to_der E True (Some k)) (\<lambda>d.
        oqsx_key_from_pkcs8 L E env (Some (pkcs8_of nid d)) lc pq) = Inr k' \<and>
      twin k k' \<and> pubkey k' = pubkey k \<and> comp_pubkey k' = comp_pubkey k \<and>
      comp_privkey k' = comp_privkey k \<and> classical_pkey k' = classical_pkey k \<and>
      privkey k' = Some (take (used_priv k sb) sb @ replicate (privkeylen k + 4 - used_priv k sb) 0) \<and>
      (is_hybrid (keytype k) \<longrightarrow> classic_priv_part k' = classic_priv_part k) \<and>
      (\<not> (is_hyb_kem (keytype k) \<and> \<not> reverse_share k \<and> used_priv k sb < privkeylen k) \<longrightarrow>
        pq_priv_part k' = pq_priv_part k)"
proof -
  have "pubkey k = Some b" "used_priv k sb \<le> length sb"
    using assms(1) used_priv_le [of k sb] by (auto simp: full_key_def wf_key_def wf_buffers_def)
  moreover from private_reload [OF assms] obtain k' where
    k': "bindR (oqsx_pki_priv_to_der E True (Some k)) (\<lambda>d.
        oqsx_key_from_pkcs8 L E env (Some (pkcs8_of nid d)) lc pq) = Inr k'" "twin k k'" "pubkey k' = Some b"
      "privkey k' = Some (reload_priv k (take (used_priv k sb) sb))"
      "comp_pubkey k' = comp_pubkey k" "comp_privkey k' = comp_privkey k" "classical_pkey k' = classical_pkey k"
    by blast
  ultimately show ?thesis
    using reloaded_parts [OF assms(1) k'(2,6,4)] by (intro exI [of _ k']) (simp add: reload_priv_def min_absorb2)
qed

lemma slice_cut:
  assumes "m \<le> q" and "off + (q - m) \<le> length b" and "m \<le> z - length (take (off + (q - m)) b)"
  shows "slice (take (off + (q - m)) b @ replicate (z - length (take (off + (q - m)) b)) 0) off q =
    take (q - m) (slice b off q) @ replicate m 0"
  using assms by (simp add: slice_def drop_take min_absorb1 min_absorb2 take_replicate)

text \<open>
  C23: The encoder drops bytes behind the actual classical length, but the components of a hybrid
  KEM key lie at the fixed maximal offsets: when the classical private encoding is shorter than
  the table's maximum, the tail of the post-quantum secret key, as many bytes as are missing, is
  replaced by zeros in the key that is read back.
\<close>

theorem private_key_truncation:
  assumes "full_key E k b sb" and "octet_string_codec E"
    and "oqsx_key_new_from_nid L (env_calls env) (env_ok env) (env_tbl env) (env_sn env) lc pq nid = Inr k0"
    and "twin k k0" and "nid \<noteq> 0" and "env_ok env A_PUBKEY" and "env_ok env A_PRIVKEY"
    and "is_hyb_kem (keytype k)" and "\<not> reverse_share k" and "evp_info k = Some i"
    and "missing = length_private_key i - dec32 (slice sb 0 4)" and "missing \<le> qs_length_secret_key (qs k)"
    and "read_comp (comp_privkey k) (idx_pq k) (privkey k) (qs_length_secret_key (qs k)) = Inr s"
  shows "\<exists>k'. bindR (oqsx_pki_priv_to_der E True (Some k)) (\<lambda>d.
        oqsx_key_from_pkcs8 L E env (Some (pkcs8_of nid d)) lc pq) = Inr k' \<and>
      read_comp (comp_privkey k') (idx_pq k') (privkey k') (qs_length_secret_key (qs k')) =
        Inr (take (qs_length_secret_key (qs k) - missing) s @ replicate missing 0)"
proof -
  let ?m = "length_private_key i" and ?h = "dec32 (slice sb 0 4)" and ?q = "qs_length_secret_key (qs k)"
  have a: "wf_key k" "comps_current k" "privkey k = Some sb" "?h \<le> ?m"
    using assms(1,10) by (simp_all add: full_key_def)
  have hyb: "is_hybrid (keytype k)" using assms(8) by (simp add: is_hybrid_def)
  have rv: "\<not> comp_reverse k" using assms(9) by (simp add: comp_reverse_def)
  have n: "numkeys k = 2" "privkeylen k = 4 + ?q + ?m"
    using a(1) hyb assms(10) by (auto simp: wf_key_def wf_shape_def classic_info_ok_def)
  have cp: "comp_privkey k = comp_ptrs False ?q ?m"
    using comps_current_hybrid(1) [OF a(1,2) hyb assms(10)] assms(8) rv
    by (simp add: a(3) hyb_ptrs_def classic_len_def)
  have u: "used_priv k sb = 4 + ?m + (?q - missing)" and u': "used_priv k sb \<le> length sb"
    using used_priv_hybrid [OF a(1) assms(10) a(4)] assms(11,12) a(1,3,4) n(2)
    by (auto simp: wf_key_def wf_buffers_def)
  from comp_at_pq [OF n(1), of ?q ?m] rv have at: "comp_at (comp_ptrs False ?q ?m) (idx_pq k) = Inr (4 + ?m)"
    by simp
  have s: "s = slice sb (4 + ?m) ?q"
    using assms(13) by (auto simp: read_comp_def cp at a(3))
  have "slice (reload_priv k (take (used_priv k sb) sb)) (4 + ?m) ?q = take (?q - missing) s @ replicate missing 0"
    unfolding s u reload_priv_def by (rule slice_cut) (use u u' n(2) assms(12) in simp_all)
  moreover have "4 + ?m + ?q \<le> length (reload_priv k (take (used_priv k sb) sb))"
    using n(2) by (simp add: reload_priv_def)
  ultimately have "read_comp (comp_privkey k) (idx_pq k) (Some (reload_priv k (take (used_priv k sb) sb))) ?q =
      Inr (take (?q - missing) s @ replicate missing 0)"
    by (simp add: read_comp_def cp at rd_ok)
  moreover have "idx_pq k' = idx_pq k \<and> qs k' = qs k" if "twin k k'" "comp_privkey k' = comp_privkey k" for k'
    using that by (auto simp: twin_def idx_pq_def oqsx_comp_set_idx_def comp_reverse_def)
  ultimately show ?thesis
    using private_reload [OF assms(1-7)] by fastforce
qed

subsection \<open>Import from parameters\<close>

lemma safe_replace_priv:
  "length d = privkeylen k0 \<Longrightarrow>
     safe (hb pp ss k0) (replace_priv ok d) (\<lambda>_. hb pp True k0) (wfs k0)"
  by (auto simp: safe_def replace_priv_def st_simps hb_def wf_key_def wf_shape_def wf_buffers_def
      classic_info_ok_def ensure_def dest: same_key_fields(7))

lemma safe_replace_pub:
  "length d = pubkeylen k0 \<Longrightarrow>
     safe (hb pp ss k0) (replace_pub ok d) (\<lambda>_. hb True ss k0) (wfs k0)"
  by (auto simp: safe_def replace_pub_def st_simps hb_def wf_key_def wf_shape_def wf_buffers_def
      classic_info_ok_def ensure_def dest: same_key_fields(8))

lemma safe_checked_len:
  assumes "\<And>s. P s \<Longrightarrow> f s = n \<and> E s" and "e \<noteq> UB" and "n = m \<Longrightarrow> safe P a Q E"
  shows "safe P (bindS (getS f) (\<lambda>n. thenS (ensureS (n = m) e) a)) Q E"
  using assms by (intro safe_get_bind [where v = n] safe_ensure_then) auto

lemma hb_lens:
  "hb pp ss k0 k \<Longrightarrow> privkeylen k = privkeylen k0 \<and> wfs k0 k"
  "hb pp ss k0 k \<Longrightarrow> pubkeylen k = pubkeylen k0 \<and> wfs k0 k"
  by (auto simp: hb_def dest: same_key_fields(7,8))

lemma safe_import_priv:
  "safe (hb pp ss k0) (case pp1 of
         Some d \<Rightarrow> if ip then
           thenS (ensureS (op_octets d) (Raise INVALID_ENCODING))
           (bindS (getS privkeylen) (\<lambda>n.
            thenS (ensureS (n = length (op_data d)) (Raise INVALID_SIZE)) (replace_priv ok (op_data d))))
           else retS ()
       | None \<Rightarrow> retS ()) (\<lambda>_. hb pp (ss \<or> pp1 \<noteq> None \<and> ip) k0) (wfs k0)"
proof (cases "pp1 \<noteq> None \<and> ip")
  case True
  then obtain d where d: "pp1 = Some d" ip by auto
  show ?thesis
    by (simp add: d)
      (intro safe_ensure_then safe_checked_len [OF hb_lens(1)] safe_replace_priv; simp add: hb_weaken)
next
  case False
  then have "safe (hb pp ss k0) (retS ()) (\<lambda>_. hb pp (ss \<or> pp1 \<noteq> None \<and> ip) k0) (wfs k0)"
    by (intro safe_retI) auto
  with False show ?thesis by (cases pp1) auto
qed

lemma safe_import_pub:
  "safe (hb pp ss k0) (case pp2 of
         Some d \<Rightarrow>
           thenS (ensureS (op_octets d) Quiet)
           (bindS (getS pubkeylen) (\<lambda>n.
            thenS (ensureS (n = length (op_data d)) (Raise INVALID_SIZE)) (replace_pub ok (op_data d))))
       | None \<Rightarrow> retS ()) (\<lambda>_. hb (pp \<or> pp2 \<noteq> None) ss k0) (wfs k0)"
proof (cases pp2)
  case (Some d)
  show ?thesis
    by (simp add: Some)
      (intro safe_ensure_then safe_checked_len [OF hb_lens(2)] safe_replace_pub; simp add: hb_weaken)
qed (auto intro: safe_retI)

definition fromdata_tail :: "'p openssl \<Rightarrow> ('p oqsx_key, unit) st" where
  "fromdata_tail E =
     bindS (getS (\<lambda>k. is_hyb_kem (keytype k))) (\<lambda>fixed.
      thenS (oqsx_key_set_composites fixed)
      (bindS (getS (\<lambda>k. if privkey k \<noteq> None then KEY_OP_PRIVATE else KEY_OP_PUBLIC)) (\<lambda>op.
       oqsx_key_recreate_classickey E op)))"

lemma fromdata_tail_eq:
  "fromdata_tail E s = import_tail E (if privkey s \<noteq> None then KEY_OP_PRIVATE else KEY_OP_PUBLIC) s"
proof -
  obtain r s1 where c: "oqsx_key_set_composites (is_hyb_kem (keytype s)) s = (r, s1)" by fastforce
  then show ?thesis
    using set_composites_keeps [OF c]
    by (cases r) (simp_all add: fromdata_tail_def import_tail_def st_simps thenS_def bindS_def)
qed

text \<open>What the two parameters are checked for, and the buffers they leave when they pass.\<close>

definition accepts_param :: "ossl_param option \<Rightarrow> nat \<Rightarrow> bool \<Rightarrow> bool" where
  "accepts_param p n alloc \<longleftrightarrow> (case p of
     None \<Rightarrow> True | Some d \<Rightarrow> op_octets d \<and> length (op_data d) = n \<and> alloc)"

definition param_buffer :: "ossl_param option \<Rightarrow> bytes option \<Rightarrow> bytes option" where
  "param_buffer p old = (case p of None \<Rightarrow> old | Some d \<Rightarrow> Some (op_data d))"

definition fromdata_overruns ::
    "'p openssl \<Rightarrow> allocs \<Rightarrow> ossl_param option \<Rightarrow> ossl_param option \<Rightarrow> 'p oqsx_key \<Rightarrow> bool" where
  "fromdata_overruns E ok pp1 pp2 k \<longleftrightarrow>
     accepts_param pp1 (privkeylen k) (ok A_PRIVKEY) \<and> accepts_param pp2 (pubkeylen k) (ok A_PUBKEY) \<and>
     overruns E (k\<lparr>privkey := param_buffer pp1 (privkey k), pubkey := param_buffer pp2 (pubkey k)\<rparr>)"

lemma import_priv_content:
  assumes "(case pp1 of
         Some d \<Rightarrow> if ip then
           thenS (ensureS (op_octets d) (Raise INVALID_ENCODING))
           (bindS (getS privkeylen) (\<lambda>n.
            thenS (ensureS (n = length (op_data d)) (Raise INVALID_SIZE)) (replace_priv ok (op_data d))))
           else retS ()
       | None \<Rightarrow> retS ()) k = (r, s)"
  shows "r = Inr () \<longleftrightarrow> accepts_param (if ip then pp1 else None) (privkeylen k) (ok A_PRIVKEY)"
    and "r = Inr () \<Longrightarrow> privkey s = param_buffer (if ip then pp1 else None) (privkey k) \<and> pubkey s = pubkey k"
  using assms
  by (auto simp: st_simps replace_priv_def thenS_def bindS_def ensure_def accepts_param_def param_buffer_def
      split: option.splits if_splits)

lemma import_pub_content:
  assumes "(case pp2 of
         Some d \<Rightarrow>
           thenS (ensureS (op_octets d) Quiet)
           (bindS (getS pubkeylen) (\<lambda>n.
            thenS (ensureS (n = length (op_data d)) (Raise INVALID_SIZE)) (replace_pub ok (op_data d))))
       | None \<Rightarrow> retS ()) k = (r, s)"
  shows "r = Inr () \<longleftrightarrow> accepts_param pp2 (pubkeylen k) (ok A_PUBKEY)"
    and "r = Inr () \<Longrightarrow> pubkey s = param_buffer pp2 (pubkey k) \<and> privkey s = privkey k"
  using assms
  by (auto simp: st_simps replace_pub_def thenS_def bindS_def ensure_def accepts_param_def param_buffer_def
      split: option.splits if_splits)

lemma fromdata_tail_no_buffers:
  assumes "wf_key k" and "is_hybrid (keytype k)" and "pubkey k = None" and "privkey k = None"
  shows "fst (fromdata_tail E k) = Inl UB"
proof -
  obtain i where "numkeys k = 2" "evp_info k = Some i" using assms(1,2) by (auto simp: wf_key_def wf_shape_def)
  moreover have "oqsx_key_set_composites f k = (Inr (), k\<lparr>comp_privkey := [Null, Null], comp_pubkey := [Null, Null]\<rparr>)" for f
    using assms calculation by (intro set_composites_hybrid) (auto simp: wf_key_def wf_shape_def hyb_ptrs_def)
  ultimately show ?thesis
    using assms(3,4)
    by (simp add: fromdata_tail_def st_simps thenS_Inr oqsx_key_recreate_classickey_def recreate_public_def
        header_of_def bindS_def readS_def)
qed

lemma fromdata_tail_state:
  assumes h: "wfs k s" and eq: "fromdata_tail E s = (r, s')"
  shows "wf_key s' \<and> same_key k s'"
proof (cases "privkey s = None \<and> pubkey s = None")
  case False
  let ?op = "if privkey s \<noteq> None then KEY_OP_PRIVATE else KEY_OP_PUBLIC"
  have "hb (pubkey s \<noteq> None) (privkey s \<noteq> None) k s" using h by (simp add: hb_def)
  from import_tail_outcome(1) [OF this, of ?op E r s'] eq False show ?thesis
    by (auto simp: fromdata_tail_eq hb_def split: if_splits)
next
  case True
  obtain r1 s1 where c: "oqsx_key_set_composites (is_hyb_kem (keytype s)) s = (r1, s1)" by fastforce
  from safe_at [OF safe_hb_set_composites h, of "is_hyb_kem (keytype s)"] c
  have s1: "wfs k s1" by (auto simp: hb_def split: sum.splits)
  have none: "privkey s1 = None" "pubkey s1 = None" using set_composites_keeps [OF c] True by auto
  have hd: "header_of (pubkey s1) = Inl UB" by (simp add: none header_of_def)
  have "snd (oqsx_key_recreate_classickey E KEY_OP_PUBLIC s1) = s1"
    by (cases "evp_info s1")
      (simp_all add: oqsx_key_recreate_classickey_def recreate_public_def st_simps bindS_def readS_def hd)
  with s1 eq c none show ?thesis
    by (cases r1) (auto simp: fromdata_tail_def st_simps thenS_def bindS_def hb_def)
qed

lemma same_key_material_upd: "same_key k (k\<lparr>privkey := a, pubkey := b\<rparr>)"
  by (simp add: same_key_def)

text \<open>An import with material, before the component pointers are set.\<close>

lemma fromdata_steps:
  fixes k :: "'p oqsx_key" and pp1 pp2 :: "ossl_param option" and ip :: bool
  assumes wf: "wf_key k" and given: "pp1 \<noteq> None \<or> pp2 \<noteq> None"
  defines "q1 \<equiv> if ip then pp1 else None"
  shows "(\<exists>e s. oqsx_key_fromdata E ok pp1 pp2 ip k = (Inl e, s) \<and> e \<noteq> UB \<and> wfs k s \<and> \<not> fromdata_overruns E ok q1 pp2 k) \<or>
    (\<exists>s. oqsx_key_fromdata E ok pp1 pp2 ip k = fromdata_tail E s \<and> wfs k s \<and>
       privkey s = param_buffer q1 (privkey k) \<and> pubkey s = param_buffer pp2 (pubkey k) \<and>
       (fromdata_overruns E ok q1 pp2 k \<longleftrightarrow> overruns E s))"
proof -
  let ?P1 = "(case pp1 of
         Some d \<Rightarrow> if ip then
           thenS (ensureS (op_octets d) (Raise INVALID_ENCODING))
           (bindS (getS privkeylen) (\<lambda>n.
            thenS (ensureS (n = length (op_data d)) (Raise INVALID_SIZE)) (replace_priv ok (op_data d))))
           else retS ()
       | None \<Rightarrow> retS ()) :: ('p oqsx_key, unit) st"
  let ?P2 = "(case pp2 of
         Some d \<Rightarrow>
           thenS (ensureS (op_octets d) Quiet)
           (bindS (getS pubkeylen) (\<lambda>n.
            thenS (ensureS (n = length (op_data d)) (Raise INVALID_SIZE)) (replace_pub ok (op_data d))))
       | None \<Rightarrow> retS ()) :: ('p oqsx_key, unit) st"
  have fd: "oqsx_key_fromdata E ok pp1 pp2 ip k = thenS ?P1 (thenS ?P2 (fromdata_tail E)) k"
    unfolding oqsx_key_fromdata_def [folded fromdata_tail_def] using given by (auto simp: st_simps thenS_def bindS_def ensure_def)
  have k: "wfs k k" using wf by (simp add: hb_def)
  obtain r1 s1 where s1: "?P1 k = (r1, s1)" by fastforce
  note c1 = import_priv_content [OF s1, folded q1_def]
  have w1: "case r1 of Inr x \<Rightarrow> wfs k s1 | Inl e \<Rightarrow> e \<noteq> UB \<and> wfs k s1"
    using safe_at [OF safe_import_priv k, of pp1 ip ok] s1 by (auto simp: hb_def split: sum.splits)
  show ?thesis
  proof (cases r1)
    case (Inl e)
    with w1 c1(1) s1 show ?thesis
      unfolding fd by (auto simp: fromdata_overruns_def thenS_def bindS_def)
  next
    case (Inr u)
    then have h1: "wfs k s1" and r1: "r1 = Inr ()" using w1 by simp_all
    obtain r2 s2 where s2: "?P2 s1 = (r2, s2)" by fastforce
    note c2 = import_pub_content [OF s2]
    have len: "pubkeylen s1 = pubkeylen k" using hb_lens(2) [OF h1] by simp
    have w2: "case r2 of Inr x \<Rightarrow> wfs k s2 | Inl e \<Rightarrow> e \<noteq> UB \<and> wfs k s2"
      using safe_at [OF safe_import_pub h1, of pp2 ok] s2 by (auto simp: hb_def split: sum.splits)
    have run: "thenS ?P1 (thenS ?P2 (fromdata_tail E)) k = thenS ?P2 (fromdata_tail E) s1"
      using s1 r1 by (intro thenS_Inr) simp
    show ?thesis
    proof (cases r2)
      case (Inl e)
      with w2 c2(1) s2 len show ?thesis
        unfolding fd run by (auto simp: fromdata_overruns_def thenS_def bindS_def)
    next
      case Inr2: (Inr v)
      then have h2: "wfs k s2" using w2 by simp
      have b: "privkey s2 = param_buffer q1 (privkey k)" "pubkey s2 = param_buffer pp2 (pubkey k)"
        using c1(2) [OF r1] c2(2) Inr2 by auto
      have "overruns E s2 = overruns E (k\<lparr>privkey := param_buffer q1 (privkey k), pubkey := param_buffer pp2 (pubkey k)\<rparr>)"
        by (rule overruns_static [OF same_key_material_upd same_key_hb [OF h2]]) (simp_all add: b)
      moreover have "thenS ?P2 (fromdata_tail E) s1 = fromdata_tail E s2"
        using s2 Inr2 by (intro thenS_Inr) simp
      ultimately show ?thesis
        unfolding fd run using h2 b c1(1) c2(1) r1 Inr2 len by (auto simp: fromdata_overruns_def)
    qed
  qed
qed

text \<open>
  C24: Import from parameters keeps the key invariant and leaves the component pointers inside the buffers
  when it succeeds, but it is not safe for every input: the behaviour is undefined in exactly two
  cases. A hybrid key without any material that is given only a private key parameter while the
  selection does not include the private key re-creates its classical public key from a NULL buffer;
  and a classical private part in accepted parameters, or already in the key, whose public encoding
  is too long for its place overruns the public buffer.
\<close>

theorem oqsx_key_fromdata_exact:
  assumes "wf_key k" and "oqsx_key_fromdata E ok pp1 pp2 include_private k = (r, k')"
  shows "(r = Inl UB \<longleftrightarrow>
      is_hybrid (keytype k) \<and> pubkey k = None \<and> privkey k = None \<and> pp1 \<noteq> None \<and> pp2 = None \<and> \<not> include_private \<or>
      (pp1 \<noteq> None \<or> pp2 \<noteq> None) \<and> fromdata_overruns E ok (if include_private then pp1 else None) pp2 k)
    \<and> wf_key k' \<and> same_key k k' \<and> (r = Inr () \<longrightarrow> comps_ok k')"
proof (cases "pp1 \<noteq> None \<or> pp2 \<noteq> None")
  case False
  with assms show ?thesis
    by (auto simp: oqsx_key_fromdata_def st_simps thenS_def bindS_def ensure_def)
next
  case True
  let ?q1 = "if include_private then pp1 else None"
  have wfs: "wf_key s \<and> same_key k s" if "wfs k s" for s using that by (simp add: hb_def)
  from fromdata_steps [OF assms(1) True, of E ok include_private] show ?thesis
  proof (elim disjE exE conjE)
    fix e s
    assume f: "oqsx_key_fromdata E ok pp1 pp2 include_private k = (Inl e, s)" "e \<noteq> UB" "wfs k s"
      "\<not> fromdata_overruns E ok ?q1 pp2 k"
    have "\<not> (is_hybrid (keytype k) \<and> pubkey k = None \<and> privkey k = None \<and>
        pp1 \<noteq> None \<and> pp2 = None \<and> \<not> include_private)"
    proof
      assume bare: "is_hybrid (keytype k) \<and> pubkey k = None \<and> privkey k = None \<and>
        pp1 \<noteq> None \<and> pp2 = None \<and> \<not> include_private"
      then have "oqsx_key_fromdata E ok pp1 pp2 include_private k = fromdata_tail E k"
        by (auto simp: oqsx_key_fromdata_def [folded fromdata_tail_def] st_simps)
      with fromdata_tail_no_buffers [OF assms(1), of E] bare arg_cong [OF f(1), of fst] f(2) show False by simp
    qed
    with f show ?thesis using assms(2) wfs by auto
  next
    fix s
    assume s: "oqsx_key_fromdata E ok pp1 pp2 include_private k = fromdata_tail E s" "wfs k s"
      "privkey s = param_buffer ?q1 (privkey k)" "pubkey s = param_buffer pp2 (pubkey k)"
      "fromdata_overruns E ok ?q1 pp2 k \<longleftrightarrow> overruns E s"
    have kt: "keytype s = keytype k" using same_key_fields(1) [OF same_key_hb [OF s(2)]] .
    have empty: "privkey s = None \<and> pubkey s = None \<longleftrightarrow>
        privkey k = None \<and> pubkey k = None \<and> pp1 \<noteq> None \<and> pp2 = None \<and> \<not> include_private"
      using True by (auto simp: s(3,4) param_buffer_def split: option.splits)
    have none: "\<not> overruns E s" if "privkey s = None" using that by (auto simp: overruns_def split: option.splits)
    show ?thesis
    proof (cases "privkey s = None \<and> pubkey s = None")
      case False
      let ?op = "if privkey s \<noteq> None then KEY_OP_PRIVATE else KEY_OP_PUBLIC"
      have "hb (pubkey s \<noteq> None) (privkey s \<noteq> None) k s" using s(2) by (simp add: hb_def)
      moreover have "import_tail E ?op s = (r, k')" using assms(2) s(1) by (simp add: fromdata_tail_eq)
      ultimately show ?thesis
        using import_tail_outcome [of "pubkey s \<noteq> None" "privkey s \<noteq> None" k s ?op E r k'] False empty s(5) True none wfs
        by (auto split: if_splits)
    next
      case both: True
      show ?thesis
      proof (cases "is_hybrid (keytype s)")
        case hyb: True
        have wf: "wf_key s" using s(2) by (simp add: hb_def)
        from fromdata_tail_no_buffers [OF wf hyb, of E] both assms(2) s(1) have "r = Inl UB" by simp
        moreover have "wf_key k' \<and> same_key k k'" using fromdata_tail_state [OF s(2)] assms(2) s(1) by simp
        ultimately show ?thesis using both empty hyb kt by auto
      next
        case False
        then have n: "numkeys s = 1" "length (comp_privkey s) = 1" "length (comp_pubkey s) = 1"
          using s(2) by (auto simp: hb_def wf_key_def wf_shape_def)
        with assms(2) s(1,2) False set_composites_plain [OF n] both kt none s(5) show ?thesis
          by (auto simp: fromdata_tail_def st_simps thenS_Inr oqsx_key_recreate_classickey_def
              wf_key_comp_upd comps_ok_def hb_def same_key_def)
      qed
    qed
  qed
qed

subsection \<open>Witnesses\<close>

text \<open>A table of two algorithms, one of them registered under NID 1200, and full keys.\<close>

definition sample_env :: "string \<Rightarrow> key_env" where
  "sample_env name = \<lparr>env_tbl =
       [(nid_entry0 ''p256_mldsa44'' ''ML-DSA-44'' KEY_TYPE_HYB_SIG 128 0)
          \<lparr>ne_nid := if name = ''p256_mldsa44'' then 1200 else 0\<rparr>,
        (nid_entry0 ''p256_mlkem512'' ''ML-KEM-512'' KEY_TYPE_ECP_HYB_KEM 128 0)
          \<lparr>ne_nid := if name = ''p256_mlkem512'' then 1200 else 0\<rparr>],
     env_sn = (\<lambda>_. Some name), env_calls = all_calls_ok, env_ok = (\<lambda>_. True)\<rparr>"

definition sample_classic :: sample_pkey where
  "sample_classic = (EVP_PKEY_EC, 65, 120, 7)"

definition mldsa_full :: "sample_pkey oqsx_key" where
  "mldsa_full = p256_mldsa\<lparr>classical_pkey := Some sample_classic,
     comp_privkey := comp_ptrs False 5 120, comp_pubkey := comp_ptrs False 4 65,
     privkey := Some (enc32 120 @ sample_priv sample_classic @ replicate 5 9 @ replicate 5 0),
     pubkey := Some (enc32 65 @ sample_pub sample_classic @ replicate 4 9)\<rparr>"

definition mlkem_full :: "sample_pkey oqsx_key" where
  "mlkem_full = p256_mlkem\<lparr>classical_pkey := Some sample_classic,
     comp_privkey := comp_ptrs False 5 121, comp_pubkey := comp_ptrs False 4 65,
     privkey := Some (enc32 120 @ sample_priv sample_classic @ [0] @ replicate 5 9 @ replicate 4 0),
     pubkey := Some (enc32 65 @ sample_pub sample_classic @ replicate 4 9)\<rparr>"

lemma sample_new:
  "oqsx_key_new_from_nid sample_liboqs (env_calls (sample_env ''p256_mldsa44'')) (env_ok (sample_env ''p256_mldsa44''))
     (env_tbl (sample_env ''p256_mldsa44'')) (env_sn (sample_env ''p256_mldsa44'')) 0 None 1200 = Inr p256_mldsa"
  "oqsx_key_new_from_nid sample_liboqs (env_calls (sample_env ''p256_mlkem512'')) (env_ok (sample_env ''p256_mlkem512''))
     (env_tbl (sample_env ''p256_mlkem512'')) (env_sn (sample_env ''p256_mlkem512'')) 0 None 1200 = Inr p256_mlkem"
  by code_simp+

lemma sample_env_ok [simp]: "env_ok (sample_env n) = (\<lambda>_. True)"
  by (simp add: sample_env_def)

lemma sample_full_twins: "twin mldsa_full p256_mldsa" "twin mlkem_full p256_mlkem"
  by (simp_all add: twin_def mldsa_full_def mlkem_full_def)

lemma sample_full_wf: "wf_key mldsa_full" "wf_key mlkem_full"
  by (simp_all add: mldsa_full_def mlkem_full_def p256_mldsa_def p256_mlkem_def sample_key_def sample_qs_def
      wf_key_def wf_shape_def wf_buffers_def is_hybrid_def is_hyb_kem_def classic_info_ok_def
      ok_sizes_def sample_classic_def sample_priv_def sample_pub_def comp_ptrs_def)

lemma sample_full_current: "comps_current mldsa_full" "comps_current mlkem_full"
  unfolding comps_current_def by code_simp+

lemma sample_recreate:
  "oqsx_key_recreate_classickey sample_openssl KEY_OP_PRIVATE mldsa_full = (Inr (), mldsa_full)"
  "oqsx_key_recreate_classickey sample_openssl KEY_OP_PRIVATE mlkem_full = (Inr (), mlkem_full)"
  "oqsx_key_recreate_classickey sample_openssl KEY_OP_PUBLIC mldsa_full =
    (Inr (), mldsa_full\<lparr>classical_pkey := Some (EVP_PKEY_EC, 65, 0, 7)\<rparr>)"
  by code_simp+

lemma sample_octet: "octet_string_codec sample_openssl"
  by (simp add: octet_string_codec_def sample_openssl_def)

lemma sample_headers:
  "slice (enc32 65 @ x) 0 4 = enc32 65" "dec32 (slice (enc32 120 @ x) 0 4) = 120"
  by (simp_all add: slice_append_whole dec32_enc32)

lemma sample_full_fields:
  "evp_info mldsa_full = Some info_p256_sig" "evp_info mlkem_full = Some info_p256"
  "pubkey mldsa_full = Some (the (pubkey mldsa_full))" "pubkey mlkem_full = Some (the (pubkey mlkem_full))"
  "privkey mldsa_full = Some (the (privkey mldsa_full))" "privkey mlkem_full = Some (the (privkey mlkem_full))"
  "slice (the (pubkey mldsa_full)) 0 4 = enc32 65" "slice (the (pubkey mlkem_full)) 0 4 = enc32 65"
  "dec32 (slice (the (privkey mldsa_full)) 0 4) = 120" "dec32 (slice (the (privkey mlkem_full)) 0 4) = 120"
  "pubkeylen mldsa_full = 73" "pubkeylen mlkem_full = 73"
  "privkeylen mldsa_full = 130" "privkeylen mlkem_full = 130"
  "qs mldsa_full = sample_qs" "qs mlkem_full = sample_qs" "qs_length_public_key sample_qs = 4"
  by (simp_all add: mldsa_full_def mlkem_full_def p256_mldsa_def p256_mlkem_def sample_key_def
      sample_headers sample_qs_def)

lemma sample_full_keys:
  "full_key sample_openssl mldsa_full (the (pubkey mldsa_full)) (the (privkey mldsa_full))"
  "full_key sample_openssl mlkem_full (the (pubkey mlkem_full)) (the (privkey mlkem_full))"
  unfolding full_key_def using sample_full_wf sample_full_current sample_recreate(1,2) sample_full_fields
  by simp_all

lemma public_key_round_trip_witness:
  "\<exists>k'. bindR (oqsx_spki_pub_to_der True (Some mldsa_full)) (\<lambda>d.
      oqsx_key_from_x509pubkey sample_liboqs sample_openssl (sample_env ''p256_mldsa44'')
        (Some (spki_of 1200 d)) 0 None) = Inr k' \<and> pubkey k' = pubkey mldsa_full"
  using public_key_round_trip [OF sample_full_wf(1) sample_full_current(1) _ sample_new(1)
      sample_full_twins(1) _ _ sample_recreate(3)]
  by (auto simp: mldsa_full_def)

lemma private_key_round_trip_witness:
  "\<exists>k'. bindR (oqsx_pki_priv_to_der sample_openssl True (Some mldsa_full)) (\<lambda>d.
      oqsx_key_from_pkcs8 sample_liboqs sample_openssl (sample_env ''p256_mldsa44'')
        (Some (pkcs8_of 1200 d)) 0 None) = Inr k' \<and> pubkey k' = pubkey mldsa_full \<and>
      pq_priv_part k' = pq_priv_part mldsa_full"
proof -
  have "\<not> is_hyb_kem (keytype mldsa_full)" by (simp add: mldsa_full_def p256_mldsa_def sample_key_def is_hyb_kem_def)
  with private_key_round_trip [OF sample_full_keys(1) sample_octet sample_new(1) sample_full_twins(1)]
  show ?thesis by auto
qed

lemma private_key_truncation_witness:
  "\<exists>k'. bindR (oqsx_pki_priv_to_der sample_openssl True (Some mlkem_full)) (\<lambda>d.
      oqsx_key_from_pkcs8 sample_liboqs sample_openssl (sample_env ''p256_mlkem512'')
        (Some (pkcs8_of 1200 d)) 0 None) = Inr k' \<and>
     read_comp (comp_privkey mlkem_full) 1 (privkey mlkem_full) 5 = Inr [9, 9, 9, 9, 9] \<and>
     read_comp (comp_privkey k') (idx_pq k') (privkey k') (qs_length_secret_key (qs k')) = Inr [9, 9, 9, 9, 0]"
proof -
  have f: "is_hyb_kem (keytype mlkem_full)" "\<not> reverse_share mlkem_full"
      "evp_info mlkem_full = Some info_p256" "qs mlkem_full = sample_qs" "idx_pq mlkem_full = 1"
      "qs_length_secret_key sample_qs = 5"
    by (simp_all add: mlkem_full_def p256_mlkem_def sample_key_def is_hyb_kem_def idx_pq_def
        oqsx_comp_set_idx_def comp_reverse_def sample_qs_def)
  have r: "read_comp (comp_privkey mlkem_full) 1 (privkey mlkem_full) 5 = Inr [9, 9, 9, 9, 9]"
    by code_simp
  have h: "dec32 (slice (the (privkey mlkem_full)) 0 4) = 120"
    by (simp add: mlkem_full_def sample_headers)
  have r': "read_comp (comp_privkey mlkem_full) (idx_pq mlkem_full) (privkey mlkem_full)
      (qs_length_secret_key (qs mlkem_full)) = Inr [9, 9, 9, 9, 9]"
    using r f(4-6) by simp
  show ?thesis
    using private_key_truncation [OF sample_full_keys(2) sample_octet sample_new(2) sample_full_twins(2)
        _ _ _ f(1,2,3) refl _ r'] f(4-6) r h
    by simp
qed

text \<open>
  A private key whose classical part is well-formed and has a public encoding of 65 bytes, and one whose
  classical part has a public encoding of 200 bytes.
\<close>

definition sample_private_bytes :: "byte \<Rightarrow> bytes" where
  "sample_private_bytes publen = enc32 120 @ [7, publen] @ replicate 118 0 @ replicate 5 9 @ replicate 4 9"

lemma sample_overruns:
  "import_overruns sample_openssl (\<lambda>_. True) p256_mldsa (sample_private_bytes 200)"
  "\<not> import_overruns sample_openssl (\<lambda>_. True) p256_mldsa (sample_private_bytes 65)"
  by code_simp+

lemma oqsx_key_op_exact_witness:
  "oqsx_key_op sample_liboqs sample_openssl (sample_env ''p256_mldsa44'')
     (Some \<lparr>params_undef = True, alg_nid = 1200\<rparr>) (Some (sample_private_bytes 200)) KEY_OP_PRIVATE 0 None = Inl UB \<and>
   oqsx_key_op sample_liboqs sample_openssl (sample_env ''p256_mldsa44'')
     (Some \<lparr>params_undef = True, alg_nid = 1200\<rparr>) (Some (sample_private_bytes 65)) KEY_OP_PRIVATE 0 None \<noteq> Inl UB"
  using oqsx_key_op_exact [of sample_liboqs sample_openssl "sample_env ''p256_mldsa44''"
      "Some \<lparr>params_undef = True, alg_nid = 1200\<rparr>" "Some (sample_private_bytes 200)" KEY_OP_PRIVATE 0 None]
    oqsx_key_op_exact [of sample_liboqs sample_openssl "sample_env ''p256_mldsa44''"
      "Some \<lparr>params_undef = True, alg_nid = 1200\<rparr>" "Some (sample_private_bytes 65)" KEY_OP_PRIVATE 0 None]
    sample_new(1) sample_overruns
  by simp

lemma classic_pub_overflow_witness:
  "fst (store_classic_pub sample_openssl info_p256_sig (EVP_PKEY_EC, 100, 120, 7) mldsa_full) = Inl UB"
proof -
  have "comps_ok mldsa_full"
    by (auto simp: comps_ok_def ptrs_ok_def mldsa_full_def p256_mldsa_def sample_key_def sample_qs_def
        is_hybrid_def comp_reverse_def is_hyb_kem_def comp_ptrs_def sample_classic_def sample_priv_def sample_pub_def)
  from classic_pub_overflow [OF sample_full_wf(1) this _ _ _ _ _ refl, of info_p256_sig sample_openssl
      "(EVP_PKEY_EC, 100, 120, 7)" "replicate 100 7" "the (pubkey mldsa_full)"]
  show ?thesis
    by (simp add: mldsa_full_def p256_mldsa_def sample_key_def is_hybrid_def sample_openssl_def sample_pub_def
        comp_reverse_def is_hyb_kem_def sample_classic_def)
qed

lemma oqsx_key_fromdata_exact_witness:
  "fst (oqsx_key_fromdata sample_openssl (\<lambda>_. True) (Some \<lparr>op_octets = True, op_data = []\<rparr>) None False
     p256_mldsa) = Inl UB \<and>
   fst (oqsx_key_fromdata sample_openssl (\<lambda>_. True)
     (Some \<lparr>op_octets = True, op_data = enc32 120 @ [7, 200] @ replicate 124 0\<rparr>)
     (Some \<lparr>op_octets = True, op_data = enc32 65 @ replicate 69 0\<rparr>) True p256_mldsa) = Inl UB"
proof -
  have "fromdata_overruns sample_openssl (\<lambda>_. True) (Some \<lparr>op_octets = True, op_data = enc32 120 @ [7, 200] @ replicate 124 0\<rparr>)
      (Some \<lparr>op_octets = True, op_data = enc32 65 @ replicate 69 0\<rparr>) p256_mldsa"
    by code_simp
  with oqsx_key_fromdata_exact [OF sample_keys_wf(3) surjective_pairing]
  show ?thesis by (simp add: p256_mldsa_def sample_key_def is_hybrid_def)
qed

end
