(* ===== verification/Key_Heap.thy ===== *)
theory Key_Heap
  imports Sample_Providers "HOL-Library.Multiset"
begin

text \<open>
  Lifetime of key objects: the reference count (\<^verbatim>\<open>oqsx_key_up_ref\<close>, \<^verbatim>\<open>oqsx_key_free\<close> in
  \<^verbatim>\<open>oqsprov_keys.c\<close>) and the KEM contexts that hold keys (\<^verbatim>\<open>oqs_kem.c\<close>). Keys live in a heap, a map
  from addresses; access to a freed key is undefined behaviour. A locale states what a counted
  store promises to its clients; the KEM context here and the signature context in \<open>Sig\<close> use it.
\<close>

subsection \<open>The reference count\<close>

type_synonym 'p kheap = "nat \<Rightarrow> 'p oqsx_key option"

text \<open>A C \<^verbatim>\<open>int\<close>; the atomic operations wrap silently.\<close>

definition wrap_int :: "int \<Rightarrow> int" where
  "wrap_int i = sint (word_of_int i :: 32 word)"

text \<open>\<^verbatim>\<open>oqsx_key_up_ref\<close>, in a build that keeps assertions: one that fails is undefined behaviour.\<close>

definition oqsx_key_up_ref :: "nat \<Rightarrow> 'p kheap \<Rightarrow> 'p kheap res" where
  "oqsx_key_up_ref a h =
     bindR (of_option UB (h a)) (\<lambda>k.
     let refcnt = wrap_int (references k + 1) in
     bindR (ensure (refcnt > 1) UB) (\<lambda>_. Inr (h(a \<mapsto> k\<lparr>references := refcnt\<rparr>))))"

text \<open>
  \<^verbatim>\<open>oqsx_key_free\<close>. The last reference clears \<^verbatim>\<open>privkeylen\<close> and \<^verbatim>\<open>pubkeylen\<close> bytes of the buffers and
  releases the key with everything it owns.
\<close>

definition clears :: "bytes option \<Rightarrow> nat \<Rightarrow> bool" where
  "clears buf n = (case buf of None \<Rightarrow> True | Some b \<Rightarrow> n \<le> length b)"

definition oqsx_key_free :: "nat option \<Rightarrow> 'p kheap \<Rightarrow> 'p kheap res" where
  "oqsx_key_free key h = (case key of
       None \<Rightarrow> Inr h
     | Some a \<Rightarrow>
         bindR (of_option UB (h a)) (\<lambda>k.
         let refcnt = wrap_int (references k - 1) in
         if refcnt > 0 then Inr (h(a \<mapsto> k\<lparr>references := refcnt\<rparr>))
         else bindR (ensure (refcnt = 0) UB) (\<lambda>_.
              bindR (ensure (clears (privkey k) (privkeylen k)) UB) (\<lambda>_.
              bindR (ensure (clears (pubkey k) (pubkeylen k)) UB) (\<lambda>_. Inr (h(a := None)))))))"

lemma wrap_int_small: "0 \<le> i \<Longrightarrow> i < 2 ^ 31 \<Longrightarrow> wrap_int i = i"
  by (simp add: wrap_int_def int_word_sint)

subsection \<open>The interface of a counted store\<close>

text \<open>
  The multiset holds one entry per reference: contexts and callers. The laws say that taking a
  reference to something held and giving one back always succeed and keep the count; the lemma is
  what the initialisation of a context does: it takes the new reference before it gives back the
  old one, which makes it safe even when both are the same.
\<close>

definition ref :: "'a option \<Rightarrow> 'a multiset" where
  "ref o' = (case o' of None \<Rightarrow> {#} | Some a \<Rightarrow> {#a#})"

lemma ref_simps [simp]: "ref None = {#}" "ref (Some a) = {#a#}"
  by (simp_all add: ref_def)

lemma size_ref_le: "size (ref o') \<le> 1"
  by (cases o') simp_all

locale counted_store =
  fixes up :: "'a \<Rightarrow> 'h \<Rightarrow> 'h res" and fr :: "'a option \<Rightarrow> 'h \<Rightarrow> 'h res"
    and counted :: "'h \<Rightarrow> 'a multiset \<Rightarrow> bool" and max_refs :: nat
  assumes up_ok: "counted h H \<Longrightarrow> a \<in># H \<Longrightarrow> size H < max_refs \<Longrightarrow>
      \<exists>h'. up a h = Inr h' \<and> counted h' (add_mset a H)"
    and fr_ok: "counted h (add_mset a H) \<Longrightarrow> size H < max_refs \<Longrightarrow>
      \<exists>h'. fr (Some a) h = Inr h' \<and> counted h' H"
    and fr_null: "fr None h = Inr h"
begin

lemma fr_ref: "counted h (ref o' + H) \<Longrightarrow> size H < max_refs \<Longrightarrow> \<exists>h'. fr o' h = Inr h' \<and> counted h' H"
  using fr_ok fr_null by (cases o') auto

lemma rebind_ok:
  assumes "counted h (ref old + H)" and "a \<in># ref old + H" and "size H + 1 < max_refs"
  shows "\<exists>h1 h2. up a h = Inr h1 \<and> fr old h1 = Inr h2 \<and> counted h2 (add_mset a H)"
proof -
  have "size (ref old + H) < max_refs" using assms(3) size_ref_le [of old] by simp
  from up_ok [OF assms(1,2) this] obtain h1 where h1: "up a h = Inr h1" "counted h1 (ref old + add_mset a H)"
    by auto
  from fr_ref [OF h1(2)] assms(3) h1(1) show ?thesis by auto
qed

lemma share_ok:
  assumes "counted h (ref o' + H)" and "size H + 1 < max_refs"
  shows "\<exists>h'. (case o' of None \<Rightarrow> Inr h | Some a \<Rightarrow> up a h) = Inr h' \<and> counted h' (ref o' + (ref o' + H))"
proof (cases o')
  case (Some a)
  with up_ok [OF assms(1), of a] assms(2) show ?thesis by auto
qed (use assms in simp)

end

definition counted_keys :: "'p kheap \<Rightarrow> nat multiset \<Rightarrow> bool" where
  "counted_keys h H \<longleftrightarrow> (\<forall>a. case h a of
       None \<Rightarrow> count H a = 0
     | Some k \<Rightarrow> references k = int (count H a) \<and> 0 < count H a \<and> wf_key k)"

lemma wf_key_references [simp]: "wf_key (k\<lparr>references := n\<rparr>) = wf_key k"
  by (simp add: wf_key_def wf_shape_def wf_buffers_def classic_info_ok_def)

lemma counted_keysD:
  assumes "counted_keys h H" and "a \<in># H"
  obtains k where "h a = Some k" "references k = int (count H a)" "wf_key k"
proof -
  have "case h a of None \<Rightarrow> count H a = 0
     | Some k \<Rightarrow> references k = int (count H a) \<and> 0 < count H a \<and> wf_key k"
    using assms(1) unfolding counted_keys_def by (rule spec)
  moreover have "count H a \<noteq> 0" using assms(2) by simp
  ultimately show ?thesis by (cases "h a") (use that in auto)
qed

lemma counted_keys_upd:
  assumes "counted_keys h H" and "\<And>b. b \<noteq> a \<Longrightarrow> count H' b = count H b"
    and "case v of None \<Rightarrow> count H' a = 0
      | Some k \<Rightarrow> references k = int (count H' a) \<and> 0 < count H' a \<and> wf_key k"
  shows "counted_keys (h(a := v)) H'"
  unfolding counted_keys_def
proof
  fix b
  show "case (h(a := v)) b of None \<Rightarrow> count H' b = 0
      | Some k \<Rightarrow> references k = int (count H' b) \<and> 0 < count H' b \<and> wf_key k"
    using assms by (cases "b = a") (auto simp only: counted_keys_def fun_upd_apply simp_thms if_False if_True)
qed

lemma count_le_size: "count H a \<le> size H"
  by (induction H) auto

interpretation keystore: counted_store oqsx_key_up_ref oqsx_key_free counted_keys "2 ^ 31 - 1"
proof
  fix h :: "'p kheap" and H :: "nat multiset" and a
  assume c: "counted_keys h H" and a: "a \<in># H" and small: "size H < 2 ^ 31 - 1"
  obtain k where k: "h a = Some k" "references k = int (count H a)" "wf_key k"
    using counted_keysD [OF c a] .
  have "0 < count H a" "count H a < 2 ^ 31 - 1"
    using a small count_le_size [of H a] by (simp_all add: count_greater_zero_iff)
  then have "wrap_int (references k + 1) = int (count H a) + 1"
    by (simp add: k(2) wrap_int_small)
  then have "oqsx_key_up_ref a h = Inr (h(a \<mapsto> k\<lparr>references := int (count H a) + 1\<rparr>))"
    using \<open>0 < count H a\<close> by (simp add: oqsx_key_up_ref_def k(1) Let_def)
  moreover have "counted_keys (h(a \<mapsto> k\<lparr>references := int (count H a) + 1\<rparr>)) (add_mset a H)"
    by (rule counted_keys_upd [OF c]) (use k(3) in simp_all)
  ultimately show "\<exists>h'. oqsx_key_up_ref a h = Inr h' \<and> counted_keys h' (add_mset a H)" by blast
next
  fix h :: "'p kheap" and H :: "nat multiset" and a
  assume c: "counted_keys h (add_mset a H)" and small: "size H < 2 ^ 31 - 1"
  obtain k where "h a = Some k" "references k = int (count (add_mset a H) a)" "wf_key k"
    by (rule counted_keysD [OF c, of a]) simp
  then have k: "h a = Some k" "references k = int (count H a) + 1" "wf_key k" by simp_all
  have "count H a < 2 ^ 31 - 1" using small count_le_size [of H a] by simp
  then have w: "wrap_int (references k - 1) = int (count H a)"
    by (simp add: k(2) wrap_int_small)
  have "clears (privkey k) (privkeylen k)" "clears (pubkey k) (pubkeylen k)"
    using k(3) by (auto simp: clears_def wf_key_def wf_buffers_def split: option.splits)
  then have "oqsx_key_free (Some a) h = Inr (h(a := (if count H a = 0 then None
      else Some (k\<lparr>references := int (count H a)\<rparr>))))"
    by (cases "count H a = 0")
      (simp_all add: oqsx_key_free_def k(1) Let_def w del: count_eq_zero_iff count_greater_zero_iff)
  moreover have "counted_keys (h(a := (if count H a = 0 then None
      else Some (k\<lparr>references := int (count H a)\<rparr>)))) H"
    by (rule counted_keys_upd [OF c]) (use k(3) in \<open>auto split: option.split\<close>)
  ultimately show "\<exists>h'. oqsx_key_free (Some a) h = Inr h' \<and> counted_keys h' H" by blast
next
  show "oqsx_key_free None h = Inr h" for h :: "'p kheap"
    by (simp add: oqsx_key_free_def)
qed

subsection \<open>KEM contexts\<close>

record kem_ctx =
  kc_libctx :: nat
  kc_kem :: "nat option"

definition oqs_kem_newctx :: "bool \<Rightarrow> nat \<Rightarrow> kem_ctx option" where
  "oqs_kem_newctx ok lc = (if ok then Some \<lparr>kc_libctx = lc, kc_kem = None\<rparr> else None)"

definition oqs_kem_freectx :: "kem_ctx \<Rightarrow> 'p kheap \<Rightarrow> 'p kheap res" where
  "oqs_kem_freectx c h = oqsx_key_free (kc_kem c) h"

definition oqs_kem_decapsencaps_init ::
    "kem_ctx option \<Rightarrow> nat option \<Rightarrow> 'p kheap \<Rightarrow> (kem_ctx \<times> 'p kheap) res" where
  "oqs_kem_decapsencaps_init vctx vkem h = (case (vctx, vkem) of
       (Some c, Some a) \<Rightarrow>
         bindR (oqsx_key_up_ref a h) (\<lambda>h1.
         bindR (oqsx_key_free (kc_kem c) h1) (\<lambda>h2. Inr (c\<lparr>kc_kem := Some a\<rparr>, h2)))
     | _ \<Rightarrow> Inl Quiet)"

definition oqs_kem_encaps_init ::
    "kem_ctx option \<Rightarrow> nat option \<Rightarrow> 'p kheap \<Rightarrow> (kem_ctx \<times> 'p kheap) res" where
  "oqs_kem_encaps_init = oqs_kem_decapsencaps_init"

definition oqs_kem_decaps_init ::
    "kem_ctx option \<Rightarrow> nat option \<Rightarrow> 'p kheap \<Rightarrow> (kem_ctx \<times> 'p kheap) res" where
  "oqs_kem_decaps_init = oqs_kem_decapsencaps_init"

subsection \<open>Any order of operations\<close>

text \<open>
  The state of a process that uses keys and KEM contexts: the heap of keys, the contexts it
  created (\<open>None\<close> once freed), and the references its callers hold, one entry each. A step is one
  operation by a caller that keeps the rules of the OpenSSL interface: it passes keys it holds and
  contexts it has not freed, and frees a reference it holds. A new key may take any address that is
  free, so also one that was freed before.
\<close>

record 'p kworld =
  kw_keys :: "'p kheap"
  kw_ctxs :: "kem_ctx option list"
  kw_callers :: "nat multiset"

definition ctx_ref :: "kem_ctx option \<Rightarrow> nat multiset" where
  "ctx_ref c = ref (Option.bind c kc_kem)"

definition held :: "'p kworld \<Rightarrow> nat multiset" where
  "held w = sum_list (map ctx_ref (kw_ctxs w)) + kw_callers w"

inductive kstep :: "'p kworld \<Rightarrow> 'p kworld res \<Rightarrow> bool" where
  new: "kw_keys w a = None \<Longrightarrow> wf_key k \<Longrightarrow> references k = 1 \<Longrightarrow>
    kstep w (Inr (w\<lparr>kw_keys := (kw_keys w)(a \<mapsto> k), kw_callers := add_mset a (kw_callers w)\<rparr>))"
| up: "a \<in># kw_callers w \<Longrightarrow>
    kstep w (bindR (oqsx_key_up_ref a (kw_keys w)) (\<lambda>h.
      Inr (w\<lparr>kw_keys := h, kw_callers := add_mset a (kw_callers w)\<rparr>)))"
| free: "a \<in># kw_callers w \<Longrightarrow>
    kstep w (bindR (oqsx_key_free (Some a) (kw_keys w)) (\<lambda>h.
      Inr (w\<lparr>kw_keys := h, kw_callers := kw_callers w - {#a#}\<rparr>)))"
| ctx_new: "oqs_kem_newctx True lc = Some c \<Longrightarrow>
    kstep w (Inr (w\<lparr>kw_ctxs := kw_ctxs w @ [Some c]\<rparr>))"
| encaps_init: "i < length (kw_ctxs w) \<Longrightarrow> kw_ctxs w ! i = Some c \<Longrightarrow> a \<in># kw_callers w \<Longrightarrow>
    kstep w (bindR (oqs_kem_encaps_init (Some c) (Some a) (kw_keys w)) (\<lambda>(c', h).
      Inr (w\<lparr>kw_keys := h, kw_ctxs := (kw_ctxs w)[i := Some c']\<rparr>)))"
| decaps_init: "i < length (kw_ctxs w) \<Longrightarrow> kw_ctxs w ! i = Some c \<Longrightarrow> a \<in># kw_callers w \<Longrightarrow>
    kstep w (bindR (oqs_kem_decaps_init (Some c) (Some a) (kw_keys w)) (\<lambda>(c', h).
      Inr (w\<lparr>kw_keys := h, kw_ctxs := (kw_ctxs w)[i := Some c']\<rparr>)))"
| ctx_free: "i < length (kw_ctxs w) \<Longrightarrow> kw_ctxs w ! i = Some c \<Longrightarrow>
    kstep w (bindR (oqs_kem_freectx c (kw_keys w)) (\<lambda>h.
      Inr (w\<lparr>kw_keys := h, kw_ctxs := (kw_ctxs w)[i := None]\<rparr>)))"

text \<open>Fewer references at a time than a C \<^verbatim>\<open>int\<close> can count.\<close>

definition few_refs :: "'p kworld \<Rightarrow> bool" where
  "few_refs w \<longleftrightarrow> size (held w) + 1 < 2 ^ 31 - 1"

inductive kreach :: "'p kworld \<Rightarrow> bool" where
  start: "kreach \<lparr>kw_keys = (\<lambda>_. None), kw_ctxs = [], kw_callers = {#}\<rparr>"
| step: "kreach w \<Longrightarrow> few_refs w \<Longrightarrow> kstep w (Inr w') \<Longrightarrow> kreach w'"

lemma sum_ctx_split:
  "i < length cs \<Longrightarrow> \<exists>R. \<forall>v. sum_list (map ctx_ref (cs[i := v])) = ctx_ref v + R"
proof (induction cs arbitrary: i)
  case (Cons c cs)
  show ?case
  proof (cases i)
    case 0
    then show ?thesis by (intro exI [of _ "sum_list (map ctx_ref cs)"]) simp
  next
    case (Suc j)
    with Cons obtain R where "\<forall>v. sum_list (map ctx_ref (cs[j := v])) = ctx_ref v + R" by auto
    then show ?thesis using Suc by (intro exI [of _ "ctx_ref c + R"]) (simp add: ac_simps)
  qed
qed simp

lemma held_ctx:
  assumes "i < length (kw_ctxs w)" and "kw_ctxs w ! i = Some c"
  obtains R where "held w = ref (kc_kem c) + R" "kw_callers w \<subseteq># R"
    and "\<And>h v. held (w\<lparr>kw_keys := h, kw_ctxs := (kw_ctxs w)[i := v]\<rparr>) = ctx_ref v + R"
proof -
  from sum_ctx_split [OF assms(1)] obtain R where
    R: "\<And>v. sum_list (map ctx_ref ((kw_ctxs w)[i := v])) = ctx_ref v + R" by auto
  from R [of "Some c"] assms have "sum_list (map ctx_ref (kw_ctxs w)) = ref (kc_kem c) + R"
    by (metis list_update_id ctx_ref_def Option.bind.simps(2))
  then show thesis
    by (intro that [of "R + kw_callers w"]) (simp_all add: held_def R ac_simps)
qed

lemma kstep_counted:
  assumes "kstep w r" and "counted_keys (kw_keys w) (held w)" and "few_refs w"
  shows "\<exists>w'. r = Inr w' \<and> counted_keys (kw_keys w') (held w')"
  using assms
proof (cases rule: kstep.cases)
  case (new a k)
  then have "count (held w) a = 0"
    using assms(2) by (auto simp: counted_keys_def dest!: spec [of _ a] simp del: count_eq_zero_iff)
  with new assms(2) show ?thesis
    by (auto simp: held_def intro!: counted_keys_upd simp del: count_eq_zero_iff)
next
  case (up a)
  then have "a \<in># held w" by (simp add: held_def)
  from keystore.up_ok [OF assms(2) this] assms(3) up show ?thesis
    by (auto simp: few_refs_def held_def)
next
  case (free a)
  let ?H = "sum_list (map ctx_ref (kw_ctxs w)) + (kw_callers w - {#a#})"
  have H: "held w = add_mset a ?H"
    using free(2) by (simp add: held_def flip: union_mset_add_mset_right)
  then have "size ?H < 2 ^ 31 - 1" using assms(3) by (simp add: few_refs_def)
  from keystore.fr_ok [OF assms(2) [unfolded H] this] obtain h
    where "oqsx_key_free (Some a) (kw_keys w) = Inr h" "counted_keys h ?H" by blast
  then show ?thesis by (simp add: free(1) held_def)
next
  case (ctx_new lc c)
  then show ?thesis using assms(2) by (auto simp: held_def oqs_kem_newctx_def ctx_ref_def)
next
  case (encaps_init i c a)
  obtain R where R: "held w = ref (kc_kem c) + R" "kw_callers w \<subseteq># R"
    "\<And>h v. held (w\<lparr>kw_keys := h, kw_ctxs := (kw_ctxs w)[i := v]\<rparr>) = ctx_ref v + R"
    using held_ctx [OF encaps_init(2,3)] by metis
  have "a \<in># ref (kc_kem c) + R" using encaps_init(4) R(2) by (auto dest: mset_subset_eqD)
  from keystore.rebind_ok [OF assms(2) [unfolded R(1)] this] assms(3) R encaps_init(1) show ?thesis
    by (auto simp: few_refs_def oqs_kem_encaps_init_def oqs_kem_decapsencaps_init_def ctx_ref_def)
next
  case (decaps_init i c a)
  obtain R where R: "held w = ref (kc_kem c) + R" "kw_callers w \<subseteq># R"
    "\<And>h v. held (w\<lparr>kw_keys := h, kw_ctxs := (kw_ctxs w)[i := v]\<rparr>) = ctx_ref v + R"
    using held_ctx [OF decaps_init(2,3)] by metis
  have "a \<in># ref (kc_kem c) + R" using decaps_init(4) R(2) by (auto dest: mset_subset_eqD)
  from keystore.rebind_ok [OF assms(2) [unfolded R(1)] this] assms(3) R decaps_init(1) show ?thesis
    by (auto simp: few_refs_def oqs_kem_decaps_init_def oqs_kem_decapsencaps_init_def ctx_ref_def)
next
  case (ctx_free i c)
  obtain R where R: "held w = ref (kc_kem c) + R"
    "\<And>h v. held (w\<lparr>kw_keys := h, kw_ctxs := (kw_ctxs w)[i := v]\<rparr>) = ctx_ref v + R"
    using held_ctx [OF ctx_free(2,3)] by metis
  from keystore.fr_ref [OF assms(2) [unfolded R(1)]] assms(3) R ctx_free(1) show ?thesis
    by (auto simp: few_refs_def oqs_kem_freectx_def ctx_ref_def)
qed

lemma kreach_counted: "kreach w \<Longrightarrow> counted_keys (kw_keys w) (held w)"
proof (induction rule: kreach.induct)
  case start
  then show ?case by (simp add: counted_keys_def held_def)
next
  case (step w w')
  from kstep_counted [OF step(3,4,2)] show ?case by auto
qed

text \<open>
  C17: Keys live exactly as long as they are referenced. In every state a process can reach by
  creating, sharing and releasing keys and by creating, (re-)initialising and freeing KEM contexts
  in any order, a key is allocated if and only if a caller or a context refers to it (so none is
  used after it was freed, and none leaks), its counter is the number of references, and no next
  operation has undefined behaviour.
\<close>

theorem key_lifetime:
  assumes "kreach w"
  shows "(kw_keys w a = None \<longleftrightarrow> a \<notin># held w) \<and>
    (\<forall>k. kw_keys w a = Some k \<longrightarrow> references k = int (count (held w) a) \<and> wf_key k) \<and>
    (\<forall>r. few_refs w \<longrightarrow> kstep w r \<longrightarrow> (\<exists>w'. r = Inr w' \<and> kreach w'))"
proof (intro conjI)
  note c = kreach_counted [OF assms]
  then have "case kw_keys w a of None \<Rightarrow> count (held w) a = 0
     | Some k \<Rightarrow> references k = int (count (held w) a) \<and> 0 < count (held w) a \<and> wf_key k"
    by (simp add: counted_keys_def)
  then show "kw_keys w a = None \<longleftrightarrow> a \<notin># held w"
    and "\<forall>k. kw_keys w a = Some k \<longrightarrow> references k = int (count (held w) a) \<and> wf_key k"
    by (auto simp: not_in_iff split: option.splits simp del: count_eq_zero_iff)
  show "\<forall>r. few_refs w \<longrightarrow> kstep w r \<longrightarrow> (\<exists>w'. r = Inr w' \<and> kreach w')"
    using kstep_counted [OF _ c] kreach.step [OF assms] by blast
qed

text \<open>A process that has created one key and one context that uses it.\<close>

definition sample_world :: "sample_pkey kworld" where
  "sample_world = \<lparr>kw_keys = [0 \<mapsto> p256_mlkem\<lparr>references := 2\<rparr>],
     kw_ctxs = [Some \<lparr>kc_libctx = 0, kc_kem = Some 0\<rparr>], kw_callers = {#0#}\<rparr>"

lemma kreach_stepI: "kreach w \<Longrightarrow> kstep w (Inr w') \<Longrightarrow> few_refs w \<Longrightarrow> kreach w'"
  by (rule kreach.step)

lemma sample_world_reachable: "kreach sample_world"
proof -
  let ?w0 = "\<lparr>kw_keys = (\<lambda>_. None), kw_ctxs = [], kw_callers = {#}\<rparr> :: sample_pkey kworld"
  let ?w1 = "\<lparr>kw_keys = [0 \<mapsto> p256_mlkem], kw_ctxs = [], kw_callers = {#0#}\<rparr> :: sample_pkey kworld"
  let ?w2 = "?w1\<lparr>kw_ctxs := [Some \<lparr>kc_libctx = 0, kc_kem = None\<rparr>]\<rparr>"
  have r1: "references p256_mlkem = 1" by (simp add: p256_mlkem_def sample_key_def)
  have "kstep ?w0 (Inr ?w1)"
    using kstep.new [of ?w0 0 p256_mlkem] by (simp add: sample_keys_wf r1)
  with kreach.start have w1: "kreach ?w1"
    by (rule kreach_stepI) (simp add: few_refs_def held_def)
  have "kstep ?w1 (Inr ?w2)"
    using kstep.ctx_new [of 0 "\<lparr>kc_libctx = 0, kc_kem = None\<rparr>" ?w1] by (simp add: oqs_kem_newctx_def)
  with w1 have w2: "kreach ?w2"
    by (rule kreach_stepI) (simp add: few_refs_def held_def)
  have "kstep ?w2 (Inr sample_world)"
    using kstep.encaps_init [of 0 ?w2 "\<lparr>kc_libctx = 0, kc_kem = None\<rparr>" 0]
    by (simp add: oqs_kem_encaps_init_def oqs_kem_decapsencaps_init_def oqsx_key_up_ref_def oqsx_key_free_def
        r1 wrap_int_small sample_world_def Let_def)
  with w2 show ?thesis
    by (rule kreach_stepI) (simp add: few_refs_def held_def ctx_ref_def)
qed

lemma key_lifetime_witness:
  "kw_keys sample_world 0 \<noteq> None \<and> references (the (kw_keys sample_world 0)) = 2 \<and>
     kw_keys sample_world 1 = None"
proof -
  note k = key_lifetime [OF sample_world_reachable]
  have c: "count (held sample_world) 0 = 2" "1 \<notin># held sample_world"
    by (simp_all add: sample_world_def held_def ctx_ref_def)
  then have "0 \<in># held sample_world" by (simp flip: count_greater_zero_iff)
  with k [of 0] have p: "kw_keys sample_world 0 \<noteq> None" by blast
  then obtain key where key: "kw_keys sample_world 0 = Some key" by blast
  with k [of 0] have "references key = int (count (held sample_world) 0)" by blast
  with key p c k [of 1] show ?thesis by simp
qed

end
