(* ===== verification/Kem.thy ===== *)
theory Kem
  imports Key_Gen
begin

text \<open>
  Key encapsulation: the post-quantum slot operations of \<^verbatim>\<open>oqs_kem.c\<close>, the classical slot
  operations and the hybrid combination of \<^verbatim>\<open>oqs_hyb_kem.c\<close>. An operation reads a key and works
  on the caller's two buffers; output pointers are offsets into them, \<open>None\<close> for NULL. Length
  arguments are in-out, so an operation returns the lengths it leaves behind.
\<close>

record kem_io =
  ct_buf :: bytes
  secret_buf :: bytes

definition put_ct :: "nat \<Rightarrow> bytes \<Rightarrow> (kem_io, unit) st" where
  "put_ct off d = bindS (readS (\<lambda>s. wr (ct_buf s) off d)) (\<lambda>b. modS (\<lambda>s. s\<lparr>ct_buf := b\<rparr>))"

definition put_secret :: "nat \<Rightarrow> bytes \<Rightarrow> (kem_io, unit) st" where
  "put_secret off d =
     bindS (readS (\<lambda>s. wr (secret_buf s) off d)) (\<lambda>b. modS (\<lambda>s. s\<lparr>secret_buf := b\<rparr>))"

text \<open>A component pointer that is tested for NULL before it is used.\<close>

definition comp_slot :: "cptr list \<Rightarrow> nat \<Rightarrow> nat option res" where
  "comp_slot ps i =
     (if i < length ps then case ps ! i of Off n \<Rightarrow> Inr (Some n) | Null \<Rightarrow> Inr None | Uninit \<Rightarrow> Inl UB
      else Inl UB)"

subsection \<open>The post-quantum slot\<close>

definition oqs_qs_kem_encaps_keyslot ::
    "liboqs \<Rightarrow> 'p oqsx_key option \<Rightarrow> nat \<Rightarrow> nat \<Rightarrow> nat option \<Rightarrow> nat option \<Rightarrow> nat option \<Rightarrow> nat option
      \<Rightarrow> (kem_io, int \<times> nat option \<times> nat option) st" where
  "oqs_qs_kem_encaps_keyslot L kem seed keyslot out outlen secret secretlen =
     (case kem of
       None \<Rightarrow> retS (-1, outlen, secretlen)
     | Some k \<Rightarrow>
         bindS (liftS (comp_slot (comp_pubkey k) keyslot)) (\<lambda>p. case p of
           None \<Rightarrow> retS (-1, outlen, secretlen)
         | Some po \<Rightarrow>
             (case (outlen, secretlen) of
               (Some n, Some m) \<Rightarrow>
                 (let ctl = qs_length_ciphertext (qs k); ssl = qs_length_shared_secret (qs k) in
                  case (out, secret) of
                    (Some co, Some so) \<Rightarrow>
                      if n < ctl then retS (-1, outlen, secretlen)
                      else if m < ssl then retS (-1, outlen, secretlen)
                      else bindS (liftS (bindR (of_option UB (pubkey k))
                             (\<lambda>b. rd b po (qs_length_public_key (qs k))))) (\<lambda>pk.
                        (case OQS_KEM_encaps L (qs k) seed pk of
                          None \<Rightarrow> retS (0, Some ctl, Some ssl)
                        | Some (ct, ss) \<Rightarrow>
                            thenS (put_ct co ct) (thenS (put_secret so ss)
                              (retS (1, Some ctl, Some ssl)))))
                  | _ \<Rightarrow> retS (1, Some ctl, Some ssl))
             | _ \<Rightarrow> retS (-1, outlen, secretlen))))"

definition oqs_qs_kem_decaps_keyslot ::
    "liboqs \<Rightarrow> 'p oqsx_key option \<Rightarrow> nat \<Rightarrow> nat option \<Rightarrow> nat option \<Rightarrow> nat option \<Rightarrow> nat
      \<Rightarrow> (kem_io, int \<times> nat option) st" where
  "oqs_qs_kem_decaps_keyslot L kem keyslot out outlen inp inlen =
     (case kem of
       None \<Rightarrow> retS (-1, outlen)
     | Some k \<Rightarrow>
         bindS (liftS (comp_slot (comp_privkey k) keyslot)) (\<lambda>p. case p of
           None \<Rightarrow> retS (-1, outlen)
         | Some po \<Rightarrow>
             (let ctl = qs_length_ciphertext (qs k); ssl = qs_length_shared_secret (qs k) in
             (case out of
               None \<Rightarrow> retS (1, map_option (\<lambda>_. ssl) outlen)
             | Some so \<Rightarrow>
                 if inlen \<noteq> ctl then retS (0, outlen)
                 else (case (inp, outlen) of
                   (Some co, Some n) \<Rightarrow>
                     if n < ssl then retS (-1, outlen)
                     else bindS (readS (\<lambda>s. rd (ct_buf s) co ctl)) (\<lambda>ct.
                       bindS (liftS (bindR (of_option UB (privkey k))
                           (\<lambda>b. rd b po (qs_length_secret_key (qs k))))) (\<lambda>sk.
                       (case OQS_KEM_decaps L (qs k) ct sk of
                         None \<Rightarrow> retS (0, Some ssl)
                       | Some ss \<Rightarrow> thenS (put_secret so ss) (retS (1, Some ssl)))))
                 | _ \<Rightarrow> retS (-1, outlen))))))"

definition oqs_qs_kem_encaps ::
    "liboqs \<Rightarrow> 'p oqsx_key option \<Rightarrow> nat \<Rightarrow> nat option \<Rightarrow> nat option \<Rightarrow> nat option \<Rightarrow> nat option
      \<Rightarrow> (kem_io, int \<times> nat option \<times> nat option) st" where
  "oqs_qs_kem_encaps L kem seed = oqs_qs_kem_encaps_keyslot L kem seed 0"

definition oqs_qs_kem_decaps ::
    "liboqs \<Rightarrow> 'p oqsx_key option \<Rightarrow> nat option \<Rightarrow> nat option \<Rightarrow> nat option \<Rightarrow> nat
      \<Rightarrow> (kem_io, int \<times> nat option) st" where
  "oqs_qs_kem_decaps L kem = oqs_qs_kem_decaps_keyslot L kem 0"

subsection \<open>The classical slot\<close>

text \<open>
  \<^verbatim>\<open>EVP_PKEY_derive\<close> gets the length of the space at \<open>secret\<close> and fails rather than exceed it.
  The value \<^verbatim>\<open>ret\<close> of the last successful call is returned, which is 1.
\<close>

definition oqs_evp_kem_encaps_keyslot ::
    "'p openssl \<Rightarrow> 'p oqsx_key \<Rightarrow> nat \<Rightarrow> nat \<Rightarrow> nat option \<Rightarrow> nat option
      \<Rightarrow> (kem_io, int \<times> nat \<times> nat) st" where
  "oqs_evp_kem_encaps_keyslot E k seed keyslot ct secret =
     bindS (liftS (key_evp_info k)) (\<lambda>i.
     let n = length_public_key i; m = kex_length_secret i in
     case (ct, secret) of
       (Some co, Some so) \<Rightarrow>
         bindS (liftS (read_comp (comp_pubkey k) keyslot (pubkey k) n)) (\<lambda>pubkey_kex.
         (case EVP_PKEY_set1_encoded_public_key E i pubkey_kex of
           None \<Rightarrow> retS (-1, n, m)
         | Some peerpk \<Rightarrow> (case EVP_PKEY_keygen E i 0 seed of
             None \<Rightarrow> retS (-1, n, m)
           | Some pkey \<Rightarrow> (case EVP_PKEY_derive E pkey peerpk of
               None \<Rightarrow> retS (-1, n, m)
             | Some z \<Rightarrow>
                 if length z > m then retS (-1, n, m)
                 else thenS (put_secret so z)
                   (case EVP_PKEY_get1_encoded_public_key E pkey of
                     None \<Rightarrow> retS (-1, n, m)
                   | Some ctkex \<Rightarrow>
                       if length ctkex = 0 \<or> length ctkex \<noteq> n then retS (-1, n, m)
                       else thenS (put_ct co ctkex) (retS (1, n, m)))))))
     | _ \<Rightarrow> retS (1, n, m))"

definition parse_classic_priv :: "'p openssl \<Rightarrow> evp_info \<Rightarrow> bytes \<Rightarrow> 'p option" where
  "parse_classic_priv E i b =
     (if raw_key_support i then EVP_PKEY_new_raw_private_key E (ei_keytype i) b
      else d2i_AutoPrivateKey E b)"

definition oqs_evp_kem_decaps_keyslot ::
    "'p openssl \<Rightarrow> 'p oqsx_key \<Rightarrow> nat \<Rightarrow> nat option \<Rightarrow> nat option \<Rightarrow> (kem_io, int \<times> nat) st" where
  "oqs_evp_kem_decaps_keyslot E k keyslot secret ct =
     bindS (liftS (key_evp_info k)) (\<lambda>i.
     let m = kex_length_secret i in
     case secret of
       None \<Rightarrow> retS (1, m)
     | Some so \<Rightarrow>
         bindS (liftS (read_comp (comp_privkey k) keyslot (privkey k) (length_private_key i))) (\<lambda>s.
         (case parse_classic_priv E i s of
           None \<Rightarrow> retS (if raw_key_support i then -10 else -2, m)
         | Some pkey \<Rightarrow>
             bindS (liftS (of_option UB ct)) (\<lambda>co.
             bindS (readS (\<lambda>io. rd (ct_buf io) co (length_public_key i))) (\<lambda>c.
             (case EVP_PKEY_set1_encoded_public_key E i c of
               None \<Rightarrow> retS (-5, m)
             | Some peer \<Rightarrow> (case EVP_PKEY_derive E pkey peer of
                 None \<Rightarrow> retS (-9, m)
               | Some z \<Rightarrow>
                   if length z > m then retS (-9, m)
                   else thenS (put_secret so z) (retS (1, m)))))))))"

subsection \<open>The hybrid combination\<close>

text \<open>
  \<^verbatim>\<open>oqs_hyb_kem_encaps\<close> over its two slot operations: both are first asked for their lengths, then
  called on their parts of the caller's buffers, the post-quantum part first when the key
  reverses its shares. \<open>n0\<close> and \<open>m0\<close> are the values of \<^verbatim>\<open>*ctlen\<close> and \<^verbatim>\<open>*secretlen\<close> on entry.
\<close>

type_synonym slot_call =
  "nat option \<Rightarrow> nat option \<Rightarrow> nat \<Rightarrow> nat \<Rightarrow> (kem_io, int \<times> nat \<times> nat) st"

definition hyb_encaps :: "slot_call \<Rightarrow> slot_call \<Rightarrow> bool \<Rightarrow> slot_call" where
  "hyb_encaps evp pq rv ct secret n0 m0 =
     bindS (evp None None 0 0) (\<lambda>(ret, nc, mc).
     if ret \<le> 0 then retS (-1, n0, m0) else
     bindS (pq None None 0 0) (\<lambda>(ret, nq, mq).
     if ret \<le> 0 then retS (-1, n0, m0) else
     (case (ct, secret) of
       (Some co, Some so) \<Rightarrow>
         (let ctClassical = (if rv then co + nq else co); ctPQ = (if rv then co else co + nc);
              secretClassical = (if rv then so + mq else so);
              secretPQ = (if rv then so else so + mc) in
          bindS (evp (Some ctClassical) (Some secretClassical) nc mc) (\<lambda>(ret, _, _).
          if ret \<le> 0 then retS (-1, nc + nq, mc + mq) else
          bindS (pq (Some ctPQ) (Some secretPQ) nq mq) (\<lambda>(ret, _, _).
          if ret \<le> 0 then retS (-1, nc + nq, mc + mq) else retS (ret, nc + nq, mc + mq))))
     | _ \<Rightarrow> retS (1, nc + nq, mc + mq))))"

definition evp_slot :: "'p openssl \<Rightarrow> 'p oqsx_key \<Rightarrow> nat \<Rightarrow> slot_call" where
  "evp_slot E k seed ct secret n m =
     oqs_evp_kem_encaps_keyslot E k seed (if reverse_share k then 1 else 0) ct secret"

definition qs_slot :: "liboqs \<Rightarrow> 'p oqsx_key \<Rightarrow> nat \<Rightarrow> slot_call" where
  "qs_slot L k seed ct secret n m =
     bindS (oqs_qs_kem_encaps_keyslot L (Some k) seed (if reverse_share k then 0 else 1)
        ct (Some n) secret (Some m))
       (\<lambda>(r, n', m'). retS (r, (case n' of None \<Rightarrow> n | Some x \<Rightarrow> x), (case m' of None \<Rightarrow> m | Some x \<Rightarrow> x)))"

definition oqs_hyb_kem_encaps ::
    "liboqs \<Rightarrow> 'p openssl \<Rightarrow> 'p oqsx_key option \<Rightarrow> nat \<Rightarrow> nat \<Rightarrow> slot_call" where
  "oqs_hyb_kem_encaps L E kem rc rq ct secret n0 m0 =
     (case kem of
       None \<Rightarrow> failS UB
     | Some k \<Rightarrow> hyb_encaps (evp_slot E k rc) (qs_slot L k rq) (reverse_share k) ct secret n0 m0)"

definition oqs_hyb_kem_decaps ::
    "liboqs \<Rightarrow> 'p openssl \<Rightarrow> 'p oqsx_key option \<Rightarrow> nat option \<Rightarrow> nat \<Rightarrow> nat \<Rightarrow> nat \<Rightarrow> (kem_io, int \<times> nat) st" where
  "oqs_hyb_kem_decaps L E kem secret m0 ct ctlen =
     (case kem of
       None \<Rightarrow> failS UB
     | Some k \<Rightarrow>
         (let rv = reverse_share k; sc = (if rv then 1 else 0); sq = (if rv then 0 else 1) in
          bindS (oqs_evp_kem_decaps_keyslot E k sc None None) (\<lambda>(ret, mc).
          if ret \<le> 0 then retS (-1, m0) else
          bindS (oqs_qs_kem_decaps_keyslot L (Some k) sq None (Some 0) None 0) (\<lambda>(ret, mq').
          if ret \<le> 0 then retS (-1, m0) else
          (let mq = (case mq' of None \<Rightarrow> 0 | Some x \<Rightarrow> x) in
          (case secret of
            None \<Rightarrow> retS (1, mc + mq)
          | Some so \<Rightarrow>
              bindS (liftS (key_evp_info k)) (\<lambda>i.
              let nc = length_public_key i; nq = qs_length_ciphertext (qs k) in
              if nc + nq \<noteq> ctlen then retS (-1, mc + mq)
              else
                (let ctPQ = (if rv then ct else ct + nc); ctClassical = (if rv then ct + nq else ct);
                     secretPQ = (if rv then so else so + mc);
                     secretClassical = (if rv then so + mq else so) in
                 bindS (oqs_evp_kem_decaps_keyslot E k sc (Some secretClassical) (Some ctClassical))
                   (\<lambda>(ret, _).
                 if ret \<le> 0 then retS (-1, mc + mq) else
                 bindS (oqs_qs_kem_decaps_keyslot L (Some k) sq (Some secretPQ) (Some mq) (Some ctPQ) nq)
                   (\<lambda>(ret, _).
                 if ret \<le> 0 then retS (-1, mc + mq) else retS (ret, mc + mq)))))))))))"

subsection \<open>The two-phase slot protocol\<close>

text \<open>
  What the combination relies on, for either slot: asked with a NULL output the call reports the
  lengths of its two outputs and touches nothing; called with that much room it writes exactly
  those outputs. \<open>ready x\<close> holds of the calls that do not fail, and \<open>ct x\<close>, \<open>ss x\<close> are their
  outputs.
\<close>

locale kem_slot =
  fixes call :: "'x \<Rightarrow> slot_call" and ready :: "'x \<Rightarrow> bool"
    and ct :: "'x \<Rightarrow> bytes" and ss :: "'x \<Rightarrow> bytes"
  assumes query: "ready x \<Longrightarrow> a = None \<or> b = None \<Longrightarrow>
      call x a b n m io = (Inr (1, length (ct x), length (ss x)), io)"
    and run: "ready x \<Longrightarrow> co + length (ct x) \<le> length (ct_buf io)
      \<Longrightarrow> so + length (ss x) \<le> length (secret_buf io) \<Longrightarrow>
      call x (Some co) (Some so) (length (ct x)) (length (ss x)) io =
        (Inr (1, length (ct x), length (ss x)),
         io\<lparr>ct_buf := patch (ct_buf io) co (ct x), secret_buf := patch (secret_buf io) so (ss x)\<rparr>)"

text \<open>The order in which the shares of a hybrid are concatenated.\<close>

definition share_order :: "bool \<Rightarrow> bytes \<Rightarrow> bytes \<Rightarrow> bytes" where
  "share_order rv classic pq = (if rv then pq @ classic else classic @ pq)"

lemma length_share_order [simp]: "length (share_order rv a b) = length a + length b"
  by (simp add: share_order_def)

lemma patch_shares:
  "off + (length c + length q) \<le> length b \<Longrightarrow>
     patch (patch b (if rv then off + length q else off) c) (if rv then off else off + length c) q
       = patch b off (share_order rv c q)"
  by (cases rv; cases c) (auto simp: patch_def share_order_def drop_append min_def ac_simps)

locale kem_pair =
  a: kem_slot evp ready_a ct_a ss_a + b: kem_slot pq ready_b ct_b ss_b
  for evp :: "'x \<Rightarrow> slot_call" and ready_a ct_a ss_a
    and pq :: "'y \<Rightarrow> slot_call" and ready_b ct_b ss_b
begin

lemma hyb_query:
  assumes "ready_a x" and "ready_b y" and "a = None \<or> b = None"
  shows "hyb_encaps (evp x) (pq y) rv a b n m io =
    (Inr (1, length (ct_a x) + length (ct_b y), length (ss_a x) + length (ss_b y)), io)"
  using assms(3) a.query [OF assms(1)] b.query [OF assms(2)]
  by (auto simp: hyb_encaps_def bindS_def st_simps split: option.splits)

lemma hyb_run:
  assumes "ready_a x" and "ready_b y"
    and "co + (length (ct_a x) + length (ct_b y)) \<le> length (ct_buf io)"
    and "so + (length (ss_a x) + length (ss_b y)) \<le> length (secret_buf io)"
  shows "hyb_encaps (evp x) (pq y) rv (Some co) (Some so) n m io =
    (Inr (1, length (ct_a x) + length (ct_b y), length (ss_a x) + length (ss_b y)),
     io\<lparr>ct_buf := patch (ct_buf io) co (share_order rv (ct_a x) (ct_b y)),
        secret_buf := patch (secret_buf io) so (share_order rv (ss_a x) (ss_b y))\<rparr>)"
proof -
  let ?c1 = "if rv then co + length (ct_b y) else co" and ?c2 = "if rv then co else co + length (ct_a x)"
  let ?s1 = "if rv then so + length (ss_b y) else so" and ?s2 = "if rv then so else so + length (ss_a x)"
  let ?io1 = "io\<lparr>ct_buf := patch (ct_buf io) ?c1 (ct_a x), secret_buf := patch (secret_buf io) ?s1 (ss_a x)\<rparr>"
  have r3: "evp x (Some ?c1) (Some ?s1) (length (ct_a x)) (length (ss_a x)) io =
      (Inr (1, length (ct_a x), length (ss_a x)), ?io1)"
    using assms by (intro a.run) auto
  have "pq y (Some ?c2) (Some ?s2) (length (ct_b y)) (length (ss_b y)) ?io1 =
      (Inr (1, length (ct_b y), length (ss_b y)),
       ?io1\<lparr>ct_buf := patch (ct_buf ?io1) ?c2 (ct_b y), secret_buf := patch (secret_buf ?io1) ?s2 (ss_b y)\<rparr>)"
    using assms by (intro b.run) auto
  then have "pq y (Some ?c2) (Some ?s2) (length (ct_b y)) (length (ss_b y)) ?io1 =
      (Inr (1, length (ct_b y), length (ss_b y)),
       io\<lparr>ct_buf := patch (ct_buf io) co (share_order rv (ct_a x) (ct_b y)),
          secret_buf := patch (secret_buf io) so (share_order rv (ss_a x) (ss_b y))\<rparr>)"
    using assms(3,4) patch_shares [of co "ct_a x" "ct_b y" "ct_buf io" rv]
      patch_shares [of so "ss_a x" "ss_b y" "secret_buf io" rv] by auto
  with r3 a.query [OF assms(1)] b.query [OF assms(2)] show ?thesis
    by (auto simp: hyb_encaps_def bindS_def st_simps Let_def)
qed

end

sublocale kem_pair \<subseteq> pair: kem_slot "\<lambda>(x, y, rv). hyb_encaps (evp x) (pq y) rv"
  "\<lambda>(x, y, rv). ready_a x \<and> ready_b y" "\<lambda>(x, y, rv). share_order rv (ct_a x) (ct_b y)"
  "\<lambda>(x, y, rv). share_order rv (ss_a x) (ss_b y)"
  by unfold_locales (auto intro: hyb_query hyb_run)

subsection \<open>The model's slots follow the protocol\<close>

text \<open>What a classical slot computes when nothing fails: the ephemeral share and the secret.\<close>

definition evp_encaps_result :: "'p openssl \<Rightarrow> 'p oqsx_key \<Rightarrow> nat \<Rightarrow> (bytes \<times> bytes) option" where
  "evp_encaps_result E k seed =
     (case (key_evp_info k, evp_info k) of
       (Inr i, _) \<Rightarrow>
         (case read_comp (comp_pubkey k) (if reverse_share k then 1 else 0) (pubkey k) (length_public_key i) of
           Inl _ \<Rightarrow> None
         | Inr b \<Rightarrow>
             Option.bind (EVP_PKEY_set1_encoded_public_key E i b) (\<lambda>peer.
             Option.bind (EVP_PKEY_keygen E i 0 seed) (\<lambda>e.
             Option.bind (EVP_PKEY_derive E e peer) (\<lambda>z.
             Option.bind (EVP_PKEY_get1_encoded_public_key E e) (\<lambda>c.
             if length c = length_public_key i \<and> 0 < length c \<and> length z = kex_length_secret i
             then Some (c, z) else None)))))
     | _ \<Rightarrow> None)"

definition qs_encaps_result :: "liboqs \<Rightarrow> 'p oqsx_key \<Rightarrow> nat \<Rightarrow> (bytes \<times> bytes) option" where
  "qs_encaps_result L k seed =
     (case read_comp (comp_pubkey k) (if reverse_share k then 0 else 1) (pubkey k)
         (qs_length_public_key (qs k)) of
       Inl _ \<Rightarrow> None
     | Inr b \<Rightarrow>
         Option.bind (OQS_KEM_encaps L (qs k) seed b) (\<lambda>(c, z).
         if length c = qs_length_ciphertext (qs k) \<and> length z = qs_length_shared_secret (qs k)
         then Some (c, z) else None))"

lemma put_ct_eq:
  "off + length d \<le> length (ct_buf io) \<Longrightarrow>
     put_ct off d io = (Inr (), io\<lparr>ct_buf := patch (ct_buf io) off d\<rparr>)"
  by (simp add: put_ct_def bindS_def st_simps buf_simps)

lemma put_secret_eq:
  "off + length d \<le> length (secret_buf io) \<Longrightarrow>
     put_secret off d io = (Inr (), io\<lparr>secret_buf := patch (secret_buf io) off d\<rparr>)"
  by (simp add: put_secret_def bindS_def st_simps buf_simps)

lemma evp_encaps_resultD:
  assumes "evp_encaps_result E k seed = Some (c, z)"
  obtains i b peer e where "key_evp_info k = Inr i"
    "read_comp (comp_pubkey k) (if reverse_share k then 1 else 0) (pubkey k) (length_public_key i) = Inr b"
    "EVP_PKEY_set1_encoded_public_key E i b = Some peer" "EVP_PKEY_keygen E i 0 seed = Some e"
    "EVP_PKEY_derive E e peer = Some z" "EVP_PKEY_get1_encoded_public_key E e = Some c"
    "length c = length_public_key i" "c \<noteq> []" "length z = kex_length_secret i"
  using assms
  by (auto simp: evp_encaps_result_def split: sum.splits Option.bind_splits if_splits)

lemma qs_encaps_resultD:
  assumes "qs_encaps_result L k seed = Some (c, z)"
  obtains po pk b where "comp_slot (comp_pubkey k) (if reverse_share k then 0 else 1) = Inr (Some po)"
    "pubkey k = Some b" "rd b po (qs_length_public_key (qs k)) = Inr pk"
    "OQS_KEM_encaps L (qs k) seed pk = Some (c, z)"
    "length c = qs_length_ciphertext (qs k)" "length z = qs_length_shared_secret (qs k)"
  using assms
  by (auto simp: qs_encaps_result_def read_comp_def comp_at_def comp_slot_def bindR_eq_Inr
      split: sum.splits Option.bind_splits if_splits cptr.splits)

lemma evp_slot_query:
  assumes "evp_encaps_result E k seed = Some (c, z)" and "a = None \<or> b = None"
  shows "evp_slot E k seed a b n m io = (Inr (1, length c, length z), io)"
  using assms(1)
  by (rule evp_encaps_resultD)
    (use assms(2) in \<open>auto simp: evp_slot_def oqs_evp_kem_encaps_keyslot_def bindS_def st_simps Let_def
        split: option.splits\<close>)

lemma evp_slot_run:
  assumes "evp_encaps_result E k seed = Some (c, z)"
    and "co + length c \<le> length (ct_buf io)" and "so + length z \<le> length (secret_buf io)"
  shows "evp_slot E k seed (Some co) (Some so) n m io = (Inr (1, length c, length z),
    io\<lparr>ct_buf := patch (ct_buf io) co c, secret_buf := patch (secret_buf io) so z\<rparr>)"
  using assms(1)
  by (rule evp_encaps_resultD)
    (use assms(2,3) in \<open>auto simp: evp_slot_def oqs_evp_kem_encaps_keyslot_def bindS_def thenS_def
      st_simps Let_def put_ct_eq put_secret_eq simp flip: length_greater_0_conv\<close>)

lemma qs_slot_query:
  assumes "qs_encaps_result L k seed = Some (c, z)" and "a = None \<or> b = None"
  shows "qs_slot L k seed a b n m io = (Inr (1, length c, length z), io)"
  using assms(1)
  by (rule qs_encaps_resultD)
    (use assms(2) in \<open>auto simp: qs_slot_def oqs_qs_kem_encaps_keyslot_def bindS_def st_simps Let_def
        split: option.splits\<close>)

lemma qs_slot_run:
  assumes "qs_encaps_result L k seed = Some (c, z)"
    and "co + length c \<le> length (ct_buf io)" and "so + length z \<le> length (secret_buf io)"
  shows "qs_slot L k seed (Some co) (Some so) (length c) (length z) io = (Inr (1, length c, length z),
    io\<lparr>ct_buf := patch (ct_buf io) co c, secret_buf := patch (secret_buf io) so z\<rparr>)"
  using assms(1)
  by (rule qs_encaps_resultD)
    (use assms(2,3) in \<open>auto simp: qs_slot_def oqs_qs_kem_encaps_keyslot_def bindS_def thenS_def
      st_simps Let_def put_ct_eq put_secret_eq rd_ok\<close>)

interpretation evp: kem_slot "\<lambda>(E, k, seed). evp_slot E k seed"
  "\<lambda>(E, k, seed). evp_encaps_result E k seed \<noteq> None"
  "\<lambda>(E, k, seed). fst (the (evp_encaps_result E k seed))"
  "\<lambda>(E, k, seed). snd (the (evp_encaps_result E k seed))"
  by unfold_locales (auto simp: evp_slot_query evp_slot_run)

interpretation pq: kem_slot "\<lambda>(L, k, seed). qs_slot L k seed"
  "\<lambda>(L, k, seed). qs_encaps_result L k seed \<noteq> None"
  "\<lambda>(L, k, seed). fst (the (qs_encaps_result L k seed))"
  "\<lambda>(L, k, seed). snd (the (qs_encaps_result L k seed))"
  by unfold_locales (auto simp: qs_slot_query qs_slot_run)

interpretation hyb: kem_pair "\<lambda>(E, k, seed). evp_slot E k seed"
  "\<lambda>(E, k, seed). evp_encaps_result E k seed \<noteq> None"
  "\<lambda>(E, k, seed). fst (the (evp_encaps_result E k seed))"
  "\<lambda>(E, k, seed). snd (the (evp_encaps_result E k seed))"
  "\<lambda>(L, k, seed). qs_slot L k seed"
  "\<lambda>(L, k, seed). qs_encaps_result L k seed \<noteq> None"
  "\<lambda>(L, k, seed). fst (the (qs_encaps_result L k seed))"
  "\<lambda>(L, k, seed). snd (the (qs_encaps_result L k seed))"
  by unfold_locales

subsection \<open>Decapsulation undoes encapsulation\<close>

text \<open>
  The documented correctness of the primitives. liboqs: decapsulating with the secret key gives
  the encapsulated secret. OpenSSL: the two sides of a key agreement derive the same secret, the
  stored private key is readable also with bytes after it, and the encodings have the tables'
  lengths.
\<close>

definition kem_correct :: "liboqs \<Rightarrow> qs_ctx \<Rightarrow> bytes \<Rightarrow> bytes \<Rightarrow> bool" where
  "kem_correct L q pk sk \<longleftrightarrow> (\<forall>r ct ss. OQS_KEM_encaps L q r pk = Some (ct, ss) \<longrightarrow>
     length ct = qs_length_ciphertext q \<and> length ss = qs_length_shared_secret q \<and>
     OQS_KEM_decaps L q ct sk = Some ss)"

definition kex_correct :: "'p openssl \<Rightarrow> evp_info \<Rightarrow> bytes \<Rightarrow> bytes \<Rightarrow> bool" where
  "kex_correct E i b s \<longleftrightarrow>
     (\<forall>t. length (s @ t) = length_private_key i \<longrightarrow> (\<exists>own. parse_classic_priv E i (s @ t) = Some own \<and>
       (\<forall>seed e peer z c. EVP_PKEY_set1_encoded_public_key E i b = Some peer \<longrightarrow>
          EVP_PKEY_keygen E i 0 seed = Some e \<longrightarrow> EVP_PKEY_derive E e peer = Some z \<longrightarrow>
          EVP_PKEY_get1_encoded_public_key E e = Some c \<longrightarrow>
          length z = kex_length_secret i \<and> length c = length_public_key i \<and>
          (\<exists>peer'. EVP_PKEY_set1_encoded_public_key E i c = Some peer' \<and>
             EVP_PKEY_derive E own peer' = Some z))))"

lemma evp_decaps_run:
  assumes "key_evp_info k = Inr i"
    and "read_comp (comp_privkey k) ks (privkey k) (length_private_key i) = Inr s"
    and "parse_classic_priv E i s = Some own"
    and "co + length_public_key i \<le> length (ct_buf io)"
    and "EVP_PKEY_set1_encoded_public_key E i (slice (ct_buf io) co (length_public_key i)) = Some peer"
    and "EVP_PKEY_derive E own peer = Some z" and "length z = kex_length_secret i"
    and "so + length z \<le> length (secret_buf io)"
  shows "oqs_evp_kem_decaps_keyslot E k ks (Some so) (Some co) io =
    (Inr (1, kex_length_secret i), io\<lparr>secret_buf := patch (secret_buf io) so z\<rparr>)"
  using assms
  by (simp add: oqs_evp_kem_decaps_keyslot_def bindS_def thenS_def st_simps Let_def rd_ok put_secret_eq)

lemma read_comp_slot:
  "read_comp ps i buf n = Inr s \<Longrightarrow> \<exists>off b. comp_slot ps i = Inr (Some off) \<and> buf = Some b \<and> rd b off n = Inr s"
  by (auto simp: read_comp_def comp_at_def comp_slot_def bindR_eq_Inr split: if_splits cptr.splits)

lemma qs_decaps_query:
  assumes "read_comp (comp_privkey k) ks (privkey k) n = Inr s"
  shows "oqs_qs_kem_decaps_keyslot L (Some k) ks None (Some m) inp inlen io =
    (Inr (1, Some (qs_length_shared_secret (qs k))), io)"
  using read_comp_slot [OF assms]
  by (auto simp: oqs_qs_kem_decaps_keyslot_def bindS_def st_simps Let_def)

lemma qs_decaps_run:
  assumes "read_comp (comp_privkey k) ks (privkey k) (qs_length_secret_key (qs k)) = Inr sk"
    and "co + qs_length_ciphertext (qs k) \<le> length (ct_buf io)"
    and "OQS_KEM_decaps L (qs k) (slice (ct_buf io) co (qs_length_ciphertext (qs k))) sk = Some ss"
    and "length ss = qs_length_shared_secret (qs k)" and "so + length ss \<le> length (secret_buf io)"
  shows "oqs_qs_kem_decaps_keyslot L (Some k) ks (Some so) (Some (length ss)) (Some co)
      (qs_length_ciphertext (qs k)) io =
    (Inr (1, Some (length ss)), io\<lparr>secret_buf := patch (secret_buf io) so ss\<rparr>)"
  using read_comp_slot [OF assms(1)] assms(2-)
  by (auto simp: oqs_qs_kem_decaps_keyslot_def bindS_def thenS_def st_simps Let_def rd_ok put_secret_eq)

lemma slice_share_order:
  assumes "slice buf co (length c + length q) = share_order rv c q" and "co + (length c + length q) \<le> length buf"
  shows "slice buf (if rv then co + length q else co) (length c) = c"
    and "slice buf (if rv then co else co + length c) (length q) = q"
proof -
  have "slice (slice buf co (length c + length q)) (if rv then length q else 0) (length c) = c"
    "slice (slice buf co (length c + length q)) (if rv then 0 else length c) (length q) = q"
    unfolding assms(1) by (auto simp: share_order_def slice_def)
  then show "slice buf (if rv then co + length q else co) (length c) = c"
    and "slice buf (if rv then co else co + length c) (length q) = q"
    by (auto simp: slice_slice split: if_splits)
qed

lemma hyb_decaps_run:
  assumes i: "key_evp_info k = Inr i"
    and s: "read_comp (comp_privkey k) (if reverse_share k then 1 else 0) (privkey k) (length_private_key i) = Inr s"
    and sk: "read_comp (comp_privkey k) (if reverse_share k then 0 else 1) (privkey k)
       (qs_length_secret_key (qs k)) = Inr sk"
    and own: "parse_classic_priv E i s = Some own"
    and c: "EVP_PKEY_set1_encoded_public_key E i c = Some peer" "EVP_PKEY_derive E own peer = Some z"
      "length z = kex_length_secret i" "length c = length_public_key i"
    and q: "OQS_KEM_decaps L (qs k) q sk = Some w" "length w = qs_length_shared_secret (qs k)"
      "length q = qs_length_ciphertext (qs k)"
    and ct: "co + (length c + length q) \<le> length (ct_buf io)"
      "slice (ct_buf io) co (length c + length q) = share_order (reverse_share k) c q"
    and so: "so + (length z + length w) \<le> length (secret_buf io)"
  shows "oqs_hyb_kem_decaps L E (Some k) (Some so) m0 co (length c + length q) io =
    (Inr (1, length z + length w),
     io\<lparr>secret_buf := patch (secret_buf io) so (share_order (reverse_share k) z w)\<rparr>)"
proof -
  let ?rv = "reverse_share k"
  let ?cc = "if ?rv then co + length q else co" and ?cq = "if ?rv then co else co + length c"
  let ?sc = "if ?rv then so + length w else so" and ?sq = "if ?rv then so else so + length z"
  let ?io1 = "io\<lparr>secret_buf := patch (secret_buf io) ?sc z\<rparr>"
  note parts = slice_share_order [OF ct(2,1)]
  have d1: "oqs_evp_kem_decaps_keyslot E k (if ?rv then 1 else 0) (Some ?sc) (Some ?cc) io =
      (Inr (1, length z), ?io1)"
    using i s own c ct so parts(1) by (subst evp_decaps_run) auto
  have d2: "oqs_qs_kem_decaps_keyslot L (Some k) (if ?rv then 0 else 1) (Some ?sq) (Some (length w))
      (Some ?cq) (length q) ?io1 =
      (Inr (1, Some (length w)), ?io1\<lparr>secret_buf := patch (secret_buf ?io1) ?sq w\<rparr>)"
    using q ct so parts(2) unfolding q(3) by (intro qs_decaps_run [OF sk]) auto
  have q1: "oqs_evp_kem_decaps_keyslot E k (if ?rv then 1 else 0) None None io = (Inr (1, length z), io)"
    using i c by (simp add: oqs_evp_kem_decaps_keyslot_def bindS_def st_simps Let_def)
  note q2 = qs_decaps_query [OF sk, of L 0 None 0 io]
  show ?thesis
    using patch_shares [of so z w "secret_buf io" ?rv] so i c(3,4) q(2,3) q1 q2 d1 d2
    by (cases ?rv) (simp_all add: oqs_hyb_kem_decaps_def Let_def bindS_def st_simps)
qed

lemma read_comp_extend:
  assumes "read_comp ps j buf n = Inr s" and "comp_at ps j = Inr off" and "buf = Some b"
    and "n \<le> m" and "off + m \<le> length b"
  shows "\<exists>t. read_comp ps j buf m = Inr (s @ t) \<and> length (s @ t) = m"
proof -
  have "s = slice b off n" "off + n \<le> length b"
    using assms(1-3) by (auto simp: read_comp_def)
  moreover have "slice b off m = slice b off n @ slice b (off + n) (m - n)"
    using assms(4) by (simp add: slice_split)
  moreover have "read_comp ps j buf m = Inr (slice b off m)"
    using assms(2,3,5) by (simp add: read_comp_def rd_ok)
  ultimately show ?thesis
    using assms(4,5) by (intro exI [of _ "slice b (off + n) (m - n)"]) auto
qed

lemma idx_hyb_kem:
  assumes "wf_key k" and "is_hyb_kem (keytype k)"
  shows "idx_classic k = (if reverse_share k then 1 else 0)" "idx_pq k = (if reverse_share k then 0 else 1)"
  using assms
  by (auto simp: wf_key_def wf_shape_def is_hybrid_def idx_classic_def idx_pq_def
      oqsx_comp_set_idx_def comp_reverse_def)

lemma hyb_kem_agreement:
  assumes wf: "wf_key k" "is_hyb_kem (keytype k)" "evp_info k = Some i" "comps_ok k"
    and hold: "holds_pq k pk sk" "holds_classic k p b s"
    and b: "length b = length_public_key i" "length s \<le> length_private_key i"
    and kem: "kem_correct L (qs k) pk sk" and kex: "kex_correct E i b s"
    and q: "OQS_KEM_encaps L (qs k) rq pk = Some (q, w)"
    and c: "EVP_PKEY_set1_encoded_public_key E i b = Some peer" "EVP_PKEY_keygen E i 0 rc = Some e"
      "EVP_PKEY_derive E e peer = Some z" "EVP_PKEY_get1_encoded_public_key E e = Some c"
    and ct: "ct = share_order (reverse_share k) c q" and ss: "ss = share_order (reverse_share k) z w"
  shows "co + length ct \<le> length (ct_buf io) \<Longrightarrow> so + length ss \<le> length (secret_buf io) \<Longrightarrow>
      oqs_hyb_kem_encaps L E (Some k) rc rq (Some co) (Some so) n m io = (Inr (1, length ct, length ss),
        io\<lparr>ct_buf := patch (ct_buf io) co ct, secret_buf := patch (secret_buf io) so ss\<rparr>)"
    and "co + length ct \<le> length (ct_buf io) \<Longrightarrow> slice (ct_buf io) co (length ct) = ct \<Longrightarrow>
      so + length ss \<le> length (secret_buf io) \<Longrightarrow>
      oqs_hyb_kem_decaps L E (Some k) (Some so) m co (length ct) io =
        (Inr (1, length ss), io\<lparr>secret_buf := patch (secret_buf io) so ss\<rparr>)"
proof -
  have hyb: "is_hybrid (keytype k)" using wf(2) by (simp add: is_hybrid_def)
  have inf: "key_evp_info k = Inr i" using key_evp_info_hybrid [OF wf(1) hyb] wf(3) by simp
  have "0 < length_public_key i"
    using wf hyb by (auto simp: wf_key_def wf_shape_def classic_info_ok_def ok_sizes_def)
  note idx = idx_hyb_kem [OF wf(1,2)]
  obtain sb off where sb: "privkey k = Some sb" "comp_at (comp_privkey k) (idx_classic k) = Inr off"
      "off + length_private_key i \<le> length sb"
    using hold(2) comps_ok_classic(2) [OF wf(1,4) hyb wf(3)]
    by (fastforce simp: holds_classic_def read_comp_def bindR_eq_Inr)
  obtain t where t: "read_comp (comp_privkey k) (idx_classic k) (privkey k) (length_private_key i) = Inr (s @ t)"
      "length (s @ t) = length_private_key i"
    using read_comp_extend [OF _ sb(2,1) b(2) sb(3)] hold(2) by (auto simp: holds_classic_def)
  obtain own peer' where own: "parse_classic_priv E i (s @ t) = Some own"
      "EVP_PKEY_set1_encoded_public_key E i c = Some peer'" "EVP_PKEY_derive E own peer' = Some z"
    and len: "length z = kex_length_secret i" "length c = length_public_key i"
    using kex t(2) c unfolding kex_correct_def by meson
  have lq: "length q = qs_length_ciphertext (qs k)" "length w = qs_length_shared_secret (qs k)"
    "OQS_KEM_decaps L (qs k) q sk = Some w"
    using kem q by (auto simp: kem_correct_def)
  have E1: "evp_encaps_result E k rc = Some (c, z)"
    using hold(2) b(1) c len idx inf \<open>0 < length_public_key i\<close>
    by (auto simp: evp_encaps_result_def holds_classic_def)
  have Q1: "qs_encaps_result L k rq = Some (q, w)"
    using hold(1) q lq idx by (auto simp: qs_encaps_result_def holds_pq_def)
  show "oqs_hyb_kem_encaps L E (Some k) rc rq (Some co) (Some so) n m io = (Inr (1, length ct, length ss),
        io\<lparr>ct_buf := patch (ct_buf io) co ct, secret_buf := patch (secret_buf io) so ss\<rparr>)"
    if "co + length ct \<le> length (ct_buf io)" "so + length ss \<le> length (secret_buf io)"
  proof -
    from that hyb.hyb_run [of "(E, k, rc)" "(L, k, rq)" co io so "reverse_share k" n m]
    show ?thesis
      by (auto simp: E1 Q1 ct ss oqs_hyb_kem_encaps_def)
  qed
  show "oqs_hyb_kem_decaps L E (Some k) (Some so) m co (length ct) io =
        (Inr (1, length ss), io\<lparr>secret_buf := patch (secret_buf io) so ss\<rparr>)"
    if "co + length ct \<le> length (ct_buf io)" "slice (ct_buf io) co (length ct) = ct"
      "so + length ss \<le> length (secret_buf io)"
    using that hyb_decaps_run [OF inf, of "s @ t" sk E own c peer' z L q w co io so m]
      t own len lq hold(1) idx
    by (auto simp: ct ss holds_pq_def)
qed

text \<open>
  C1: The two ends of a hybrid KEM agree. After \<open>oqsx_key_gen\<close> on a fresh hybrid key, encapsulation
  writes the classical and the post-quantum share, in the key's order, and decapsulation of that
  ciphertext, wherever it is placed, writes the same combined secret, with return value 1 and
  the lengths of the outputs on both sides.
\<close>

theorem hybrid_kem_round_trip:
  assumes "wf_key k" and "is_hyb_kem (keytype k)" and "evp_info k = Some i"
    and "ok A_PUBKEY" and "ok A_PRIVKEY"
    and "OQS_KEM_keypair L (qs k) rk = Some (pk, sk)"
    and "length pk = qs_length_public_key (qs k)" and "length sk = qs_length_secret_key (qs k)"
    and "EVP_PKEY_keygen E i 0 rp = Some p" and "encodes E i p b s" and "length b = length_public_key i"
    and "kem_correct L (qs k) pk sk" and "kex_correct E i b s"
    and "OQS_KEM_encaps L (qs k) rq pk = Some (q, w)"
    and "EVP_PKEY_set1_encoded_public_key E i b = Some peer" and "EVP_PKEY_keygen E i 0 rc = Some e"
    and "EVP_PKEY_derive E e peer = Some z" and "EVP_PKEY_get1_encoded_public_key E e = Some c"
    and "ct = share_order (reverse_share k) c q" and "ss = share_order (reverse_share k) z w"
    and "co + length ct \<le> length (ct_buf io)" and "so + length ss \<le> length (secret_buf io)"
    and "co' + length ct \<le> length (ct_buf jo)" and "slice (ct_buf jo) co' (length ct) = ct"
    and "so' + length ss \<le> length (secret_buf jo)"
  shows "\<exists>k'. oqsx_key_gen L E ok rp rk k = (Inr 0, k') \<and>
    oqs_hyb_kem_encaps L E (Some k') rc rq (Some co) (Some so) n m io =
      (Inr (1, length ct, length ss),
       io\<lparr>ct_buf := patch (ct_buf io) co ct, secret_buf := patch (secret_buf io) so ss\<rparr>) \<and>
    oqs_hyb_kem_decaps L E (Some k') (Some so') m co' (length ct) jo =
      (Inr (1, length ss), jo\<lparr>secret_buf := patch (secret_buf jo) so' ss\<rparr>)"
proof -
  have gen: "EVP_PKEY_keygen E j (classic_bits (keytype k) j) rp = Some p \<and> encodes E j p b s"
    if "evp_info k = Some j" for j
    using that assms(2,3,9,10) by (auto simp: classic_bits_def is_hyb_kem_def)
  from assms(2) have kt: "uses_kem (keytype k)" "is_hybrid (keytype k)"
    by (simp_all add: uses_kem_def is_hybrid_def)
  obtain k' where k': "oqsx_key_gen L E ok rp rk k = (Inr 0, k')" "same_key k k'" "wf_key k'"
      "comps_ok k'" "holds_pq k' pk sk" "holds_classic k' p b s"
    using gen_stores [of k ok L rk pk sk E rp p b s] gen assms(1,4-8) kt by auto
  note f = same_key_fields [OF k'(2)]
  note agree = hyb_kem_agreement [OF k'(3) _ _ k'(4,5,6) assms(11)]
  show ?thesis
    using k'(1) agree [where L = L and E = E and rq = rq and q = q and w = w and peer = peer and rc = rc
      and e = e and z = z and c = c and ct = ct and ss = ss] encodes_le [OF assms(10)] assms f by auto
qed

lemma sample_kem_correct:
  "kem_correct sample_liboqs sample_qs (replicate 4 x) (replicate 5 x)"
  by (simp add: kem_correct_def sample_liboqs_def sample_qs_def)

lemma sample_kex_correct:
  assumes "i = info_x25519 \<or> i = info_p256"
  shows "kex_correct sample_openssl i (replicate (length_public_key i) x)
    (sample_priv (ei_keytype i, length_public_key i, length_private_key i - (if raw_key_support i then 0 else 1), x))"
  using assms
  by (auto simp: kex_correct_def sample_openssl_def parse_classic_priv_def sample_priv_def
      sample_parse_def sample_byte_def sample_pub_def mult.commute)

lemma hybrid_kem_round_trip_witness:
  "\<exists>k'. oqsx_key_gen sample_liboqs sample_openssl (\<lambda>_. True) 7 9 x25519_mlkem = (Inr 0, k') \<and>
     oqs_hyb_kem_encaps sample_liboqs sample_openssl (Some k') 3 5 (Some 0) (Some 0) 0 0
       \<lparr>ct_buf = replicate 35 0, secret_buf = replicate 34 0\<rparr> =
     (Inr (1, 35, 34), \<lparr>ct_buf = replicate 3 5 @ replicate 32 3,
        secret_buf = replicate 2 14 @ replicate 32 21\<rparr>)"
proof -
  let ?E = sample_openssl and ?i = info_x25519
  let ?ct = "share_order True (replicate 32 3) (replicate 3 5)"
  let ?ss = "share_order True (replicate 32 21) (replicate 2 14)"
  have key: "evp_info x25519_mlkem = Some ?i" "qs x25519_mlkem = sample_qs" "reverse_share x25519_mlkem"
      "is_hyb_kem (keytype x25519_mlkem)"
    by (simp_all add: x25519_mlkem_def sample_key_def is_hyb_kem_def)
  have p: "EVP_PKEY_keygen ?E ?i 0 7 = Some (EVP_PKEY_X25519, 32, 32, 7)"
    by (simp add: sample_openssl_def)
  have enc: "encodes ?E ?i (EVP_PKEY_X25519, 32, 32, 7) (replicate 32 7) (sample_priv (EVP_PKEY_X25519, 32, 32, 7))"
    using sample_encodes [OF _ p] by (simp add: sample_pub_def)
  note t = hybrid_kem_round_trip [OF sample_keys_wf(1) key(4,1), where L = sample_liboqs and E = ?E
      and ok = "\<lambda>_. True" and rk = 9 and pk = "replicate 4 9" and sk = "replicate 5 9" and rp = 7
      and p = "(EVP_PKEY_X25519, 32, 32, 7)" and b = "replicate 32 7"
      and s = "sample_priv (EVP_PKEY_X25519, 32, 32, 7)" and rq = 5 and q = "replicate 3 5"
      and w = "replicate 2 14" and peer = "(EVP_PKEY_X25519, 32, 0, 7)" and rc = 3
      and e = "(EVP_PKEY_X25519, 32, 32, 3)" and z = "replicate 32 21" and c = "replicate 32 3"
      and ct = ?ct and ss = ?ss and co = 0 and so = 0 and co' = 0 and so' = 0 and n = 0 and m = 0
      and io = "\<lparr>ct_buf = replicate 35 0, secret_buf = replicate 34 0\<rparr>"
      and jo = "\<lparr>ct_buf = ?ct, secret_buf = replicate 34 0\<rparr>"]
  show ?thesis
    using t p enc sample_kem_correct [of 9] sample_kex_correct [of ?i 7] key
    by (auto simp: share_order_def sample_openssl_def sample_liboqs_def sample_qs_def sample_pub_def
        sample_byte_def patch_def slice_def)
qed

subsection \<open>Decapsulation of arbitrary input\<close>

text \<open>\<open>only_secret io so n io'\<close>: \<open>io'\<close> differs from \<open>io\<close> at most in \<open>n\<close> bytes of the secret buffer.\<close>

definition only_secret :: "kem_io \<Rightarrow> nat \<Rightarrow> nat \<Rightarrow> kem_io \<Rightarrow> bool" where
  "only_secret io so n io' \<longleftrightarrow>
     ct_buf io' = ct_buf io \<and> length (secret_buf io') = length (secret_buf io) \<and>
     take so (secret_buf io') = take so (secret_buf io) \<and>
     drop (so + n) (secret_buf io') = drop (so + n) (secret_buf io)"

lemma only_secret_refl [simp]: "only_secret io so n io"
  by (simp add: only_secret_def)

lemma safe_put_secret:
  assumes "so \<le> off" and "off + length d \<le> so + n" and "so + n \<le> length (secret_buf io)"
    and "safe (only_secret io so n) m Q E"
  shows "safe (only_secret io so n) (thenS (put_secret off d) m) Q E"
proof (rule safe_then [where R = "only_secret io so n"])
  show "safe (only_secret io so n) (put_secret off d) (\<lambda>_. only_secret io so n) E"
  proof (unfold safe_def, intro allI impI)
    fix s assume s: "only_secret io so n s"
    with assms(1-3) have "off + length d \<le> length (secret_buf s)"
      by (simp add: only_secret_def)
    with s assms(1-3) show "case put_secret off d s of (Inr x, s') \<Rightarrow> only_secret io so n s'
        | (Inl e, s') \<Rightarrow> e \<noteq> UB \<and> E s'"
      by (simp add: put_secret_eq only_secret_def patch_outside)
  qed
qed (rule assms(4))

definition decaps_lengths :: "liboqs \<Rightarrow> bool" where
  "decaps_lengths L \<longleftrightarrow> (\<forall>q ct sk ss. OQS_KEM_decaps L q ct sk = Some ss \<longrightarrow>
     length ss = qs_length_shared_secret q)"

lemma safe_evp_decaps:
  assumes inf: "key_evp_info k = Inr i"
    and s: "read_comp (comp_privkey k) ks (privkey k) (length_private_key i) = Inr sb"
    and co: "co + length_public_key i \<le> length (ct_buf io)"
    and so: "so \<le> off" "off + kex_length_secret i \<le> so + n" "so + n \<le> length (secret_buf io)"
  shows "safe (only_secret io so n) (oqs_evp_kem_decaps_keyslot E k ks (Some off) (Some co))
    (\<lambda>_. only_secret io so n) (only_secret io so n)"
proof -
  have rd: "rd (ct_buf s) co (length_public_key i) = Inr (slice (ct_buf io) co (length_public_key i))"
    if "only_secret io so n s" for s
    using that co by (simp add: only_secret_def rd_ok)
  show ?thesis
    unfolding oqs_evp_kem_decaps_keyslot_def Let_def option.case
    by (rule safe_lift_bind [OF inf], rule safe_lift_bind [OF s])
      (use so in \<open>auto split: option.split
        intro!: safe_retI safe_lift_bind safe_read_bind [OF rd] safe_put_secret\<close>)
qed

lemma safe_qs_decaps:
  assumes s: "read_comp (comp_privkey k) ks (privkey k) (qs_length_secret_key (qs k)) = Inr sk"
    and L: "decaps_lengths L"
    and co: "co + qs_length_ciphertext (qs k) \<le> length (ct_buf io)"
    and so: "so \<le> off" "off + qs_length_shared_secret (qs k) \<le> so + n" "so + n \<le> length (secret_buf io)"
  shows "safe (only_secret io so n) (oqs_qs_kem_decaps_keyslot L (Some k) ks (Some off) (Some m) (Some co) inlen)
    (\<lambda>_. only_secret io so n) (only_secret io so n)"
proof -
  obtain po b where slot: "comp_slot (comp_privkey k) ks = Inr (Some po)" and b: "privkey k = Some b"
    "rd b po (qs_length_secret_key (qs k)) = Inr sk"
    using read_comp_slot [OF s] by blast
  have rd: "rd (ct_buf s) co (qs_length_ciphertext (qs k)) = Inr (slice (ct_buf io) co (qs_length_ciphertext (qs k)))"
    if "only_secret io so n s" for s
    using that co by (simp add: only_secret_def rd_ok)
  have sk': "bindR (of_option UB (privkey k)) (\<lambda>b. rd b po (qs_length_secret_key (qs k))) = Inr sk"
    using b by simp
  show ?thesis
    unfolding oqs_qs_kem_decaps_keyslot_def Let_def option.case prod.case
    by (rule safe_lift_bind [OF slot])
      (use so L in \<open>auto simp: decaps_lengths_def split: option.split
        intro!: safe_retI safe_lift_bind [OF sk'] safe_read_bind [OF rd] safe_put_secret\<close>)
qed

lemma hyb_priv_slots:
  assumes wf: "wf_key k" "is_hyb_kem (keytype k)" "evp_info k = Some i" "comps_ok k"
  shows "(privkey k = None \<and> comp_slot (comp_privkey k) (if reverse_share k then 0 else 1) = Inr None) \<or>
    (\<exists>s sk. read_comp (comp_privkey k) (if reverse_share k then 1 else 0) (privkey k) (length_private_key i) = Inr s \<and>
       read_comp (comp_privkey k) (if reverse_share k then 0 else 1) (privkey k) (qs_length_secret_key (qs k)) = Inr sk)"
proof (cases "privkey k")
  case None
  have "is_hybrid (keytype k)" using wf(2) by (simp add: is_hybrid_def)
  with None wf(4) have "comp_privkey k = [Null, Null]"
    by (auto simp: comps_ok_def ptrs_ok_def)
  with None show ?thesis by (simp add: comp_slot_def)
next
  case (Some b)
  have "is_hybrid (keytype k)" using wf(2) by (simp add: is_hybrid_def)
  from comps_ok_classic(2) [OF wf(1,4) this wf(3) Some] comps_ok_pq(2) [OF wf(1,4) Some]
  show ?thesis
    unfolding idx_hyb_kem [OF wf(1,2)] by (auto simp: read_comp_def Some rd_ok)
qed

lemma safe_two_calls:
  assumes "safe P f (\<lambda>_. P) P" and "safe P g (\<lambda>_. P) P"
  shows "safe P (bindS f (\<lambda>(ret :: int, _). if ret \<le> 0 then retS a else
     bindS g (\<lambda>(ret :: int, _). if ret \<le> 0 then retS b else retS (c ret)))) (\<lambda>_. P) P"
  by (rule safe_bind [OF assms(1)])
    (auto intro!: safe_retI safe_bind [OF assms(2)])

text \<open>
  C2: Hybrid decapsulation is memory safe on every ciphertext, of whatever length and contents,
  with every well-formed hybrid key, a public-only one included: it never reads past the
  ciphertext or the key and writes at most its own output. A ciphertext whose length is not the
  sum of the two shares' lengths, and a key without private part, are refused with an error and
  nothing is written.
\<close>

theorem oqs_hyb_kem_decaps_safe:
  assumes "wf_key k" and "is_hyb_kem (keytype k)" and "evp_info k = Some i" and "comps_ok k"
    and "decaps_lengths L"
    and "co + ctlen \<le> length (ct_buf io)"
    and "so + (kex_length_secret i + qs_length_shared_secret (qs k)) \<le> length (secret_buf io)"
  shows "fst (oqs_hyb_kem_decaps L E (Some k) (Some so) m co ctlen io) \<noteq> Inl UB \<and>
    only_secret io so (kex_length_secret i + qs_length_shared_secret (qs k))
      (snd (oqs_hyb_kem_decaps L E (Some k) (Some so) m co ctlen io)) \<and>
    (privkey k = None \<or> ctlen \<noteq> length_public_key i + qs_length_ciphertext (qs k) \<longrightarrow>
      (\<exists>m'. oqs_hyb_kem_decaps L E (Some k) (Some so) m co ctlen io = (Inr (-1, m'), io)))"
proof -
  let ?rv = "reverse_share k" and ?n = "kex_length_secret i + qs_length_shared_secret (qs k)"
  have hyb: "is_hybrid (keytype k)" using assms(2) by (simp add: is_hybrid_def)
  have inf: "key_evp_info k = Inr i" using key_evp_info_hybrid [OF assms(1) hyb] assms(3) by simp
  have q1: "oqs_evp_kem_decaps_keyslot E k j None None s = (Inr (1, kex_length_secret i), s)" for j s
    using inf by (simp add: oqs_evp_kem_decaps_keyslot_def bindS_def st_simps Let_def)
  from hyb_priv_slots [OF assms(1-4)] show ?thesis
  proof (elim disjE conjE exE)
    assume "privkey k = None" "comp_slot (comp_privkey k) (if ?rv then 0 else 1) = Inr None"
    then have "oqs_hyb_kem_decaps L E (Some k) (Some so) m co ctlen io = (Inr (-1, m), io)"
      by (simp add: oqs_hyb_kem_decaps_def Let_def bindS_def st_simps q1 oqs_qs_kem_decaps_keyslot_def)
    then show ?thesis by simp
  next
    fix s sk
    assume s: "read_comp (comp_privkey k) (if ?rv then 1 else 0) (privkey k) (length_private_key i) = Inr s"
      and sk: "read_comp (comp_privkey k) (if ?rv then 0 else 1) (privkey k) (qs_length_secret_key (qs k)) = Inr sk"
    then have priv: "privkey k \<noteq> None" by (auto simp: read_comp_def bindR_eq_Inr)
    note q2 = qs_decaps_query [OF sk, of L 0 None 0]
    show ?thesis
    proof (cases "ctlen = length_public_key i + qs_length_ciphertext (qs k)")
      case False
      then have "oqs_hyb_kem_decaps L E (Some k) (Some so) m co ctlen io = (Inr (-1, ?n), io)"
        using inf by (auto simp: oqs_hyb_kem_decaps_def Let_def bindS_def st_simps q1 q2)
      then show ?thesis by simp
    next
      case True
      let ?cc = "if ?rv then co + qs_length_ciphertext (qs k) else co"
      let ?cq = "if ?rv then co else co + length_public_key i"
      let ?sc = "if ?rv then so + qs_length_shared_secret (qs k) else so"
      let ?sq = "if ?rv then so else so + kex_length_secret i"
      let ?P = "only_secret io so ?n"
      have a: "safe ?P (oqs_evp_kem_decaps_keyslot E k (if ?rv then 1 else 0) (Some ?sc) (Some ?cc)) (\<lambda>_. ?P) ?P"
        using assms(6,7) True by (intro safe_evp_decaps [OF inf s]) auto
      have b: "safe ?P (oqs_qs_kem_decaps_keyslot L (Some k) (if ?rv then 0 else 1) (Some ?sq)
          (Some (qs_length_shared_secret (qs k))) (Some ?cq) (qs_length_ciphertext (qs k))) (\<lambda>_. ?P) ?P"
        using assms(6,7) True by (intro safe_qs_decaps [OF sk assms(5)]) auto
      have "safe ?P (bindS (oqs_evp_kem_decaps_keyslot E k (if ?rv then 1 else 0) (Some ?sc) (Some ?cc)) (\<lambda>(ret, _).
          if ret \<le> 0 then retS (-1, ?n) else
          bindS (oqs_qs_kem_decaps_keyslot L (Some k) (if ?rv then 0 else 1) (Some ?sq)
            (Some (qs_length_shared_secret (qs k))) (Some ?cq) (qs_length_ciphertext (qs k))) (\<lambda>(ret, _).
          if ret \<le> 0 then retS (-1, ?n) else retS (ret, ?n)))) (\<lambda>_. ?P) ?P" (is "safe _ ?m _ _")
        by (rule safe_two_calls [OF a b])
      moreover have "oqs_hyb_kem_decaps L E (Some k) (Some so) m co ctlen io = ?m io"
        using inf True q2 [of io]
        by (cases ?rv) (simp_all add: oqs_hyb_kem_decaps_def Let_def bindS_def st_simps q1
            split: prod.split sum.split)
      ultimately show ?thesis
        using safe_post [of ?P ?m "\<lambda>_. ?P" ?P io ?P] True priv by auto
    qed
  qed
qed

definition sample_full :: "sample_pkey oqsx_key" where
  "sample_full = x25519_mlkem\<lparr>privkey := Some (replicate 45 7), pubkey := Some (replicate 40 7),
     comp_privkey := comp_ptrs True 5 32, comp_pubkey := comp_ptrs True 4 32\<rparr>"

lemma sample_full_ok: "wf_key sample_full" "comps_ok sample_full"
  by (auto simp: sample_full_def x25519_mlkem_def sample_key_def sample_qs_def
      wf_key_def wf_shape_def wf_buffers_def is_hybrid_def is_hyb_kem_def classic_info_ok_def
      ok_sizes_def comps_ok_def ptrs_ok_def comp_reverse_def comp_ptrs_def)

lemma oqs_hyb_kem_decaps_safe_witness:
  "fst (oqs_hyb_kem_decaps sample_liboqs sample_openssl (Some sample_full) (Some 0) 0 0 35
     \<lparr>ct_buf = replicate 35 1, secret_buf = replicate 40 0\<rparr>) \<noteq> Inl UB"
  using oqs_hyb_kem_decaps_safe [OF sample_full_ok(1) _ _ sample_full_ok(2), of info_x25519
      sample_liboqs 0 35 "\<lparr>ct_buf = replicate 35 1, secret_buf = replicate 40 0\<rparr>" 0 sample_openssl 0]
  by (auto simp: decaps_lengths_def sample_liboqs_def sample_full_def x25519_mlkem_def
      sample_key_def is_hyb_kem_def sample_qs_def)

end
