(* ===== verification/Keymgmt.thy ===== *)
theory Keymgmt
  imports Key_Codec Key_Heap Kem
begin

text \<open>
  The key management interface (\<^verbatim>\<open>oqs_kmgmt.c\<close>): what OpenSSL calls on a key object (has, match,
  import, export, get and set parameters), key generation contexts, and the constructors of all
  algorithms. A parameter array that is asked is the predicate of the names it contains; the
  answers given are the state of the query, in the order they are given.
\<close>

subsection \<open>Selections and parameters\<close>

type_synonym selection = "32 word"

definition SELECT_PRIVATE_KEY :: selection where
  "SELECT_PRIVATE_KEY = 0x01"

definition SELECT_PUBLIC_KEY :: selection where
  "SELECT_PUBLIC_KEY = 0x02"

definition SELECT_DOMAIN_PARAMETERS :: selection where
  "SELECT_DOMAIN_PARAMETERS = 0x04"

definition SELECT_KEYPAIR :: selection where
  "SELECT_KEYPAIR = SELECT_PRIVATE_KEY OR SELECT_PUBLIC_KEY"

definition selects :: "selection \<Rightarrow> selection \<Rightarrow> bool" where
  "selects selection part \<longleftrightarrow> selection AND part \<noteq> 0"

datatype key_param =
    P_BITS | P_SECURITY_BITS | P_MAX_SIZE | P_DEFAULT_DIGEST | P_MANDATORY_DIGEST
  | P_ENCODED_PUBLIC_KEY | P_PUB_KEY | P_PRIV_KEY
  | P_CLASSICAL_PUB_KEY | P_CLASSICAL_PRIV_KEY | P_PQ_PUB_KEY | P_PQ_PRIV_KEY

text \<open>\<open>PSize\<close> is the answer to a parameter without a buffer: only the size is recorded.\<close>

datatype pval = PInt int | PUtf8 string | POctets bytes | PSize nat

type_synonym answers = "(key_param \<times> pval) list"

text \<open>
  OpenSSL's \<^verbatim>\<open>OSSL_PARAM\<close> functions: whether an integer or a string fits the parameter, what
  \<^verbatim>\<open>OSSL_PARAM_set_octet_string\<close> does from whether its data is NULL and the length it is given
  (refuse, record the size only, or copy the data), and the outcomes of the builder's calls.
\<close>

datatype octets_outcome = Refused | SizeOnly | Copied

record param_calls =
  set_int_ok :: "key_param \<Rightarrow> int \<Rightarrow> bool"
  set_utf8_ok :: "key_param \<Rightarrow> string \<Rightarrow> bool"
  set_octets_does :: "key_param \<Rightarrow> bool \<Rightarrow> nat \<Rightarrow> octets_outcome"
  push_ok :: "key_param \<Rightarrow> bool"
  bld_new_ok :: bool
  to_param_ok :: bool

definition answer :: "key_param \<Rightarrow> pval \<Rightarrow> (answers, unit) st" where
  "answer p v = modS (\<lambda>a. a @ [(p, v)])"

definition set_int :: "param_calls \<Rightarrow> (key_param \<Rightarrow> bool) \<Rightarrow> key_param \<Rightarrow> int \<Rightarrow> (answers, unit) st" where
  "set_int P asked p i =
     (if asked p then thenS (ensureS (set_int_ok P p i) Quiet) (answer p (PInt i)) else retS ())"

definition set_utf8 :: "param_calls \<Rightarrow> (key_param \<Rightarrow> bool) \<Rightarrow> key_param \<Rightarrow> string \<Rightarrow> (answers, unit) st" where
  "set_utf8 P asked p s =
     (if asked p then thenS (ensureS (set_utf8_ok P p s) Quiet) (answer p (PUtf8 s)) else retS ())"

text \<open>
  The data is \<open>n\<close> bytes at a pointer into a buffer. The pointer is followed only when the library
  copies, and then it must point into a buffer that exists.
\<close>

definition set_octets ::
    "param_calls \<Rightarrow> (key_param \<Rightarrow> bool) \<Rightarrow> key_param \<Rightarrow> cptr \<Rightarrow> bytes option \<Rightarrow> nat \<Rightarrow> (answers, unit) st" where
  "set_octets P asked p ptr buf n =
     (if asked p then
        (case set_octets_does P p (ptr = Null) n of
           Refused \<Rightarrow> failS Quiet
         | SizeOnly \<Rightarrow> answer p (PSize n)
         | Copied \<Rightarrow>
             bindS (liftS (case ptr of
                 Off off \<Rightarrow> bindR (of_option UB buf) (\<lambda>b. rd b off n) | _ \<Rightarrow> Inl UB)) (\<lambda>d.
             answer p (POctets d)))
      else retS ())"

subsection \<open>Has and match\<close>

definition oqsx_has :: "'p oqsx_key option \<Rightarrow> selection \<Rightarrow> bool" where
  "oqsx_has key sel = (case key of
       None \<Rightarrow> False
     | Some k \<Rightarrow> (selects sel SELECT_PUBLIC_KEY \<longrightarrow> pubkey k \<noteq> None) \<and>
         (selects sel SELECT_PRIVATE_KEY \<longrightarrow> privkey k \<noteq> None))"

definition CRYPTO_memcmp_eq :: "bytes option \<Rightarrow> bytes option \<Rightarrow> nat \<Rightarrow> bool res" where
  "CRYPTO_memcmp_eq x y n =
     bindR (of_option UB x) (\<lambda>a. bindR (rd a 0 n) (\<lambda>a.
     bindR (of_option UB y) (\<lambda>b. bindR (rd b 0 n) (\<lambda>b. Inr (a = b)))))"

text \<open>One key has the buffer and the other has not, or the names differ.\<close>

definition not_comparable :: "'p oqsx_key \<Rightarrow> 'p oqsx_key \<Rightarrow> bytes option \<Rightarrow> bytes option \<Rightarrow> bool" where
  "not_comparable k1 k2 b1 b2 \<longleftrightarrow> (b1 = None) \<noteq> (b2 = None) \<or> tls_name k1 \<noteq> tls_name k2"

definition match_private :: "'p oqsx_key \<Rightarrow> 'p oqsx_key \<Rightarrow> bool res" where
  "match_private k1 k2 =
     (if not_comparable k1 k2 (privkey k1) (privkey k2) then Inr False
      else if privkey k1 = None \<and> privkey k2 = None then Inr True
      else if privkey k1 = None then Inr False
      else CRYPTO_memcmp_eq (privkey k1) (privkey k2) (privkeylen k1))"

definition match_public :: "'p oqsx_key \<Rightarrow> 'p oqsx_key \<Rightarrow> bool \<Rightarrow> bool \<Rightarrow> bool res" where
  "match_public k1 k2 domain ok =
     (if not_comparable k1 k2 (pubkey k1) (pubkey k2) then
        (if domain \<and> privkey k1 \<noteq> None \<and> privkey k2 \<noteq> None
         then CRYPTO_memcmp_eq (privkey k1) (privkey k2) (privkeylen k1) else Inr False)
      else if \<not> ok then Inr False
      else if pubkey k1 = None \<and> pubkey k2 = None then Inr True
      else if pubkey k1 = None then Inr False
      else CRYPTO_memcmp_eq (pubkey k1) (pubkey k2) (pubkeylen k1))"

text \<open>\<^verbatim>\<open>oqsx_match\<close>, in a build that keeps the public key in the private key.\<close>

definition oqsx_match :: "'p oqsx_key option \<Rightarrow> 'p oqsx_key option \<Rightarrow> selection \<Rightarrow> bool res" where
  "oqsx_match key1 key2 sel =
     bindR (of_option (Raise WRONG_PARAMETERS) key1) (\<lambda>k1.
     bindR (of_option (Raise WRONG_PARAMETERS) key2) (\<lambda>k2.
     bindR (if selects sel SELECT_PRIVATE_KEY \<and> \<not> selects sel SELECT_PUBLIC_KEY
            then match_private k1 k2 else Inr True) (\<lambda>ok.
     if selects sel SELECT_PUBLIC_KEY
     then match_public k1 k2 (selects sel SELECT_DOMAIN_PARAMETERS) ok else Inr ok)))"

subsection \<open>Import and export\<close>

definition oqsx_import ::
    "'p openssl \<Rightarrow> allocs \<Rightarrow> selection \<Rightarrow> (key_param \<Rightarrow> ossl_param option) \<Rightarrow> ('p oqsx_key, unit) st" where
  "oqsx_import E ok sel params =
     (if selects sel SELECT_KEYPAIR
      then oqsx_key_fromdata E ok (params P_PRIV_KEY) (params P_PUB_KEY) (selects sel SELECT_PRIVATE_KEY)
      else failS Quiet)"

text \<open>\<^verbatim>\<open>oqsx_param_build_set_octet_string\<close>, into a builder or into a parameter array.\<close>

definition oqsx_param_build_set_octet_string ::
    "param_calls \<Rightarrow> bool \<Rightarrow> (key_param \<Rightarrow> bool) \<Rightarrow> key_param \<Rightarrow> bytes \<Rightarrow> nat \<Rightarrow> (answers, unit) st" where
  "oqsx_param_build_set_octet_string P bld asked p b n =
     (if bld then bindS (liftS (rd b 0 n)) (\<lambda>d. thenS (ensureS (push_ok P p) Quiet) (answer p (POctets d)))
      else set_octets P asked p (Off 0) (Some b) n)"

definition key_part_to_params ::
    "param_calls \<Rightarrow> bool \<Rightarrow> (key_param \<Rightarrow> bool) \<Rightarrow> key_param \<Rightarrow> bytes option \<Rightarrow> nat \<Rightarrow> (answers, unit) st" where
  "key_part_to_params P tmpl asked p buf n = (case buf of
       None \<Rightarrow> retS ()
     | Some b \<Rightarrow>
         if tmpl \<or> asked p
         then thenS (ensureS (n \<noteq> 0) Quiet) (oqsx_param_build_set_octet_string P tmpl asked p b n)
         else retS ())"

definition oqsx_key_to_params ::
    "param_calls \<Rightarrow> 'p oqsx_key option \<Rightarrow> bool \<Rightarrow> (key_param \<Rightarrow> bool) \<Rightarrow> bool \<Rightarrow> (answers, unit) st" where
  "oqsx_key_to_params P key tmpl asked include_private = (case key of
       None \<Rightarrow> failS Quiet
     | Some k \<Rightarrow>
         thenS (key_part_to_params P tmpl asked P_PUB_KEY (pubkey k) (pubkeylen k))
         (if include_private
          then key_part_to_params P tmpl asked P_PRIV_KEY (privkey k) (privkeylen k) else retS ()))"

text \<open>
  \<^verbatim>\<open>oqsx_export\<close>. The callback gets what was pushed, even when pushing stopped with an error; the
  result tells whether everything succeeded.
\<close>

definition oqsx_export ::
    "param_calls \<Rightarrow> 'p oqsx_key option \<Rightarrow> selection \<Rightarrow> (answers \<Rightarrow> 's \<Rightarrow> bool \<times> 's) option \<Rightarrow> ('s, bool) st" where
  "oqsx_export P key sel cb = (case (key, cb) of
       (Some k, Some f) \<Rightarrow>
         if \<not> bld_new_ok P then failS (Raise UNEXPECTED_NULL)
         else
           let (r, a) = (if selects sel SELECT_KEYPAIR
             then oqsx_key_to_params P key True (\<lambda>_. False) (selects sel SELECT_PRIVATE_KEY) []
             else (Inr (), [])) in
           if r = Inl UB then failS UB
           else if \<not> to_param_ok P then retS False
           else (\<lambda>s. let (c, s') = f a s in (Inr (r = Inr () \<and> c), s'))
     | _ \<Rightarrow> failS (Raise WRONG_PARAMETERS))"

text \<open>\<^verbatim>\<open>oqs_imexport_types\<close>: the parameters import and export know, when asked about a key.\<close>

definition oqsx_key_types :: "key_param list" where
  "oqsx_key_types = [P_PUB_KEY, P_PRIV_KEY, P_CLASSICAL_PUB_KEY, P_CLASSICAL_PRIV_KEY, P_PQ_PUB_KEY, P_PQ_PRIV_KEY]"

definition oqs_imexport_types :: "selection \<Rightarrow> key_param list option" where
  "oqs_imexport_types sel = (if selects sel SELECT_KEYPAIR then Some oqsx_key_types else None)"

subsection \<open>Reading parameters\<close>

definition oqsx_key_is_hybrid :: "'p oqsx_key \<Rightarrow> bool" where
  "oqsx_key_is_hybrid k \<longleftrightarrow> is_hybrid (keytype k) \<and> numkeys k = 2 \<and> classical_pkey k \<noteq> None"

text \<open>A difference of lengths that passes through an \<^verbatim>\<open>int\<close> and becomes a \<^verbatim>\<open>size_t\<close> again.\<close>

definition int_len :: "int \<Rightarrow> nat" where
  "int_len i = unat (scast (word_of_int i :: 32 word) :: 64 word)"

text \<open>
  A classical component and its length: from the header, when there is a buffer and a pointer.
\<close>

definition classic_part :: "cptr list \<Rightarrow> nat \<Rightarrow> bytes option \<Rightarrow> (cptr \<times> nat) res" where
  "classic_part ps i buf = (case buf of
       None \<Rightarrow> Inr (Null, 0)
     | Some b \<Rightarrow>
         bindR (comp_or_null ps i) (\<lambda>p. case p of
           None \<Rightarrow> Inr (Null, 0)
         | Some off \<Rightarrow> bindR (header_of buf) (\<lambda>n. Inr (Off off, n))))"

definition comp_ptr :: "cptr list \<Rightarrow> nat \<Rightarrow> cptr res" where
  "comp_ptr ps i = (if i < length ps then Inr (ps ! i) else Inl UB)"

text \<open>
  The pointer to the post-quantum private component is copied without looking at it, and its length
  is computed whether or not there is one: the guard tests the array twice instead of the pointer.
\<close>

definition oqsx_get_hybrid_params ::
    "param_calls \<Rightarrow> (key_param \<Rightarrow> bool) \<Rightarrow> 'p oqsx_key \<Rightarrow> (answers, unit) st" where
  "oqsx_get_hybrid_params P asked k =
     (if \<not> oqsx_key_is_hybrid k then retS ()
      else
        bindS (liftS (classic_part (comp_pubkey k) (idx_classic k) (pubkey k))) (\<lambda>(cp, cpn).
        bindS (liftS (classic_part (comp_privkey k) (idx_classic k) (privkey k))) (\<lambda>(cs, csn).
        bindS (liftS (comp_or_null (comp_pubkey k) (idx_pq k))) (\<lambda>qp.
        bindS (liftS (comp_ptr (comp_privkey k) (idx_pq k))) (\<lambda>qs'.
        thenS (set_octets P asked P_CLASSICAL_PUB_KEY cp (pubkey k) cpn)
        (thenS (set_octets P asked P_CLASSICAL_PRIV_KEY cs (privkey k) csn)
        (thenS (set_octets P asked P_PQ_PUB_KEY (case qp of None \<Rightarrow> Null | Some off \<Rightarrow> Off off) (pubkey k)
           (if qp = None then 0 else int_len (int (pubkeylen k) - int cpn - 4)))
        (set_octets P asked P_PQ_PRIV_KEY qs' (privkey k)
           (int_len (int (privkeylen k) - int csn - 4))))))))))"

definition SN_undef :: string where
  "SN_undef = ''UNDEF''"

text \<open>
  \<^verbatim>\<open>oqsx_get_params\<close>. The pointer handed out for the encoded public key of a hybrid KEM is behind the
  header; when there is no buffer it is neither NULL nor valid.
\<close>

definition oqsx_get_params ::
    "param_calls \<Rightarrow> 'p oqsx_key option \<Rightarrow> (key_param \<Rightarrow> bool) option \<Rightarrow> (answers, unit) st" where
  "oqsx_get_params P key params = (case (key, params) of
       (Some k, Some asked) \<Rightarrow>
         thenS (set_int P asked P_BITS (oqsx_key_secbits k))
         (thenS (set_int P asked P_SECURITY_BITS (oqsx_key_secbits k))
         (thenS (if asked P_MAX_SIZE
                 then bindS (liftS (oqsx_key_maxsize k)) (\<lambda>n. set_int P asked P_MAX_SIZE (int n)) else retS ())
         (thenS (set_utf8 P asked P_DEFAULT_DIGEST SN_undef)
         (thenS (set_utf8 P asked P_MANDATORY_DIGEST SN_undef)
         (thenS (if is_hyb_kem (keytype k)
                 then set_octets P asked P_ENCODED_PUBLIC_KEY (Off SIZE_OF_UINT32) (pubkey k)
                        (pubkeylen k - SIZE_OF_UINT32)
                 else set_octets P asked P_ENCODED_PUBLIC_KEY (buf_ptr (pubkey k)) (pubkey k) (pubkeylen k))
         (thenS (set_octets P asked P_PUB_KEY (buf_ptr (pubkey k)) (pubkey k) (pubkeylen k))
         (thenS (set_octets P asked P_PRIV_KEY (buf_ptr (privkey k)) (privkey k) (privkeylen k))
         (oqsx_get_hybrid_params P asked k))))))))
     | _ \<Rightarrow> failS (Raise WRONG_PARAMETERS))"

definition oqsx_gettable_params :: "key_param list" where
  "oqsx_gettable_params = [P_BITS, P_SECURITY_BITS, P_MAX_SIZE, P_ENCODED_PUBLIC_KEY] @ oqsx_key_types"

subsection \<open>Setting parameters\<close>

text \<open>\<open>dup_ok\<close> is the outcome of \<^verbatim>\<open>OPENSSL_strdup\<close>; the old query is gone either way.\<close>

definition set_property_query :: "bool \<Rightarrow> string option \<Rightarrow> ('p oqsx_key, unit) st" where
  "set_property_query dup_ok pq =
     thenS (modS (\<lambda>k. k\<lparr>propq := None\<rparr>))
     (case pq of
        None \<Rightarrow> retS ()
      | Some q \<Rightarrow> thenS (ensureS dup_ok (Raise MALLOC_FAILURE)) (modS (\<lambda>k. k\<lparr>propq := Some q\<rparr>)))"

text \<open>
  \<^verbatim>\<open>OSSL_PARAM_get_octet_string\<close> writes through the pointer it is given, or allocates when it is
  NULL. For a hybrid KEM that pointer is the first component's: a block allocated there is not one
  of the key's buffers, so no offset describes it.
\<close>

definition set_encoded_pub :: "bool \<Rightarrow> ossl_param \<Rightarrow> ('p oqsx_key, unit) st" where
  "set_encoded_pub malloc_ok p =
     bindS (getS (\<lambda>k. k)) (\<lambda>k.
     let d = op_data p in
     if is_hyb_kem (keytype k) then
       thenS (ensureS (length d = pubkeylen k - SIZE_OF_UINT32 \<and> op_octets p) Quiet)
       (bindS (liftS (comp_or_null (comp_pubkey k) 0)) (\<lambda>ptr. case ptr of
          Some off \<Rightarrow> write_pub off d
        | None \<Rightarrow> thenS (ensureS malloc_ok Quiet)
            (modS (\<lambda>k. k\<lparr>comp_pubkey := (comp_pubkey k)[0 := Uninit]\<rparr>))))
     else
       thenS (ensureS (length d = pubkeylen k \<and> op_octets p) Quiet)
       (case pubkey k of
          Some b \<Rightarrow> write_pub 0 d
        | None \<Rightarrow> thenS (ensureS malloc_ok Quiet) (modS (\<lambda>k. k\<lparr>pubkey := Some d\<rparr>))))"

text \<open>Releasing the private buffer leaves the private component pointers indeterminate.\<close>

definition drop_private :: "('p oqsx_key, unit) st" where
  "drop_private =
     thenS (readS (\<lambda>k. ensure (clears (privkey k) (privkeylen k)) UB))
     (modS (\<lambda>k. if privkey k = None then k
        else k\<lparr>privkey := None, comp_privkey := map (\<lambda>_. Uninit) (comp_privkey k)\<rparr>))"

text \<open>\<^verbatim>\<open>oqsx_set_params\<close>; a property query is \<open>Inl\<close> when the parameter is not a string.\<close>

definition oqsx_set_params ::
    "bool \<Rightarrow> bool \<Rightarrow> ossl_param option \<Rightarrow> (unit + string option) option \<Rightarrow> ('p oqsx_key, unit) st" where
  "oqsx_set_params malloc_ok dup_ok enc_pub props =
     thenS (case enc_pub of
         None \<Rightarrow> retS ()
       | Some p \<Rightarrow> thenS (set_encoded_pub malloc_ok p) drop_private)
     (case props of
         None \<Rightarrow> retS ()
       | Some (Inl _) \<Rightarrow> failS Quiet
       | Some (Inr q) \<Rightarrow> set_property_query dup_ok q)"

subsection \<open>Generation contexts\<close>

record gen_ctx =
  g_libctx :: nat
  g_propq :: "string option"
  g_oqs_name :: "string option"
  g_tls_name :: "string option"
  g_primitive :: oqsx_key_type
  g_selection :: selection
  g_bit_security :: int
  g_alg_idx :: int
  g_reverse_share :: int

text \<open>The outcomes of the three allocations are \<open>ok\<close>, \<open>ok_oqs\<close> and \<open>ok_tls\<close>.\<close>

definition oqsx_gen_init ::
    "bool \<Rightarrow> bool \<Rightarrow> bool \<Rightarrow> nat \<Rightarrow> selection \<Rightarrow> string \<Rightarrow> string \<Rightarrow> oqsx_key_type \<Rightarrow> int \<Rightarrow> int \<Rightarrow> int
      \<Rightarrow> gen_ctx option" where
  "oqsx_gen_init ok ok_oqs ok_tls lc sel oqs_name tls prim bits idx rs =
     (if ok then Some \<lparr>g_libctx = lc, g_propq = None,
        g_oqs_name = (if ok_oqs then Some oqs_name else None),
        g_tls_name = (if ok_tls then Some tls else None),
        g_primitive = prim, g_selection = sel, g_bit_security = bits, g_alg_idx = idx,
        g_reverse_share = rs\<rparr> else None)"

text \<open>
  \<^verbatim>\<open>oqsx_genkey\<close> in the heap of keys; the key, if one is created, is at the fresh address \<open>a\<close>. When
  generation fails the function returns NULL without freeing the key.
\<close>

definition oqsx_genkey ::
    "liboqs \<Rightarrow> 'p openssl \<Rightarrow> evp_calls \<Rightarrow> allocs \<Rightarrow> nat \<Rightarrow> nat \<Rightarrow> nat \<Rightarrow> gen_ctx option
      \<Rightarrow> ('p kheap, nat) st" where
  "oqsx_genkey L E C ok rc rq a gctx = (case gctx of
       None \<Rightarrow> failS Quiet
     | Some g \<Rightarrow>
         bindS (liftS (case oqsx_key_new L C ok (g_libctx g) (g_oqs_name g) (g_tls_name g) (g_primitive g)
             (g_propq g) (g_bit_security g) (g_alg_idx g) (g_reverse_share g) of
           Inl UB \<Rightarrow> Inl UB | Inl _ \<Rightarrow> Inl (Raise MALLOC_FAILURE) | Inr k \<Rightarrow> Inr k)) (\<lambda>k.
         let (r, k') = oqsx_key_gen L E ok rc rq k in
         thenS (modS (\<lambda>h. h(a \<mapsto> k')))
         (case r of
            Inl e \<Rightarrow> failS e
          | Inr ret \<Rightarrow> thenS (ensureS (ret = 0) (Raise UNEXPECTED_NULL)) (retS a))))"

definition oqsx_gen ::
    "liboqs \<Rightarrow> 'p openssl \<Rightarrow> evp_calls \<Rightarrow> allocs \<Rightarrow> nat \<Rightarrow> nat \<Rightarrow> nat \<Rightarrow> gen_ctx option
      \<Rightarrow> ('p kheap, nat) st" where
  "oqsx_gen L E C ok rc rq a gctx = oqsx_genkey L E C ok rc rq a gctx"

text \<open>
  \<^verbatim>\<open>oqsx_gen_set_params\<close>: the group name is not checked for its type; \<open>None\<close> as data is NULL, of
  which \<^verbatim>\<open>OPENSSL_strdup\<close> returns NULL.
\<close>

definition oqsx_gen_set_params ::
    "bool \<Rightarrow> string option option \<Rightarrow> (unit + string option) option \<Rightarrow> (gen_ctx, unit) st" where
  "oqsx_gen_set_params dup_ok grp props =
     thenS (case grp of
         None \<Rightarrow> retS ()
       | Some n \<Rightarrow> modS (\<lambda>g. g\<lparr>g_tls_name := if dup_ok then n else None\<rparr>))
     (case props of
         None \<Rightarrow> retS ()
       | Some (Inl _) \<Rightarrow> failS Quiet
       | Some (Inr q) \<Rightarrow>
           let v = (if dup_ok then q else None) in
           thenS (modS (\<lambda>g. g\<lparr>g_propq := v\<rparr>)) (ensureS (v \<noteq> None) Quiet))"

text \<open>\<^verbatim>\<open>oqsx_load\<close>: the reference is a cell with the address of a key, which is taken out of it.\<close>

definition oqsx_load :: "bool \<Rightarrow> nat option \<Rightarrow> nat option \<times> nat option" where
  "oqsx_load size_ok cell = (if size_ok then (cell, None) else (None, cell))"

subsection \<open>The constructors of the algorithms\<close>

text \<open>
  An algorithm's arguments: the same for its \<^verbatim>\<open>_new_key\<close> and its \<^verbatim>\<open>_gen_init\<close> function. The liboqs
  name is the identifier of its macro, as in the NID table.
\<close>

record km_ctor =
  kc_tls_name :: string
  kc_oqs_name :: string
  kc_keytype :: oqsx_key_type
  kc_bits :: int
  kc_alg_idx :: int
  kc_reverse :: int

definition sig_ctor :: "string \<Rightarrow> string \<Rightarrow> oqsx_key_type \<Rightarrow> int \<Rightarrow> int \<Rightarrow> km_ctor" where
  "sig_ctor tls oqs kt bits idx =
     \<lparr>kc_tls_name = tls, kc_oqs_name = oqs, kc_keytype = kt, kc_bits = bits, kc_alg_idx = idx, kc_reverse = 0\<rparr>"

definition kem_ctor :: "string \<Rightarrow> string \<Rightarrow> int \<Rightarrow> km_ctor" where
  "kem_ctor tls oqs bits =
     \<lparr>kc_tls_name = tls, kc_oqs_name = oqs, kc_keytype = KEY_TYPE_KEM, kc_bits = bits, kc_alg_idx = -1,
      kc_reverse = 0\<rparr>"

definition kem_ecp_ctor :: "string \<Rightarrow> string \<Rightarrow> int \<Rightarrow> km_ctor" where
  "kem_ecp_ctor tls oqs bits = (kem_ctor tls oqs bits)\<lparr>kc_keytype := KEY_TYPE_ECP_HYB_KEM\<rparr>"

definition kem_ecbp_ctor :: "string \<Rightarrow> string \<Rightarrow> int \<Rightarrow> int \<Rightarrow> km_ctor" where
  "kem_ecbp_ctor tls oqs bits pqfips =
     (kem_ctor tls oqs bits)\<lparr>kc_keytype := KEY_TYPE_ECBP_HYB_KEM, kc_reverse := pqfips\<rparr>"

definition kem_ecx_ctor :: "string \<Rightarrow> string \<Rightarrow> int \<Rightarrow> int \<Rightarrow> km_ctor" where
  "kem_ecx_ctor tls oqs bits pqfips =
     (kem_ctor tls oqs bits)\<lparr>kc_keytype := KEY_TYPE_ECX_HYB_KEM, kc_reverse := pqfips\<rparr>"

definition ctors_mldsa :: "km_ctor list" where
  "ctors_mldsa =
     [sig_ctor ''mldsa44'' ''OQS_SIG_alg_ml_dsa_44'' KEY_TYPE_SIG 128 0,
      sig_ctor ''p256_mldsa44'' ''OQS_SIG_alg_ml_dsa_44'' KEY_TYPE_HYB_SIG 128 1,
      sig_ctor ''rsa3072_mldsa44'' ''OQS_SIG_alg_ml_dsa_44'' KEY_TYPE_HYB_SIG 128 2,
      sig_ctor ''mldsa65'' ''OQS_SIG_alg_ml_dsa_65'' KEY_TYPE_SIG 192 3,
      sig_ctor ''p384_mldsa65'' ''OQS_SIG_alg_ml_dsa_65'' KEY_TYPE_HYB_SIG 192 4,
      sig_ctor ''mldsa87'' ''OQS_SIG_alg_ml_dsa_87'' KEY_TYPE_SIG 256 5,
      sig_ctor ''p521_mldsa87'' ''OQS_SIG_alg_ml_dsa_87'' KEY_TYPE_HYB_SIG 256 6]"

definition ctors_falcon :: "km_ctor list" where
  "ctors_falcon =
     [sig_ctor ''falcon512'' ''OQS_SIG_alg_falcon_512'' KEY_TYPE_SIG 128 7,
      sig_ctor ''p256_falcon512'' ''OQS_SIG_alg_falcon_512'' KEY_TYPE_HYB_SIG 128 8,
      sig_ctor ''rsa3072_falcon512'' ''OQS_SIG_alg_falcon_512'' KEY_TYPE_HYB_SIG 128 9,
      sig_ctor ''falconpadded512'' ''OQS_SIG_alg_falcon_padded_512'' KEY_TYPE_SIG 128 10,
      sig_ctor ''p256_falconpadded512'' ''OQS_SIG_alg_falcon_padded_512'' KEY_TYPE_HYB_SIG 128 11,
      sig_ctor ''rsa3072_falconpadded512'' ''OQS_SIG_alg_falcon_padded_512'' KEY_TYPE_HYB_SIG 128 12,
      sig_ctor ''falcon1024'' ''OQS_SIG_alg_falcon_1024'' KEY_TYPE_SIG 256 13,
      sig_ctor ''p521_falcon1024'' ''OQS_SIG_alg_falcon_1024'' KEY_TYPE_HYB_SIG 256 14,
      sig_ctor ''falconpadded1024'' ''OQS_SIG_alg_falcon_padded_1024'' KEY_TYPE_SIG 256 15,
      sig_ctor ''p521_falconpadded1024'' ''OQS_SIG_alg_falcon_padded_1024'' KEY_TYPE_HYB_SIG 256 16]"

definition ctors_mayo_cross :: "km_ctor list" where
  "ctors_mayo_cross =
     [sig_ctor ''mayo1'' ''OQS_SIG_alg_mayo_1'' KEY_TYPE_SIG 128 17,
      sig_ctor ''p256_mayo1'' ''OQS_SIG_alg_mayo_1'' KEY_TYPE_HYB_SIG 128 18,
      sig_ctor ''mayo2'' ''OQS_SIG_alg_mayo_2'' KEY_TYPE_SIG 128 19,
      sig_ctor ''p256_mayo2'' ''OQS_SIG_alg_mayo_2'' KEY_TYPE_HYB_SIG 128 20,
      sig_ctor ''mayo3'' ''OQS_SIG_alg_mayo_3'' KEY_TYPE_SIG 192 21,
      sig_ctor ''p384_mayo3'' ''OQS_SIG_alg_mayo_3'' KEY_TYPE_HYB_SIG 192 22,
      sig_ctor ''mayo5'' ''OQS_SIG_alg_mayo_5'' KEY_TYPE_SIG 256 23,
      sig_ctor ''p521_mayo5'' ''OQS_SIG_alg_mayo_5'' KEY_TYPE_HYB_SIG 256 24,
      sig_ctor ''CROSSrsdp128balanced'' ''OQS_SIG_alg_cross_rsdp_128_balanced'' KEY_TYPE_SIG 128 25]"

definition ctors_ov :: "km_ctor list" where
  "ctors_ov =
     [sig_ctor ''OV_Is_pkc'' ''OQS_SIG_alg_uov_ov_Is_pkc'' KEY_TYPE_SIG 128 26,
      sig_ctor ''p256_OV_Is_pkc'' ''OQS_SIG_alg_uov_ov_Is_pkc'' KEY_TYPE_HYB_SIG 128 27,
      sig_ctor ''OV_Ip_pkc'' ''OQS_SIG_alg_uov_ov_Ip_pkc'' KEY_TYPE_SIG 128 28,
      sig_ctor ''p256_OV_Ip_pkc'' ''OQS_SIG_alg_uov_ov_Ip_pkc'' KEY_TYPE_HYB_SIG 128 29,
      sig_ctor ''OV_Is_pkc_skc'' ''OQS_SIG_alg_uov_ov_Is_pkc_skc'' KEY_TYPE_SIG 128 30,
      sig_ctor ''p256_OV_Is_pkc_skc'' ''OQS_SIG_alg_uov_ov_Is_pkc_skc'' KEY_TYPE_HYB_SIG 128 31,
      sig_ctor ''OV_Ip_pkc_skc'' ''OQS_SIG_alg_uov_ov_Ip_pkc_skc'' KEY_TYPE_SIG 128 32,
      sig_ctor ''p256_OV_Ip_pkc_skc'' ''OQS_SIG_alg_uov_ov_Ip_pkc_skc'' KEY_TYPE_HYB_SIG 128 33]"

definition ctors_snova :: "km_ctor list" where
  "ctors_snova =
     [sig_ctor ''snova2454'' ''OQS_SIG_alg_snova_SNOVA_24_5_4'' KEY_TYPE_SIG 128 34,
      sig_ctor ''p256_snova2454'' ''OQS_SIG_alg_snova_SNOVA_24_5_4'' KEY_TYPE_HYB_SIG 128 35,
      sig_ctor ''snova2454esk'' ''OQS_SIG_alg_snova_SNOVA_24_5_4_esk'' KEY_TYPE_SIG 128 36,
      sig_ctor ''p256_snova2454esk'' ''OQS_SIG_alg_snova_SNOVA_24_5_4_esk'' KEY_TYPE_HYB_SIG 128 37,
      sig_ctor ''snova37172'' ''OQS_SIG_alg_snova_SNOVA_37_17_2'' KEY_TYPE_SIG 128 38,
      sig_ctor ''p256_snova37172'' ''OQS_SIG_alg_snova_SNOVA_37_17_2'' KEY_TYPE_HYB_SIG 128 39,
      sig_ctor ''snova2455'' ''OQS_SIG_alg_snova_SNOVA_24_5_5'' KEY_TYPE_SIG 192 40,
      sig_ctor ''p384_snova2455'' ''OQS_SIG_alg_snova_SNOVA_24_5_5'' KEY_TYPE_HYB_SIG 192 41,
      sig_ctor ''snova2965'' ''OQS_SIG_alg_snova_SNOVA_29_6_5'' KEY_TYPE_SIG 256 42,
      sig_ctor ''p521_snova2965'' ''OQS_SIG_alg_snova_SNOVA_29_6_5'' KEY_TYPE_HYB_SIG 256 43]"

definition ctors_slhdsa :: "km_ctor list" where
  "ctors_slhdsa =
     [sig_ctor ''slhdsasha2128s'' ''OQS_SIG_alg_slh_dsa_pure_sha2_128s'' KEY_TYPE_SIG 128 44,
      sig_ctor ''slhdsasha2128f'' ''OQS_SIG_alg_slh_dsa_pure_sha2_128f'' KEY_TYPE_SIG 128 45,
      sig_ctor ''slhdsasha2192s'' ''OQS_SIG_alg_slh_dsa_pure_sha2_192s'' KEY_TYPE_SIG 192 46,
      sig_ctor ''slhdsasha2192f'' ''OQS_SIG_alg_slh_dsa_pure_sha2_192f'' KEY_TYPE_SIG 192 47,
      sig_ctor ''slhdsasha2256s'' ''OQS_SIG_alg_slh_dsa_pure_sha2_256s'' KEY_TYPE_SIG 256 48,
      sig_ctor ''slhdsasha2256f'' ''OQS_SIG_alg_slh_dsa_pure_sha2_256f'' KEY_TYPE_SIG 256 49,
      sig_ctor ''slhdsashake128s'' ''OQS_SIG_alg_slh_dsa_pure_shake_128s'' KEY_TYPE_SIG 128 50,
      sig_ctor ''slhdsashake128f'' ''OQS_SIG_alg_slh_dsa_pure_shake_128f'' KEY_TYPE_SIG 128 51,
      sig_ctor ''slhdsashake192s'' ''OQS_SIG_alg_slh_dsa_pure_shake_192s'' KEY_TYPE_SIG 192 52,
      sig_ctor ''slhdsashake192f'' ''OQS_SIG_alg_slh_dsa_pure_shake_192f'' KEY_TYPE_SIG 192 53,
      sig_ctor ''slhdsashake256s'' ''OQS_SIG_alg_slh_dsa_pure_shake_256s'' KEY_TYPE_SIG 256 54,
      sig_ctor ''slhdsashake256f'' ''OQS_SIG_alg_slh_dsa_pure_shake_256f'' KEY_TYPE_SIG 256 55]"

definition kem_ctors :: "km_ctor list" where
  "kem_ctors =
     [kem_ctor ''efrodo640aes'' ''OQS_KEM_alg_efrodokem_640_aes'' 128,
      kem_ecp_ctor ''p256_efrodo640aes'' ''OQS_KEM_alg_efrodokem_640_aes'' 128,
      kem_ecx_ctor ''x25519_efrodo640aes'' ''OQS_KEM_alg_efrodokem_640_aes'' 128 0,
      kem_ctor ''efrodo640shake'' ''OQS_KEM_alg_efrodokem_640_shake'' 128,
      kem_ecp_ctor ''p256_efrodo640shake'' ''OQS_KEM_alg_efrodokem_640_shake'' 128,
      kem_ecx_ctor ''x25519_efrodo640shake'' ''OQS_KEM_alg_efrodokem_640_shake'' 128 0,
      kem_ctor ''efrodo976aes'' ''OQS_KEM_alg_efrodokem_976_aes'' 192,
      kem_ecp_ctor ''p384_efrodo976aes'' ''OQS_KEM_alg_efrodokem_976_aes'' 192,
      kem_ecx_ctor ''x448_efrodo976aes'' ''OQS_KEM_alg_efrodokem_976_aes'' 192 0,
      kem_ctor ''efrodo976shake'' ''OQS_KEM_alg_efrodokem_976_shake'' 192,
      kem_ecp_ctor ''p384_efrodo976shake'' ''OQS_KEM_alg_efrodokem_976_shake'' 192,
      kem_ecx_ctor ''x448_efrodo976shake'' ''OQS_KEM_alg_efrodokem_976_shake'' 192 0,
      kem_ctor ''efrodo1344aes'' ''OQS_KEM_alg_efrodokem_1344_aes'' 256,
      kem_ecp_ctor ''p521_efrodo1344aes'' ''OQS_KEM_alg_efrodokem_1344_aes'' 256,
      kem_ctor ''efrodo1344shake'' ''OQS_KEM_alg_efrodokem_1344_shake'' 256,
      kem_ecp_ctor ''p521_efrodo1344shake'' ''OQS_KEM_alg_efrodokem_1344_shake'' 256,
      kem_ctor ''frodo640aes'' ''OQS_KEM_alg_frodokem_640_aes'' 128,
      kem_ecp_ctor ''p256_frodo640aes'' ''OQS_KEM_alg_frodokem_640_aes'' 128,
      kem_ecx_ctor ''x25519_frodo640aes'' ''OQS_KEM_alg_frodokem_640_aes'' 128 0,
      kem_ctor ''frodo640shake'' ''OQS_KEM_alg_frodokem_640_shake'' 128,
      kem_ecp_ctor ''p256_frodo640shake'' ''OQS_KEM_alg_frodokem_640_shake'' 128,
      kem_ecx_ctor ''x25519_frodo640shake'' ''OQS_KEM_alg_frodokem_640_shake'' 128 0,
      kem_ctor ''frodo976aes'' ''OQS_KEM_alg_frodokem_976_aes'' 192,
      kem_ecp_ctor ''p384_frodo976aes'' ''OQS_KEM_alg_frodokem_976_aes'' 192,
      kem_ecx_ctor ''x448_frodo976aes'' ''OQS_KEM_alg_frodokem_976_aes'' 192 0,
      kem_ctor ''frodo976shake'' ''OQS_KEM_alg_frodokem_976_shake'' 192,
      kem_ecp_ctor ''p384_frodo976shake'' ''OQS_KEM_alg_frodokem_976_shake'' 192,
      kem_ecx_ctor ''x448_frodo976shake'' ''OQS_KEM_alg_frodokem_976_shake'' 192 0,
      kem_ctor ''frodo1344aes'' ''OQS_KEM_alg_frodokem_1344_aes'' 256,
      kem_ecp_ctor ''p521_frodo1344aes'' ''OQS_KEM_alg_frodokem_1344_aes'' 256,
      kem_ctor ''frodo1344shake'' ''OQS_KEM_alg_frodokem_1344_shake'' 256,
      kem_ecp_ctor ''p521_frodo1344shake'' ''OQS_KEM_alg_frodokem_1344_shake'' 256,
      kem_ctor ''mlkem512'' ''OQS_KEM_alg_ml_kem_512'' 128,
      kem_ecp_ctor ''p256_mlkem512'' ''OQS_KEM_alg_ml_kem_512'' 128,
      kem_ecx_ctor ''x25519_mlkem512'' ''OQS_KEM_alg_ml_kem_512'' 128 1,
      kem_ecbp_ctor ''bp256_mlkem512'' ''OQS_KEM_alg_ml_kem_512'' 128 1,
      kem_ctor ''mlkem768'' ''OQS_KEM_alg_ml_kem_768'' 192,
      kem_ecp_ctor ''p384_mlkem768'' ''OQS_KEM_alg_ml_kem_768'' 192,
      kem_ecx_ctor ''x448_mlkem768'' ''OQS_KEM_alg_ml_kem_768'' 192 1,
      kem_ecbp_ctor ''bp384_mlkem768'' ''OQS_KEM_alg_ml_kem_768'' 192 1,
      kem_ecx_ctor ''X25519MLKEM768'' ''OQS_KEM_alg_ml_kem_768'' 128 1,
      kem_ecp_ctor ''SecP256r1MLKEM768'' ''OQS_KEM_alg_ml_kem_768'' 128,
      kem_ctor ''mlkem1024'' ''OQS_KEM_alg_ml_kem_1024'' 256,
      kem_ecp_ctor ''p521_mlkem1024'' ''OQS_KEM_alg_ml_kem_1024'' 256,
      kem_ecp_ctor ''SecP384r1MLKEM1024'' ''OQS_KEM_alg_ml_kem_1024'' 192,
      kem_ecbp_ctor ''bp512_mlkem1024'' ''OQS_KEM_alg_ml_kem_1024'' 256 1,
      kem_ctor ''bikel1'' ''OQS_KEM_alg_bike_l1'' 128,
      kem_ecp_ctor ''p256_bikel1'' ''OQS_KEM_alg_bike_l1'' 128,
      kem_ecx_ctor ''x25519_bikel1'' ''OQS_KEM_alg_bike_l1'' 128 0,
      kem_ctor ''bikel3'' ''OQS_KEM_alg_bike_l3'' 192,
      kem_ecp_ctor ''p384_bikel3'' ''OQS_KEM_alg_bike_l3'' 192,
      kem_ecx_ctor ''x448_bikel3'' ''OQS_KEM_alg_bike_l3'' 192 0,
      kem_ctor ''bikel5'' ''OQS_KEM_alg_bike_l5'' 256,
      kem_ecp_ctor ''p521_bikel5'' ''OQS_KEM_alg_bike_l5'' 256]"

definition sig_ctors :: "km_ctor list" where
  "sig_ctors = ctors_mldsa @ ctors_falcon @ ctors_mayo_cross @ ctors_ov @ ctors_snova @ ctors_slhdsa"

definition km_ctors :: "bool \<Rightarrow> km_ctor list" where
  "km_ctors kem_encoders = (if kem_encoders then kem_ctors else []) @ sig_ctors"

definition alg_new_key ::
    "liboqs \<Rightarrow> evp_calls \<Rightarrow> allocs \<Rightarrow> nat \<Rightarrow> km_ctor \<Rightarrow> 'p oqsx_key res" where
  "alg_new_key L C ok lc c =
     oqsx_key_new L C ok lc (Some (kc_oqs_name c)) (Some (kc_tls_name c)) (kc_keytype c) None (kc_bits c)
       (kc_alg_idx c) (kc_reverse c)"

definition alg_gen_init ::
    "bool \<Rightarrow> bool \<Rightarrow> bool \<Rightarrow> nat \<Rightarrow> selection \<Rightarrow> km_ctor \<Rightarrow> gen_ctx option" where
  "alg_gen_init ok ok_oqs ok_tls lc sel c =
     oqsx_gen_init ok ok_oqs ok_tls lc sel (kc_oqs_name c) (kc_tls_name c) (kc_keytype c) (kc_bits c)
       (kc_alg_idx c) (kc_reverse c)"

end
