(* ===== verification/Keymgmt_Correct.thy ===== *)
theory Keymgmt_Correct
  imports Keymgmt
begin

text \<open>
  Correctness of the key management operations: what matching compares, the round trips through
  the encoded public key and through export and import, the state a key is left in by setting its
  public key, the lengths of the parts of a hybrid key, and the ownership of a generated key.
\<close>

subsection \<open>Matching\<close>

text \<open>
  A key's material is its public bytes and the private bytes up to the length field. \<open>match_documented\<close> is
  the rule that the comment above \<^verbatim>\<open>oqsx_match\<close> gives for two keys of one algorithm, each part of it where
  the selection asks for that part: private keys are equal, and one without a private key does not
  match one with; public keys are equal, and if only one has a public key, the private keys
  decide, provided that domain parameters are selected.
\<close>

definition private_material :: "'p oqsx_key \<Rightarrow> bytes option" where
  "private_material k = map_option (take (privkeylen k)) (privkey k)"

definition match_documented :: "'p oqsx_key \<Rightarrow> 'p oqsx_key \<Rightarrow> selection \<Rightarrow> bool" where
  "match_documented k1 k2 sel \<longleftrightarrow>
     (if selects sel SELECT_PRIVATE_KEY then private_material k1 = private_material k2 else True) \<and>
     (if selects sel SELECT_PUBLIC_KEY then
        (if (pubkey k1 = None) = (pubkey k2 = None) then pubkey k1 = pubkey k2
         else selects sel SELECT_DOMAIN_PARAMETERS \<and> privkey k1 \<noteq> None \<and>
           private_material k1 = private_material k2)
      else True)"

lemma memcmp_private:
  assumes "wf_key k1" and "wf_key k2" and "privkeylen k2 = privkeylen k1"
    and "privkey k1 \<noteq> None" and "privkey k2 \<noteq> None"
  shows "CRYPTO_memcmp_eq (privkey k1) (privkey k2) (privkeylen k1) =
    Inr (private_material k1 = private_material k2)"
  using assms
  by (auto simp: CRYPTO_memcmp_eq_def private_material_def wf_key_def wf_buffers_def rd_ok slice_def)

lemma memcmp_public:
  assumes "wf_key k1" and "wf_key k2" and "pubkeylen k2 = pubkeylen k1"
    and "pubkey k1 \<noteq> None" and "pubkey k2 \<noteq> None"
  shows "CRYPTO_memcmp_eq (pubkey k1) (pubkey k2) (pubkeylen k1) = Inr (pubkey k1 = pubkey k2)"
  using assms
  by (auto simp: CRYPTO_memcmp_eq_def wf_key_def wf_buffers_def rd_ok slice_def)

lemma material_None: "private_material k = None \<longleftrightarrow> privkey k = None"
  by (simp add: private_material_def)

lemma match_private_eq:
  assumes "wf_key k1" and "wf_key k2" and "privkeylen k2 = privkeylen k1"
  shows "match_private k1 k2 = Inr (tls_name k1 = tls_name k2 \<and> private_material k1 = private_material k2)"
  using memcmp_private [OF assms] material_None [of k1] material_None [of k2]
  by (auto simp: match_private_def not_comparable_def)

lemma match_public_eq:
  assumes "wf_key k1" and "wf_key k2" and "privkeylen k2 = privkeylen k1" and "pubkeylen k2 = pubkeylen k1"
  shows "match_public k1 k2 domain True =
    Inr (if tls_name k1 = tls_name k2 \<and> (pubkey k1 = None) = (pubkey k2 = None) then pubkey k1 = pubkey k2
         else domain \<and> privkey k1 \<noteq> None \<and> private_material k1 = private_material k2)"
  using memcmp_private [OF assms(1-3)] memcmp_public [OF assms(1,2,4)] material_None [of k1] material_None [of k2]
  by (auto simp: match_public_def not_comparable_def)

text \<open>
  C25: On two well-formed keys of one algorithm \<^verbatim>\<open>oqsx_match\<close> reads only inside their buffers and follows
  the documented rule, with one exception: when both parts are selected and the public keys agree, it
  reports a match although the private keys differ or only one of the keys has one, because the private
  keys are compared only when public keys are not selected. Keys under different names match only
  if the private keys do and domain parameters are selected, or if nothing is compared.
\<close>

theorem match_against_comment:
  assumes "wf_key k1" and "wf_key k2" and "twin k1 k2"
  shows "oqsx_match (Some k1) (Some k2) sel = Inr
    (if tls_name k1 = tls_name k2 then
       match_documented k1 k2 sel \<or>
       selects sel SELECT_PRIVATE_KEY \<and> selects sel SELECT_PUBLIC_KEY \<and>
         pubkey k1 = pubkey k2 \<and> private_material k1 \<noteq> private_material k2
     else if selects sel SELECT_PUBLIC_KEY then
       selects sel SELECT_DOMAIN_PARAMETERS \<and> privkey k1 \<noteq> None \<and> private_material k1 = private_material k2
     else \<not> selects sel SELECT_PRIVATE_KEY)"
proof -
  note len = twin_wf(2,3) [OF assms(3,1,2)]
  note priv = match_private_eq [OF assms(1,2) len(1)] and pub = match_public_eq [OF assms(1,2) len]
  show ?thesis
    by (cases "selects sel SELECT_PRIVATE_KEY"; cases "selects sel SELECT_PUBLIC_KEY";
        cases "tls_name k1 = tls_name k2"; cases "pubkey k1 = pubkey k2")
      (simp_all add: oqsx_match_def match_documented_def priv pub, blast+)
qed

text \<open>
  With domain parameters selected, keys of different algorithms are compared by their private
  bytes over the length of the first one's: the comparison reads past the end of the second one's
  buffer exactly when that is shorter.
\<close>

lemma match_overread:
  assumes "wf_key k1" and "privkey k1 = Some s1" and "privkey k2 = Some s2" and "tls_name k1 \<noteq> tls_name k2"
    and "selects sel SELECT_PUBLIC_KEY" and "selects sel SELECT_DOMAIN_PARAMETERS"
  shows "oqsx_match (Some k1) (Some k2) sel =
    (if length s2 < privkeylen k1 then Inl UB
     else Inr (take (privkeylen k1) s1 = take (privkeylen k1) s2))"
  using assms
  by (auto simp: oqsx_match_def match_public_def not_comparable_def CRYPTO_memcmp_eq_def rd_def slice_def
      wf_key_def wf_buffers_def)

text \<open>A key pair matches its own public part, which the documented rule excludes.\<close>

lemma match_against_comment_witness:
  "oqsx_match (Some mldsa_full) (Some (mldsa_full\<lparr>privkey := None\<rparr>)) SELECT_KEYPAIR = Inr True \<and>
    \<not> match_documented mldsa_full (mldsa_full\<lparr>privkey := None\<rparr>) SELECT_KEYPAIR"
proof -
  let ?k = "mldsa_full\<lparr>privkey := None\<rparr>"
  have "wf_key ?k" using sample_full_wf(1) by (rule wf_key_buffer_upd)
  moreover have "twin mldsa_full ?k" by (simp add: twin_def)
  moreover have "private_material mldsa_full \<noteq> private_material ?k"
    using material_None [of mldsa_full] material_None [of ?k] sample_full_fields(5) by fastforce
  moreover have "selects SELECT_KEYPAIR SELECT_PRIVATE_KEY" "selects SELECT_KEYPAIR SELECT_PUBLIC_KEY"
    by (simp_all add: selects_def SELECT_KEYPAIR_def SELECT_PUBLIC_KEY_def SELECT_PRIVATE_KEY_def)
  ultimately show ?thesis
    using match_against_comment [OF sample_full_wf(1), of ?k SELECT_KEYPAIR] by (simp add: match_documented_def)
qed

lemma match_overread_witness:
  "oqsx_match (Some mldsa_full) (Some (mldsa_full\<lparr>privkey := Some [], tls_name := ''other''\<rparr>)) 6 = Inl UB"
  using match_overread [OF sample_full_wf(1) sample_full_fields(5),
      of "mldsa_full\<lparr>privkey := Some [], tls_name := ''other''\<rparr>" "[]" 6]
  by (simp add: sample_full_fields selects_def SELECT_PUBLIC_KEY_def SELECT_DOMAIN_PARAMETERS_def
      mldsa_full_def p256_mldsa_def sample_key_def)

subsection \<open>Setting the public key\<close>

text \<open>Where the caller's bytes go: behind the header of a hybrid KEM key, over the whole buffer otherwise.\<close>

definition pub_offset :: "'p oqsx_key \<Rightarrow> nat" where
  "pub_offset k = (if is_hyb_kem (keytype k) then SIZE_OF_UINT32 else 0)"

definition with_new_pub :: "'p oqsx_key \<Rightarrow> bytes \<Rightarrow> 'p oqsx_key" where
  "with_new_pub k b =
     (if privkey k = None then k\<lparr>pubkey := Some b\<rparr>
      else k\<lparr>pubkey := Some b, privkey := None, comp_privkey := map (\<lambda>_. Uninit) (comp_privkey k)\<rparr>)"

lemma with_new_pub_fields [simp]:
  "keytype (with_new_pub k b) = keytype k" "pubkey (with_new_pub k b) = Some b"
  "privkey (with_new_pub k b) = None" "pubkeylen (with_new_pub k b) = pubkeylen k"
  "numkeys (with_new_pub k b) = numkeys k" "comp_pubkey (with_new_pub k b) = comp_pubkey k"
  "reverse_share (with_new_pub k b) = reverse_share k" "same_key k (with_new_pub k b)"
  "length (comp_privkey (with_new_pub k b)) = length (comp_privkey k)"
  by (simp_all add: with_new_pub_def same_key_def)

lemma with_new_pub_wf: "wf_key k \<Longrightarrow> length b = pubkeylen k \<Longrightarrow> wf_key (with_new_pub k b)"
  by (auto simp: with_new_pub_def wf_key_def wf_shape_def wf_buffers_def classic_info_ok_def split: if_splits)

lemma hyb_first_pub:
  assumes "comps_ok k" and "is_hybrid (keytype k)" and "pubkey k = Some b"
  shows "\<exists>o2. comp_pubkey k = [Off 4, Off o2]"
  using assms by (auto simp: comps_ok_def ptrs_ok_def comp_ptrs_def)

lemma set_params_eq:
  assumes wf: "wf_key k" and cs: "comps_ok k" and b: "pubkey k = Some b"
  shows "oqsx_set_params m dup (Some p) None k =
    (if length (op_data p) = pubkeylen k - pub_offset k \<and> op_octets p
     then (Inr (), with_new_pub k (patch b (pub_offset k) (op_data p))) else (Inl Quiet, k))"
proof -
  let ?b = "patch b (pub_offset k) (op_data p)"
  have lb: "length b = pubkeylen k" using wf b by (simp add: wf_key_def wf_buffers_def)
  have off: "pub_offset k \<le> pubkeylen k"
    using wf by (auto simp: pub_offset_def wf_key_def wf_shape_def classic_info_ok_def is_hybrid_def)
  have drop: "drop_private (k\<lparr>pubkey := Some b'\<rparr>) = (Inr (), with_new_pub k b')" for b'
    using wf
    by (cases "privkey k")
      (auto simp: drop_private_def thenS_def bindS_def st_simps clears_def with_new_pub_def wf_key_def
        wf_buffers_def)
  have "set_encoded_pub m p k =
      (if length (op_data p) = pubkeylen k - pub_offset k \<and> op_octets p
       then (Inr (), k\<lparr>pubkey := Some ?b\<rparr>) else (Inl Quiet, k))"
  proof (cases "is_hyb_kem (keytype k)")
    case True
    with hyb_first_pub [OF cs _ b] have "comp_or_null (comp_pubkey k) 0 = Inr (Some 4)"
      by (auto simp: is_hybrid_def comp_or_null_def)
    with True off lb b show ?thesis
      by (auto simp: set_encoded_pub_def st_simps pub_offset_def bufs_write_pub)
  next
    case False
    with off lb b show ?thesis
      by (auto simp: set_encoded_pub_def st_simps pub_offset_def bufs_write_pub)
  qed
  then show ?thesis
    using drop [of ?b] by (simp add: oqsx_set_params_def thenS_def bindS_def st_simps)
qed

lemma get_hybrid_params_quiet:
  assumes "wf_key k" and "pubkey k = Some b" and "privkey k = None"
    and "is_hybrid (keytype k) \<Longrightarrow> \<exists>o2. comp_pubkey k = [Off 4, Off o2]"
    and "\<And>q. q \<in> {P_CLASSICAL_PUB_KEY, P_CLASSICAL_PRIV_KEY, P_PQ_PUB_KEY, P_PQ_PRIV_KEY} \<Longrightarrow> \<not> asked q"
  shows "oqsx_get_hybrid_params P asked k a = (Inr (), a)"
proof (cases "oqsx_key_is_hybrid k")
  case True
  then have h: "is_hybrid (keytype k)" "numkeys k = 2" by (simp_all add: oqsx_key_is_hybrid_def)
  from assms(4) [OF h(1)] obtain o2 where ps: "comp_pubkey k = [Off 4, Off o2]" by blast
  have l: "length (comp_privkey k) = 2" "4 \<le> length b"
    using assms(1,2) h by (auto simp: wf_key_def wf_shape_def wf_buffers_def classic_info_ok_def)
  have i: "idx_classic k < 2" "idx_pq k < 2"
    by (auto simp: idx_classic_def idx_pq_def oqsx_comp_set_idx_def h(2))
  then have at: "\<exists>o'. comp_or_null (comp_pubkey k) (idx_classic k) = Inr (Some o')"
      "\<exists>o'. comp_or_null (comp_pubkey k) (idx_pq k) = Inr (Some o')"
    by (auto simp: ps comp_or_null_def nth_Cons' less_2_cases_iff)
  with assms(2,3,5) l i show ?thesis
    by (auto simp: oqsx_get_hybrid_params_def True classic_part_def header_of_ok st_simps comp_ptr_def
        set_octets_def thenS_def bindS_def)
qed (simp add: oqsx_get_hybrid_params_def st_simps)

text \<open>
  C27: Setting the encoded public key of a key with a public buffer succeeds exactly on octets of
  the encoded length, and keeps the key well-formed; reading the encoded public key back then
  gives the bytes that were set.
\<close>

theorem set_get_encoded_pub:
  assumes "wf_key k" and "comps_ok k" and "pubkey k = Some b"
    and "oqsx_set_params m dup (Some p) None k = (r, k')"
    and "set_octets_does P P_ENCODED_PUBLIC_KEY False (length (op_data p)) = Copied"
  shows "(r = Inr () \<longleftrightarrow> op_octets p \<and> length (op_data p) = pubkeylen k - pub_offset k) \<and>
    r \<noteq> Inl UB \<and> wf_key k' \<and> same_key k k' \<and>
    (r = Inr () \<longrightarrow> oqsx_get_params P (Some k') (Some (\<lambda>q. q = P_ENCODED_PUBLIC_KEY)) [] =
       (Inr (), [(P_ENCODED_PUBLIC_KEY, POctets (op_data p))]))"
proof (cases "length (op_data p) = pubkeylen k - pub_offset k \<and> op_octets p")
  case False
  with assms(1,4) show ?thesis by (auto simp: set_params_eq [OF assms(1-3)])
next
  case True
  let ?d = "op_data p" and ?off = "pub_offset k"
  let ?b = "patch b ?off ?d"
  from True assms(4) have r: "r = Inr ()" "k' = with_new_pub k ?b"
    by (simp_all add: set_params_eq [OF assms(1-3)])
  have lb: "length b = pubkeylen k" using assms(1,3) by (simp add: wf_key_def wf_buffers_def)
  have off: "?off \<le> pubkeylen k"
    using assms(1) by (auto simp: pub_offset_def wf_key_def wf_shape_def classic_info_ok_def is_hybrid_def)
  have l: "length ?b = pubkeylen k" "rd ?b ?off (pubkeylen k - ?off) = Inr ?d"
    using lb off True by (simp_all add: rd_ok slice_patch_same)
  have wf: "wf_key k'" unfolding r using with_new_pub_wf [OF assms(1) l(1)] .
  have q: "oqsx_get_hybrid_params P (\<lambda>q. q = P_ENCODED_PUBLIC_KEY) k' a = (Inr (), a)" for a
    using wf hyb_first_pub [OF assms(2) _ assms(3)]
    by (intro get_hybrid_params_quiet) (auto simp: r(2))
  have "oqsx_get_params P (Some k') (Some (\<lambda>q. q = P_ENCODED_PUBLIC_KEY)) [] =
       (Inr (), [(P_ENCODED_PUBLIC_KEY, POctets ?d)])"
  proof (cases "is_hyb_kem (keytype k)")
    case hyb: True
    note l2 = l(2) [unfolded pub_offset_def if_P [OF hyb] SIZE_OF_UINT32_eq]
    show ?thesis
      using True assms(5) q hyb
      by (simp add: oqsx_get_params_def set_int_def set_utf8_def set_octets_def st_simps thenS_def bindS_def
          answer_def r(2) pub_offset_def l2)
  next
    case plain: False
    note l2 = l(2) [unfolded pub_offset_def if_not_P [OF plain] diff_zero]
    show ?thesis
      using True assms(5) q plain
      by (simp add: oqsx_get_params_def set_int_def set_utf8_def set_octets_def st_simps thenS_def bindS_def
          answer_def r(2) pub_offset_def buf_ptr_def l2)
  qed
  with True r wf show ?thesis by auto
qed

text \<open>
  C28: Setting the public key releases the private buffer but leaves the private component pointers
  as they are: a decapsulation with the key afterwards reads the released memory instead of
  reporting that there is no private key, whichever component it uses.
\<close>

theorem set_params_dangling:
  assumes "wf_key k" and "comps_ok k" and "pubkey k = Some b" and "privkey k = Some sb"
    and "oqsx_set_params m dup (Some p) None k = (Inr (), k')" and "slot < numkeys k"
    and "inlen = qs_length_ciphertext (qs k)" and "out = Some so" and "inp = Some co"
    and "outlen = Some n" and "qs_length_shared_secret (qs k) \<le> n"
  shows "\<not> oqsx_has (Some k') SELECT_PRIVATE_KEY \<and>
    fst (oqs_qs_kem_decaps_keyslot L (Some k') slot out outlen inp inlen io) = Inl UB"
proof -
  from assms(5) have k': "k' = with_new_pub k (patch b (pub_offset k) (op_data p))"
    by (simp add: set_params_eq [OF assms(1-3)] split: if_splits)
  have "slot < length (comp_privkey k)" using assms(1,6) by (auto simp: wf_key_def wf_shape_def)
  then have "comp_slot (comp_privkey k') slot = Inl UB"
    using assms(4) by (simp add: k' with_new_pub_def comp_slot_def)
  then have "fst (oqs_qs_kem_decaps_keyslot L (Some k') slot out outlen inp inlen io) = Inl UB"
    by (simp add: oqs_qs_kem_decaps_keyslot_def bindS_def st_simps)
  moreover have "\<not> oqsx_has (Some k') SELECT_PRIVATE_KEY"
    by (simp add: oqsx_has_def k' selects_def SELECT_PRIVATE_KEY_def)
  ultimately show ?thesis by simp
qed

definition sample_params :: param_calls where
  "sample_params = \<lparr>set_int_ok = (\<lambda>_ _. True), set_utf8_ok = (\<lambda>_ _. True),
     set_octets_does = (\<lambda>_ null _. if null then Refused else Copied), push_ok = (\<lambda>_. True),
     bld_new_ok = True, to_param_ok = True\<rparr>"

definition sample_new_pub :: ossl_param where
  "sample_new_pub = \<lparr>op_octets = True, op_data = replicate 69 5\<rparr>"

lemma sample_comps_ok: "comps_ok mldsa_full" "comps_ok mlkem_full"
  by (simp_all add: comps_ok_def mldsa_full_def mlkem_full_def p256_mldsa_def p256_mlkem_def sample_key_def
      is_hybrid_def is_hyb_kem_def ptrs_ok_def comp_reverse_def sample_qs_def sample_classic_def
      sample_priv_def sample_pub_def comp_ptrs_def)

lemma sample_set_params:
  "oqsx_set_params True True (Some sample_new_pub) None mlkem_full =
     (Inr (), with_new_pub mlkem_full (patch (the (pubkey mlkem_full)) 4 (replicate 69 5)))"
  unfolding set_params_eq [OF sample_full_wf(2) sample_comps_ok(2) sample_full_fields(4)]
  by (simp add: sample_full_fields sample_new_pub_def pub_offset_def mlkem_full_def p256_mlkem_def
      sample_key_def is_hyb_kem_def)

lemma set_get_encoded_pub_witness:
  "oqsx_get_params sample_params
     (Some (snd (oqsx_set_params True True (Some sample_new_pub) None mlkem_full)))
     (Some (\<lambda>q. q = P_ENCODED_PUBLIC_KEY)) [] = (Inr (), [(P_ENCODED_PUBLIC_KEY, POctets (replicate 69 5))])"
proof -
  have "op_data sample_new_pub = replicate 69 5" by (simp add: sample_new_pub_def)
  with set_get_encoded_pub [OF sample_full_wf(2) sample_comps_ok(2) sample_full_fields(4) sample_set_params,
      of sample_params] show ?thesis
    unfolding sample_set_params by (simp add: sample_params_def)
qed

lemma set_params_dangling_witness:
  "fst (oqs_qs_kem_decaps_keyslot sample_liboqs
     (Some (snd (oqsx_set_params True True (Some sample_new_pub) None mlkem_full))) 1 (Some 0) (Some 2)
     (Some 0) 3 \<lparr>ct_buf = [1, 2, 3], secret_buf = [0, 0]\<rparr>) = Inl UB"
proof -
  have "1 < numkeys mlkem_full" "3 = qs_length_ciphertext (qs mlkem_full)"
      "qs_length_shared_secret (qs mlkem_full) \<le> 2"
    by (simp_all add: mlkem_full_def p256_mlkem_def sample_key_def sample_qs_def)
  from set_params_dangling [OF sample_full_wf(2) sample_comps_ok(2) sample_full_fields(4,6) sample_set_params
      this(1,2) refl refl refl this(3)]
  show ?thesis unfolding sample_set_params by simp
qed

subsection \<open>The parts of a hybrid key\<close>

lemma set_octets_not_asked: "\<not> asked p \<Longrightarrow> set_octets P asked p ptr buf n = retS ()"
  by (simp add: set_octets_def)

lemma int_len_small:
  assumes "n < 2 ^ 31"
  shows "int_len (int n) = n"
proof -
  have "sint (word_of_int (int n) :: 32 word) = int n" using assms by (subst int_word_sint) simp
  then have "scast (word_of_int (int n) :: 32 word) = (word_of_int (int n) :: 64 word)"
    by (simp only: scast_eq)
  moreover have "unat (of_nat n :: 64 word) = n"
    using assms by (simp add: unat_of_nat take_bit_nat_eq_self)
  ultimately show ?thesis by (simp add: int_len_def)
qed

text \<open>
  The length handed out for the post-quantum private key is the length of everything behind
  the actual classical part. The component, however, is behind the maximal classical length in a
  hybrid KEM key: when the classical encoding is shorter by \<open>missing\<close> bytes, the answer has that
  many bytes too many, and when they are not in the buffer the copy reads past its end.
\<close>

lemma pq_privkey_length:
  assumes "wf_key k" and "comps_ok k" and "oqsx_key_is_hybrid k" and "evp_info k = Some i"
    and "pubkey k = Some b" and "privkey k = Some sb" and "privkeylen k < 2 ^ 31"
    and "read_comp (comp_privkey k) (idx_pq k) (privkey k) (qs_length_secret_key (qs k)) = Inr sk"
    and "dec32 (slice sb 0 4) \<le> length_private_key i"
    and "missing = length_private_key i - dec32 (slice sb 0 4)"
    and "comp_at (comp_privkey k) (idx_pq k) = Inr off"
    and "\<And>n. set_octets_does P P_PQ_PRIV_KEY False n = Copied"
  shows "oqsx_get_hybrid_params P (\<lambda>q. q = P_PQ_PRIV_KEY) k [] =
    (if length sb < off + qs_length_secret_key (qs k) + missing then (Inl UB, [])
     else (Inr (), [(P_PQ_PRIV_KEY, POctets (sk @ slice sb (off + qs_length_secret_key (qs k)) missing))]))"
proof -
  let ?q = "qs_length_secret_key (qs k)" and ?n = "dec32 (slice sb 0 4)"
  have h: "is_hybrid (keytype k)" "numkeys k = 2" using assms(3) by (simp_all add: oqsx_key_is_hybrid_def)
  have len: "privkeylen k = 4 + ?q + length_private_key i" "4 \<le> length b" "4 \<le> length sb"
      "privkeylen k \<le> length sb"
    using assms(1,4-6) h by (auto simp: wf_key_def wf_shape_def wf_buffers_def classic_info_ok_def)
  have l: "int_len (int (privkeylen k) - int ?n - 4) = ?q + missing"
  proof -
    have e: "int (privkeylen k) - int ?n - 4 = int (?q + missing)" using len(1) assms(9,10) by simp
    have "?q + missing < 2 ^ 31" using len(1) assms(7,10) by simp
    then show ?thesis unfolding e by (rule int_len_small)
  qed
  obtain n m where ps: "comp_pubkey k = comp_ptrs (comp_reverse k) (qs_length_public_key (qs k)) n"
      "comp_privkey k = comp_ptrs (comp_reverse k) ?q m"
    using assms(2,4-6) h by (auto simp: comps_ok_def ptrs_ok_def)
  have i: "idx_classic k < 2" "idx_pq k < 2"
    by (auto simp: idx_classic_def idx_pq_def oqsx_comp_set_idx_def h(2))
  then have at: "\<exists>o'. comp_or_null (comp_pubkey k) (idx_classic k) = Inr (Some o')"
      "\<exists>o'. comp_or_null (comp_pubkey k) (idx_pq k) = Inr (Some o')"
      "\<exists>o'. comp_or_null (comp_privkey k) (idx_classic k) = Inr (Some o')"
      "comp_ptr (comp_privkey k) (idx_pq k) = Inr (Off off)"
    using assms(11)
    by (auto simp: ps comp_or_null_def comp_ptr_def comp_ptrs_def comp_at_def nth_Cons' less_2_cases_iff)
  have e: "oqsx_get_hybrid_params P (\<lambda>q. q = P_PQ_PRIV_KEY) k [] =
      set_octets P (\<lambda>q. q = P_PQ_PRIV_KEY) P_PQ_PRIV_KEY (Off off) (Some sb) (?q + missing) []"
    using at len(2,3) assms(3,5,6)
    by (auto simp: oqsx_get_hybrid_params_def classic_part_def header_of_ok st_simps l set_octets_not_asked)
  have sk: "sk = slice sb off ?q" using assms(6,8,11) by (auto simp: read_comp_def)
  have "take (?q + missing) (drop off sb) = take ?q (drop off sb) @ take missing (drop (off + ?q) sb)"
    using take_add [of ?q missing "drop off sb"] by (simp add: add.commute)
  then have "rd sb off (?q + missing) = (if length sb < off + ?q + missing then Inl UB
      else Inr (sk @ slice sb (off + ?q) missing))"
    by (simp add: rd_def sk slice_def add.assoc)
  then show ?thesis by (simp add: e set_octets_def assms(12) st_simps answer_def bindS_def)
qed

lemma pq_privkey_length_witness:
  "oqsx_get_hybrid_params sample_params (\<lambda>q. q = P_PQ_PRIV_KEY) mlkem_full [] =
     (Inr (), [(P_PQ_PRIV_KEY, POctets ([9, 9, 9, 9, 9] @ [0]))])"
proof -
  let ?k = mlkem_full and ?sb = "the (privkey mlkem_full)"
  have f: "oqsx_key_is_hybrid ?k" "privkeylen ?k < 2 ^ 31" "dec32 (slice ?sb 0 4) \<le> length_private_key info_p256"
    "1 = length_private_key info_p256 - dec32 (slice ?sb 0 4)"
    "qs_length_secret_key (qs ?k) = 5"
    by (simp_all add: oqsx_key_is_hybrid_def mlkem_full_def p256_mlkem_def sample_key_def is_hybrid_def
        is_hyb_kem_def sample_headers sample_qs_def)
  have r: "read_comp (comp_privkey ?k) (idx_pq ?k) (privkey ?k) (qs_length_secret_key (qs ?k)) = Inr [9, 9, 9, 9, 9]"
    by code_simp
  have o: "comp_at (comp_privkey ?k) (idx_pq ?k) = Inr 125" by code_simp
  have l: "length ?sb = 134" "slice ?sb 130 1 = [0]" by code_simp+
  from pq_privkey_length [OF sample_full_wf(2) sample_comps_ok(2) f(1) sample_full_fields(2,4,6) f(2) r f(3,4) o,
      of sample_params] show ?thesis
    by (simp add: sample_params_def f(5) l l(2) [unfolded One_nat_def])
qed

subsection \<open>Export and import\<close>

text \<open>What the callback of an export finds under a parameter's name.\<close>

definition received :: "answers \<Rightarrow> key_param \<Rightarrow> ossl_param option" where
  "received a p = map_option (\<lambda>v. case v of
       POctets d \<Rightarrow> \<lparr>op_octets = True, op_data = d\<rparr> | _ \<Rightarrow> \<lparr>op_octets = False, op_data = []\<rparr>) (map_of a p)"

definition import_into ::
    "'p openssl \<Rightarrow> allocs \<Rightarrow> selection \<Rightarrow> answers \<Rightarrow> 'p oqsx_key \<Rightarrow> bool \<times> 'p oqsx_key" where
  "import_into E ok sel a k0 = (let (r, k) = oqsx_import E ok sel (received a) k0 in (r = Inr (), k))"

lemma keypair_selects:
  "selects SELECT_KEYPAIR SELECT_KEYPAIR" "selects SELECT_KEYPAIR SELECT_PRIVATE_KEY"
  by (simp_all add: selects_def SELECT_KEYPAIR_def SELECT_PUBLIC_KEY_def SELECT_PRIVATE_KEY_def)

lemma export_answers:
  assumes "wf_key k" and "pubkey k = Some b" and "privkey k = Some sb" and "pubkeylen k \<noteq> 0" and "privkeylen k \<noteq> 0"
    and "bld_new_ok P" and "to_param_ok P" and "\<And>q. push_ok P q"
  shows "oqsx_export P (Some k) SELECT_KEYPAIR (Some f) s =
    (let (c, s') = f [(P_PUB_KEY, POctets b), (P_PRIV_KEY, POctets (take (privkeylen k) sb))] s in (Inr c, s'))"
proof -
  have l: "length b = pubkeylen k" "privkeylen k \<le> length sb"
    using assms(1-3) by (auto simp: wf_key_def wf_buffers_def)
  then have rds: "rd b 0 (pubkeylen k) = Inr b" "rd sb 0 (privkeylen k) = Inr (take (privkeylen k) sb)"
    by (simp_all add: rd_def slice_def)
  have "oqsx_key_to_params P (Some k) True (\<lambda>_. False) True [] =
      (Inr (), [(P_PUB_KEY, POctets b), (P_PRIV_KEY, POctets (take (privkeylen k) sb))])"
    using assms
    by (simp add: oqsx_key_to_params_def key_part_to_params_def oqsx_param_build_set_octet_string_def
        thenS_def bindS_def st_simps answer_def rds)
  with assms(6,7) show ?thesis
    by (simp add: oqsx_export_def keypair_selects split: prod.splits)
qed

lemma truncated_priv_reads:
  assumes wf: "wf_key k" and cur: "comps_current k" and hyb: "is_hybrid (keytype k)"
    and i: "evp_info k = Some i" and sb: "privkey k = Some sb"
    and h: "dec32 (slice sb 0 4) \<le> length_private_key i"
  defines "s' \<equiv> take (privkeylen k) sb"
  shows "slice s' 0 4 = slice sb 0 4" "header_of (Some s') = header_of (privkey k)"
    and "header_of (privkey k) = Inr n \<Longrightarrow>
      read_comp (comp_privkey k) (idx_classic k) (Some s') n = read_comp (comp_privkey k) (idx_classic k) (privkey k) n"
proof -
  have len: "privkeylen k = 4 + qs_length_secret_key (qs k) + length_private_key i" "numkeys k = 2"
      "privkeylen k \<le> length sb"
    using wf hyb i sb by (auto simp: wf_key_def wf_shape_def wf_buffers_def classic_info_ok_def)
  have same: "slice s' o' m = slice sb o' m" if "o' + m \<le> privkeylen k" for o' m
    using that len(3) by (simp add: s'_def slice_def drop_take min_def)
  show sl4: "slice s' 0 4 = slice sb 0 4" by (rule same) (simp add: len)
  have four: "4 \<le> length sb" "4 \<le> length s'" using len by (simp_all add: s'_def)
  then show "header_of (Some s') = header_of (privkey k)"
    by (simp add: header_of_ok [OF refl] sb sl4)
  assume "header_of (privkey k) = Inr n"
  then have n: "n = dec32 (slice sb 0 4)" using four(1) by (simp add: header_of_ok sb)
  obtain m where "comp_ptrs (comp_reverse k) (qs_length_secret_key (qs k)) m = comp_privkey k"
    using comps_current_hybrid(1) [OF wf cur hyb i] by (auto simp: sb hyb_ptrs_def bindR_eq_Inr)
  note m = this [symmetric]
  from len n h m obtain off where off: "comp_at (comp_privkey k) (idx_classic k) = Inr off"
      "off + n \<le> privkeylen k"
    by (auto simp: comp_at_classic)
  moreover have "off + n \<le> length s'" "off + n \<le> length sb" using off(2) len(3) by (simp_all add: s'_def)
  ultimately show "read_comp (comp_privkey k) (idx_classic k) (Some s') n =
      read_comp (comp_privkey k) (idx_classic k) (privkey k) n"
    by (simp add: read_comp_def sb rd_ok same)
qed

lemma fromdata_full:
  assumes f: "full_key E k b sb" and k0: "wf_key k0" "twin k k0" "classical_pkey k0 = None"
    and ok: "ok A_PUBKEY" "ok A_PRIVKEY"
  defines "s' \<equiv> take (privkeylen k) sb"
  shows "\<exists>k'. oqsx_key_fromdata E ok (Some \<lparr>op_octets = True, op_data = s'\<rparr>)
        (Some \<lparr>op_octets = True, op_data = b\<rparr>) True k0 = (Inr (), k') \<and>
      twin k k' \<and> pubkey k' = Some b \<and> privkey k' = Some s' \<and> comp_pubkey k' = comp_pubkey k \<and>
      comp_privkey k' = comp_privkey k \<and> classical_pkey k' = classical_pkey k"
proof -
  have a: "wf_key k" "comps_current k" "pubkey k = Some b" "privkey k = Some sb" "pubkeylen k < 2 ^ 32"
    using f by (simp_all add: full_key_def)
  note e = twin_wf [OF k0(2) a(1) k0(1)]
  have l: "length b = pubkeylen k" "length s' = privkeylen k"
    using a(1,3,4) by (auto simp: s'_def wf_key_def wf_buffers_def)
  let ?k1 = "k0\<lparr>comp_privkey := map (\<lambda>_. Uninit) (comp_privkey k0), privkey := Some s',
      comp_pubkey := map (\<lambda>_. Uninit) (comp_pubkey k0), pubkey := Some b\<rparr>"
  let ?k2 = "?k1\<lparr>comp_privkey := comp_privkey k, comp_pubkey := comp_pubkey k\<rparr>"
  have t: "twin k ?k1" "twin k ?k2" and kt: "keytype k0 = keytype k" using k0(2) by (simp_all add: twin_def)
  have h: "dec32 (slice sb 0 4) \<le> length_private_key i" if "evp_info k = Some i" for i
    using f that by (simp add: full_key_def)
  have wf1: "wf_key ?k1"
    using k0(1) l e(2,3) by (auto simp: wf_key_def wf_shape_def wf_buffers_def classic_info_ok_def split: if_splits)
  have sl: "slice s' 0 4 = slice sb 0 4" if "is_hybrid (keytype k)"
  proof -
    from a(1) that obtain i where i: "evp_info k = Some i" by (auto simp: wf_key_def wf_shape_def)
    from truncated_priv_reads(1) [OF a(1,2) that i a(4) h [OF i]] show ?thesis by (simp add: s'_def)
  qed
  have sc: "oqsx_key_set_composites (is_hyb_kem (keytype k)) ?k1 = (Inr (), ?k2)"
    using set_composites_twin [OF a(1) wf1 t(1) a(2,3), of b] a(4) sl by simp
  have fd: "oqsx_key_fromdata E ok (Some \<lparr>op_octets = True, op_data = s'\<rparr>)
        (Some \<lparr>op_octets = True, op_data = b\<rparr>) True k0 = oqsx_key_recreate_classickey E KEY_OP_PRIVATE ?k2"
    using sc ok l e(2,3)
    by (simp add: oqsx_key_fromdata_def replace_priv_def replace_pub_def thenS_def bindS_def st_simps kt)
  show ?thesis
  proof (cases "is_hybrid (keytype k)")
    case False
    then have "numkeys k0 = 1" "classical_pkey k = None"
      using f e(1) by (auto simp: full_key_def wf_key_def wf_shape_def)
    with fd t(2) k0(3) show ?thesis by (simp add: oqsx_key_recreate_classickey_def st_simps)
  next
    case True
    then obtain i where i: "evp_info k = Some i" using a(1) by (auto simp: wf_key_def wf_shape_def)
    have n: "numkeys k = 2" using a(1) True by (simp add: wf_key_def wf_shape_def)
    have hdr: "slice b 0 4 = enc32 (length_public_key i)"
      and "oqsx_key_recreate_classickey E KEY_OP_PRIVATE k = (Inr (), k)"
      using f i by (simp_all add: full_key_def)
    then have rk: "recreate_private E i k = (Inr (), k)"
      by (simp add: oqsx_key_recreate_classickey_def st_simps n i)
    note lay = hybrid_pub_layout [OF a(1,2) True i a(3) hdr a(5)]
    note r = truncated_priv_reads [OF a(1,2) True i a(4) h [OF i], folded s'_def]
    let ?off = "if comp_reverse k then 4 + qs_length_public_key (qs k) else 4"
    have fit: "?off + length_public_key i \<le> length b" using lay(1) by simp
    obtain cb where cb: "patch b ?off cb = b"
      and rec: "recreate_private E i ?k2 = (Inr (), ?k2\<lparr>classical_pkey := classical_pkey k, pubkey := Some (patch b ?off cb)\<rparr>)"
      using recreate_private_local [where k' = ?k2, OF _ _ _ _ _ lay(2) a(3) _ fit _ rk] r(2,3) e(5) by auto
    have "numkeys k0 = 2" "evp_info k0 = Some i" using e(1) n k0(2) i by (simp_all add: twin_def)
    with rec cb have "oqsx_key_recreate_classickey E KEY_OP_PRIVATE ?k2 =
        (Inr (), ?k2\<lparr>classical_pkey := classical_pkey k, pubkey := Some b\<rparr>)"
      by (simp add: oqsx_key_recreate_classickey_def st_simps)
    with fd t(2) show ?thesis by (simp add: twin_def)
  qed
qed

text \<open>
  C26: Exporting a key pair and importing what the callback receives into an empty key of the same
  algorithm succeeds and copies the key: the same public bytes, the private bytes up to the length
  field, the same component pointers and the same classical key object.
\<close>

theorem export_import_round_trip:
  assumes "full_key E k b sb" and "wf_key k0" and "twin k k0" and "classical_pkey k0 = None"
    and "ok A_PUBKEY" and "ok A_PRIVKEY" and "pubkeylen k \<noteq> 0" and "privkeylen k \<noteq> 0"
    and "bld_new_ok P" and "to_param_ok P" and "\<And>q. push_ok P q"
  shows "\<exists>k'. oqsx_export P (Some k) SELECT_KEYPAIR (Some (import_into E ok SELECT_KEYPAIR)) k0 = (Inr True, k') \<and>
    twin k k' \<and> pubkey k' = Some b \<and> privkey k' = Some (take (privkeylen k) sb) \<and>
    comp_pubkey k' = comp_pubkey k \<and> comp_privkey k' = comp_privkey k \<and> classical_pkey k' = classical_pkey k"
proof -
  have a: "wf_key k" "pubkey k = Some b" "privkey k = Some sb" using assms(1) by (simp_all add: full_key_def)
  from fromdata_full [OF assms(1-4), where ok = ok, OF assms(5,6)] show ?thesis
    by (auto simp: export_answers [OF a assms(7-11)] import_into_def oqsx_import_def keypair_selects received_def)
qed

lemma export_import_round_trip_witness:
  "\<exists>k'. oqsx_export sample_params (Some mldsa_full) SELECT_KEYPAIR
      (Some (import_into sample_openssl (\<lambda>_. True) SELECT_KEYPAIR)) p256_mldsa = (Inr True, k') \<and>
    pubkey k' = pubkey mldsa_full \<and> comp_privkey k' = comp_privkey mldsa_full"
proof -
  have "classical_pkey p256_mldsa = None" by (simp add: p256_mldsa_def sample_key_def)
  from export_import_round_trip [OF sample_full_keys(1) sample_keys_wf(3) sample_full_twins(1) this,
      of "\<lambda>_. True" sample_params] show ?thesis
    by (auto simp: sample_params_def sample_full_fields(11,13) simp flip: sample_full_fields(3))
qed

subsection \<open>Ownership of a generated key\<close>

text \<open>
  C29: A generated key is handed to the caller with exactly the caller's reference. When generation
  fails after the key was created, the function returns NULL and the key stays allocated with a
  count of one that nobody holds: the heap no longer counts its references. A failure to create
  the key leaves the heap alone.
\<close>

theorem genkey_ownership:
  fixes new :: "'p oqsx_key res" and h :: "'p kheap"
  assumes "counted_keys h H" and "h a = None"
    and "keypair_lengths (OQS_KEM_keypair L)" and "keypair_lengths (OQS_SIG_keypair L)"
    and "\<And>k i. oqsx_key_new L C ok (g_libctx g) (g_oqs_name g) (g_tls_name g) (g_primitive g) (g_propq g)
           (g_bit_security g) (g_alg_idx g) (g_reverse_share g) = (Inr k :: 'p oqsx_key res) \<Longrightarrow> evp_info k = Some i \<Longrightarrow> keygen_fits E i"
    and "oqsx_key_new L C ok (g_libctx g) (g_oqs_name g) (g_tls_name g) (g_primitive g) (g_propq g)
           (g_bit_security g) (g_alg_idx g) (g_reverse_share g) = new" and "new \<noteq> Inl UB"
    and "oqsx_genkey L E C ok rc rq a (Some g) h = (r, h')"
  shows "r \<noteq> Inl UB \<and> (r = Inr a' \<longrightarrow> a' = a \<and> counted_keys h' (add_mset a H)) \<and>
    (r = Inl e \<longrightarrow> (case new of
        Inl _ \<Rightarrow> h' = h
      | Inr _ \<Rightarrow> (\<exists>k'. h' a = Some k' \<and> references k' = 1) \<and> \<not> counted_keys h' H))"
proof (cases new)
  case (Inl x)
  with assms(6-8) show ?thesis
    by (cases x) (auto simp: oqsx_genkey_def bindS_def st_simps)
next
  case (Inr k)
  note new = oqsx_key_new_wf [OF assms(6) [unfolded Inr]]
  obtain r1 k1 where g: "oqsx_key_gen L E ok rc rq k = (r1, k1)" by fastforce
  have "wf_key k" using new by blast
  from key_gen_inv [OF assms(3,4) assms(5) [OF assms(6) [unfolded Inr]] this, of ok rc rq] g
  have i: "r1 \<noteq> Inl UB" "wf_key k1" "same_key k k1" by simp_all
  have c0: "count H a = 0"
    using counted_keysD [OF assms(1), of a] assms(2) by (metis not_in_iff option.distinct(1))
  have r1: "references k1 = 1" using same_key_fields(10) [OF i(3)] new by simp
  then have cnt: "counted_keys (h(a \<mapsto> k1)) (add_mset a H)"
    by (intro counted_keys_upd [OF assms(1)]) (simp_all add: c0 i(2))
  have bad: "\<not> counted_keys (h(a \<mapsto> k1)) H"
    using c0 by (auto simp: counted_keys_def intro!: exI [of _ a])
  have "oqsx_genkey L E C ok rc rq a (Some g) h =
      (case r1 of Inl e \<Rightarrow> (Inl e, h(a \<mapsto> k1))
       | Inr ret \<Rightarrow> (if ret = 0 then Inr a else Inl (Raise UNEXPECTED_NULL), h(a \<mapsto> k1)))"
    using assms(6) Inr g
    by (auto simp: oqsx_genkey_def bindS_def st_simps thenS_def ensure_def split: sum.splits)
  with assms(8) have res: "h' = h(a \<mapsto> k1)"
      "r = (case r1 of Inl e \<Rightarrow> Inl e | Inr ret \<Rightarrow> if ret = 0 then Inr a else Inl (Raise UNEXPECTED_NULL))"
    by (auto split: sum.splits)
  show ?thesis
    using Inr i(1) r1 cnt bad unfolding res by (auto split: sum.splits if_splits)
qed

definition failing_liboqs :: liboqs where
  "failing_liboqs = sample_liboqs\<lparr>OQS_SIG_keypair := (\<lambda>_ _. None)\<rparr>"

definition sample_gen_ctx :: gen_ctx where
  "sample_gen_ctx = the (alg_gen_init True True True 0 SELECT_KEYPAIR (hd sig_ctors))"

lemma sample_genkey:
  "fst (oqsx_genkey failing_liboqs sample_openssl all_calls_ok (\<lambda>_. True) 0 0 5 (Some sample_gen_ctx) (\<lambda>_. None)) =
     Inl (Raise UNEXPECTED_NULL)"
  by code_simp

lemma genkey_ownership_witness:
  "snd (oqsx_genkey failing_liboqs sample_openssl all_calls_ok (\<lambda>_. True) 0 0 5 (Some sample_gen_ctx) (\<lambda>_. None)) 5
     \<noteq> None"
proof -
  let ?g = sample_gen_ctx
  let ?m = "oqsx_genkey failing_liboqs sample_openssl all_calls_ok (\<lambda>_. True) 0 0 5 (Some ?g) (\<lambda>_. None)"
  have c: "counted_keys (\<lambda>_. None) {#}" by (simp add: counted_keys_def)
  have l: "keypair_lengths (OQS_KEM_keypair failing_liboqs)" "keypair_lengths (OQS_SIG_keypair failing_liboqs)"
    using sample_lengths(1) by (simp_all add: failing_liboqs_def keypair_lengths_def)
  obtain k :: "sample_pkey oqsx_key" where n: "oqsx_key_new failing_liboqs all_calls_ok (\<lambda>_. True) (g_libctx ?g)
      (g_oqs_name ?g) (g_tls_name ?g) (g_primitive ?g) (g_propq ?g) (g_bit_security ?g) (g_alg_idx ?g)
      (g_reverse_share ?g) = Inr k" and e: "evp_info k = None"
    by (rule that [of "sample_plain_key KEY_TYPE_SIG ''mldsa44''"]) code_simp+
  have r: "?m = (Inl (Raise UNEXPECTED_NULL), snd ?m)" using sample_genkey by (metis prod.collapse)
  have "Inl (Raise UNEXPECTED_NULL) = (Inl (Raise UNEXPECTED_NULL) :: nat res) \<longrightarrow>
      (case Inr k :: sample_pkey oqsx_key res of Inl _ \<Rightarrow> snd ?m = (\<lambda>_. None)
       | Inr _ \<Rightarrow> (\<exists>k'. snd ?m 5 = Some k' \<and> references k' = 1) \<and> \<not> counted_keys (snd ?m) {#})"
    by (rule genkey_ownership [OF c refl l _ n _ r, THEN conjunct2, THEN conjunct2]) (use e n in auto)
  then show ?thesis by auto
qed

subsection \<open>The constructors and the NID table\<close>

text \<open>
  An algorithm is described twice: by the constructor that key management uses and by the table
  entry that decoding uses. The security levels differ for three names.
\<close>

definition level_differs :: "string list" where
  "level_differs = [''X25519MLKEM768'', ''SecP256r1MLKEM768'', ''SecP384r1MLKEM1024'']"

definition ctor_agrees :: "km_ctor \<Rightarrow> nid_entry \<Rightarrow> bool" where
  "ctor_agrees c e \<longleftrightarrow>
     kc_tls_name c = tlsname e \<and> kc_oqs_name c = oqsname e \<and> kc_keytype c = ne_keytype e \<and>
     kc_reverse c = reverseshare e \<and>
     (if tlsname e \<in> set level_differs then kc_bits c < secbits e else kc_bits c = secbits e)"

lemma kem_ctors_agree: "list_all2 ctor_agrees kem_ctors nid_names_kem"
  unfolding ctor_agrees_def [abs_def] by code_simp

lemma sig_ctors_agree: "list_all2 ctor_agrees sig_ctors nid_names_sig"
  unfolding ctor_agrees_def [abs_def] by code_simp

lemma ctor_alg_idx: "map kc_alg_idx sig_ctors = map int [0..<56]"
  by code_simp

text \<open>
  C30: The constructors of key management and the NID table describe the same algorithms in the
  same order, in both builds: names, liboqs algorithms, key types and share orders agree, and the
  security levels agree except for three hybrid KEMs, whose generated keys report less than the
  same keys after decoding. The algorithm indices of the signatures count from zero.
\<close>

theorem constructors_agree:
  "list_all2 ctor_agrees (km_ctors kem_encoders) (nid_names kem_encoders) \<and>
   map kc_alg_idx sig_ctors = map int [0..<length sig_ctors]"
proof -
  have "length sig_ctors = 56" using arg_cong [OF ctor_alg_idx, of length] by simp
  then show ?thesis
    using kem_ctors_agree sig_ctors_agree ctor_alg_idx
    by (simp add: km_ctors_def nid_names_def list_all2_appendI)
qed

end
