(* ===== verification/Sig.thy ===== *)
theory Sig
  imports Key_Codec Key_Heap
begin

text \<open>
  Signatures (\<^verbatim>\<open>oqs_sig.c\<close>): the signature context with the buffers it owns, its initialisation,
  the one-shot, streaming and message interfaces, hybrid signing and verification, duplication and
  release of a context. The buffers a context points to are blocks of a heap, so sharing and double
  release are visible; reading or releasing a block that is not allocated is undefined behaviour.
\<close>

subsection \<open>Parameters\<close>

text \<open>
  The conditions of the build: the two OpenSSL versions the preprocessor asks for and the static
  flag \<^verbatim>\<open>use_sign_verify_message_api\<close>, which \<^verbatim>\<open>oqs_sig_activate_message_api\<close> sets.
\<close>

record sig_build =
  prereq32 :: bool
  prereq34 :: bool
  use_sign_verify_message_api :: bool

text \<open>
  OpenSSL's digests and the outcomes of its set-up calls: \<open>'m\<close> stands for the state of an
  \<^verbatim>\<open>EVP_MD_CTX\<close>, a number for an \<^verbatim>\<open>EVP_MD\<close>. \<open>get_octets_ok\<close> is the outcome of
  \<^verbatim>\<open>OSSL_PARAM_get_octet_string\<close> called with a maximal length of 0, from whether its target pointer
  is set; \<open>malloc_ok n m\<close> that of the \<open>n\<close>-th allocation, of \<open>m\<close> bytes.
\<close>

record ('p, 'm) sig_env =
  build :: sig_build
  oqs :: liboqs
  evp :: "'p openssl"
  EVP_MD_fetch :: "string \<Rightarrow> bytes option \<Rightarrow> nat option"
  EVP_MD_nid_undef :: "nat \<Rightarrow> bool"
  EVP_DigestInit_ex :: "nat \<Rightarrow> 'm option"
  EVP_DigestUpdate :: "'m \<Rightarrow> bytes \<Rightarrow> 'm option"
  EVP_DigestFinal_ex :: "'m \<Rightarrow> (bytes \<times> 'm) option"
  EVP_MD_CTX_copy_ex :: "'m \<Rightarrow> 'm option"
  i2d_X509_ALGOR :: "string \<Rightarrow> bytes option"
  sign_init_ok :: "'p \<Rightarrow> bool"
  verify_init_ok :: "'p \<Rightarrow> bool"
  rsa_padding_ok :: "'p \<Rightarrow> bool"
  set_md_ok :: "'p \<Rightarrow> md_alg \<Rightarrow> bool"
  get_octets_ok :: "bool \<Rightarrow> bytes \<Rightarrow> bool"
  malloc_ok :: "nat \<Rightarrow> nat \<Rightarrow> bool"

subsection \<open>State\<close>

datatype sig_op = OP_UNDEFINED | OP_SIGN | OP_VERIFY | OP_SIGNMSG | OP_VERIFYMSG

record 'm sig_ctx =
  sc_libctx :: nat
  sc_propq :: "nat option"
  sig :: "nat option"
  flag_allow_md :: bool
  mdname :: string
  aid :: "nat option"
  aid_len :: nat
  signature :: "nat option"
  siglen :: nat
  md :: "nat option"
  mdctx :: "'m option"
  mdsize :: nat
  mddata :: "nat option"
  context_string :: "nat option"
  context_string_length :: nat
  operation :: sig_op

text \<open>The heap of keys, the heap of blocks with the number of the next block, and the context.\<close>

record ('p, 'm) sig_state =
  keys :: "'p kheap"
  blocks :: "nat \<Rightarrow> bytes option"
  next_block :: nat
  sctx :: "'m sig_ctx"

definition updC :: "('m sig_ctx \<Rightarrow> 'm sig_ctx) \<Rightarrow> (('p, 'm) sig_state, unit) st" where
  "updC f = modS (\<lambda>s. s\<lparr>sctx := f (sctx s)\<rparr>)"

text \<open>
  \<^verbatim>\<open>OPENSSL_malloc\<close> of \<open>n\<close> bytes, whose result is filled with \<open>d\<close>. It returns NULL for 0 bytes.
\<close>

definition mallocS :: "('p, 'm) sig_env \<Rightarrow> nat \<Rightarrow> bytes \<Rightarrow> (('p, 'm) sig_state, nat option) st" where
  "mallocS V n d = (\<lambda>s.
     if 0 < n \<and> malloc_ok V (next_block s) n
     then (Inr (Some (next_block s)),
           s\<lparr>blocks := (blocks s)(next_block s \<mapsto> d), next_block := next_block s + 1\<rparr>)
     else (Inr None, s\<lparr>next_block := next_block s + 1\<rparr>))"

definition OPENSSL_free :: "nat option \<Rightarrow> (('p, 'm) sig_state, unit) st" where
  "OPENSSL_free ptr = (case ptr of
       None \<Rightarrow> retS ()
     | Some a \<Rightarrow> (\<lambda>s. if blocks s a = None then (Inl UB, s)
                    else (Inr (), s\<lparr>blocks := (blocks s)(a := None)\<rparr>)))"

text \<open>The first \<open>n\<close> bytes at a pointer.\<close>

definition bytes_at :: "bytes option \<Rightarrow> nat \<Rightarrow> bytes res" where
  "bytes_at p n = (case p of None \<Rightarrow> if n = 0 then Inr [] else Inl UB | Some b \<Rightarrow> rd b 0 n)"

definition loadS :: "nat option \<Rightarrow> (('p, 'm) sig_state, bytes option) st" where
  "loadS ptr = (case ptr of
       None \<Rightarrow> retS None
     | Some a \<Rightarrow> readS (\<lambda>s. bindR (of_option UB (blocks s a)) (\<lambda>b. Inr (Some b))))"

definition keysS :: "('p kheap \<Rightarrow> 'p kheap res) \<Rightarrow> (('p, 'm) sig_state, unit) st" where
  "keysS f = bindS (readS (\<lambda>s. f (keys s))) (\<lambda>h. modS (\<lambda>s. s\<lparr>keys := h\<rparr>))"

text \<open>The key the context points to.\<close>

definition ctx_key :: "('p, 'm) sig_state \<Rightarrow> 'p oqsx_key res" where
  "ctx_key s = bindR (of_option UB (sig (sctx s))) (\<lambda>a. of_option UB (keys s a))"

subsection \<open>Creation and initialisation\<close>

definition zero_ctx :: "'m sig_ctx" where
  "zero_ctx = \<lparr>sc_libctx = 0, sc_propq = None, sig = None, flag_allow_md = False, mdname = [],
     aid = None, aid_len = 0, signature = None, siglen = 0, md = None, mdctx = None, mdsize = 0,
     mddata = None, context_string = None, context_string_length = 0, operation = OP_UNDEFINED\<rparr>"

text \<open>\<^verbatim>\<open>oqs_sig_newctx\<close>: the context becomes the state's; \<open>ok\<close> is the outcome of \<^verbatim>\<open>OPENSSL_zalloc\<close>.\<close>

definition oqs_sig_newctx ::
    "('p, 'm) sig_env \<Rightarrow> bool \<Rightarrow> nat \<Rightarrow> string option \<Rightarrow> (('p, 'm) sig_state, unit) st" where
  "oqs_sig_newctx V ok lc pq =
     thenS (ensureS ok Quiet)
     (thenS (updC (\<lambda>_. zero_ctx\<lparr>sc_libctx := lc\<rparr>))
     (case pq of
        None \<Rightarrow> retS ()
      | Some p \<Rightarrow> bindS (mallocS V (length (cstr p) + 1) (map of_char (cstr p))) (\<lambda>a.
          thenS (ensureS (a \<noteq> None) (Raise MALLOC_FAILURE)) (updC (\<lambda>c. c\<lparr>sc_propq := a\<rparr>)))))"

text \<open>
  \<^verbatim>\<open>get_aid\<close>, stored in the context: a failing \<^verbatim>\<open>i2d_X509_ALGOR\<close> returns -1, which becomes the
  largest \<^verbatim>\<open>size_t\<close>.
\<close>

definition get_aid :: "('p, 'm) sig_env \<Rightarrow> string \<Rightarrow> (('p, 'm) sig_state, unit) st" where
  "get_aid V name = (case i2d_X509_ALGOR V name of
       None \<Rightarrow> updC (\<lambda>c. c\<lparr>aid_len := 2 ^ 64 - 1\<rparr>)
     | Some d \<Rightarrow> bindS (mallocS V (length d) d) (\<lambda>a. case a of
           None \<Rightarrow> updC (\<lambda>c. c\<lparr>aid_len := 2 ^ 64 - 1\<rparr>)
         | Some _ \<Rightarrow> updC (\<lambda>c. c\<lparr>aid := a, aid_len := length d\<rparr>)))"

definition OSSL_MAX_NAME_SIZE :: nat where
  "OSSL_MAX_NAME_SIZE = 50"

definition oqs_sig_setup_md ::
    "('p, 'm) sig_env \<Rightarrow> string option \<Rightarrow> bytes option \<Rightarrow> (('p, 'm) sig_state, unit) st" where
  "oqs_sig_setup_md V name mdprops = (case name of
       None \<Rightarrow> retS ()
     | Some nm \<Rightarrow>
         bindS (getS sctx) (\<lambda>c0.
         bindS (if mdprops = None then loadS (sc_propq c0) else retS mdprops) (\<lambda>props.
         case EVP_MD_fetch V nm props of
           None \<Rightarrow> failS (Raise INVALID_DIGEST)
         | Some m \<Rightarrow>
             if EVP_MD_nid_undef V m then failS Quiet
             else
               thenS (updC (\<lambda>c. c\<lparr>mdctx := None, md := None\<rparr>))
               (thenS (OPENSSL_free (aid c0))
               (thenS (updC (\<lambda>c. c\<lparr>aid := None\<rparr>))
               (bindS (readS ctx_key) (\<lambda>k.
                thenS (get_aid V (tls_name k))
                (updC (\<lambda>c. c\<lparr>md := Some m, mdname := take (OSSL_MAX_NAME_SIZE - 1) nm\<rparr>)))))))))"

definition oqs_sig_signverify_init ::
    "nat option \<Rightarrow> sig_op \<Rightarrow> (('p, 'm) sig_state, unit) st" where
  "oqs_sig_signverify_init voqssig op = (case voqssig of
       None \<Rightarrow> failS Quiet
     | Some a \<Rightarrow>
         thenS (keysS (oqsx_key_up_ref a))
         (bindS (getS sctx) (\<lambda>c0.
          thenS (keysS (oqsx_key_free (sig c0)))
          (thenS (updC (\<lambda>c. c\<lparr>sig := Some a, operation := op, flag_allow_md := True\<rparr>))
          (bindS (readS ctx_key) (\<lambda>k.
           ensureS (\<not> (op = OP_SIGN \<and> privkey k = None \<or> op = OP_VERIFY \<and> pubkey k = None))
             (Raise INVALID_KEY)))))))"

definition oqs_sig_sign_init :: "nat option \<Rightarrow> (('p, 'm) sig_state, unit) st" where
  "oqs_sig_sign_init voqssig = oqs_sig_signverify_init voqssig OP_SIGN"

definition oqs_sig_verify_init :: "nat option \<Rightarrow> (('p, 'm) sig_state, unit) st" where
  "oqs_sig_verify_init voqssig = oqs_sig_signverify_init voqssig OP_VERIFY"

definition oqs_sig_sign_message_init :: "nat option \<Rightarrow> (('p, 'm) sig_state, unit) st" where
  "oqs_sig_sign_message_init voqssig = oqs_sig_signverify_init voqssig OP_SIGNMSG"

definition oqs_sig_verify_message_init :: "nat option \<Rightarrow> (('p, 'm) sig_state, unit) st" where
  "oqs_sig_verify_message_init voqssig = oqs_sig_signverify_init voqssig OP_VERIFYMSG"

subsection \<open>Signing\<close>

text \<open>The digest for the classical part, and whether the data is still to be hashed for it.\<close>

definition classical_md :: "nat \<Rightarrow> md_alg" where
  "classical_md level =
     (if level = 1 then MD_SHA256 else if level = 2 \<or> level = 3 then MD_SHA384 else MD_SHA512)"

definition hashes :: "sig_build \<Rightarrow> sig_op \<Rightarrow> sig_op \<Rightarrow> bool" where
  "hashes B msg_op op \<longleftrightarrow> \<not> prereq34 B \<or> op = msg_op \<or> \<not> use_sign_verify_message_api B"

definition classical_data :: "'p openssl \<Rightarrow> nat \<Rightarrow> bool \<Rightarrow> bytes \<Rightarrow> md_alg option \<times> bytes" where
  "classical_data E level hash tbs =
     (if hash then (Some (classical_md level), EVP_digest E (classical_md level) tbs) else (None, tbs))"

text \<open>\<^verbatim>\<open>EVP_PKEY_sign\<close> fails when the signature does not fit into the capacity it is given.\<close>

definition evp_sign :: "'p openssl \<Rightarrow> 'p \<Rightarrow> nat \<Rightarrow> md_alg option \<times> bytes \<Rightarrow> nat \<Rightarrow> bytes option" where
  "evp_sign E p seed d cap = (case EVP_PKEY_sign E p seed (fst d) (snd d) of
       None \<Rightarrow> None
     | Some s \<Rightarrow> if length s \<le> cap then Some s else None)"

text \<open>The classical part of a hybrid signature: header and signature, at the start of the buffer.\<close>

definition sign_classical ::
    "('p, 'm) sig_env \<Rightarrow> 'p oqsx_key \<Rightarrow> sig_op \<Rightarrow> nat \<Rightarrow> bytes \<Rightarrow> bytes \<Rightarrow> (bytes \<times> nat) res" where
  "sign_classical V k op seed buf tbs =
     bindR (of_option UB (evp_info k)) (\<lambda>i.
     bindR (of_option (Raise FATAL) (classical_pkey k)) (\<lambda>p.
     bindR (ensure (sign_init_ok V p) (Raise FATAL)) (\<lambda>_.
     bindR (ensure (ei_keytype i = EVP_PKEY_RSA \<longrightarrow> rsa_padding_ok V p) (Raise FATAL)) (\<lambda>_.
     let hash = hashes (build V) OP_SIGNMSG op;
         d = classical_data (evp V) (claimed_nist_level (qs k)) hash tbs in
     bindR (ensure (hash \<longrightarrow> set_md_ok V p (classical_md (claimed_nist_level (qs k)))) (Raise FATAL)) (\<lambda>_.
     bindR (of_option (Raise (if hash then FATAL else SIGNING_FAILED))
        (evp_sign (evp V) p seed d (length_signature i))) (\<lambda>s.
     bindR (wr buf SIZE_OF_UINT32 s) (\<lambda>buf.
     bindR (ensure (length s \<le> length_signature i) (Raise BUFFER_LENGTH_WRONG)) (\<lambda>_.
     bindR (wr buf 0 (enc32 (length s))) (\<lambda>buf.
     Inr (buf, SIZE_OF_UINT32 + length s))))))))))"

definition max_sig_len :: "'p oqsx_key \<Rightarrow> nat res" where
  "max_sig_len k =
     (if keytype k = KEY_TYPE_HYB_SIG
      then bindR (of_option UB (evp_info k)) (\<lambda>i.
        Inr (qs_length_signature (qs k) + (SIZE_OF_UINT32 + length_signature i)))
      else Inr (qs_length_signature (qs k)))"

text \<open>
  \<^verbatim>\<open>oqs_sig_sign_directly\<close> on the key and the context string of the context: the caller's buffer
  (\<open>None\<close> for NULL), the value of \<^verbatim>\<open>*siglen\<close>, and the data. The result is the buffer and \<^verbatim>\<open>*siglen\<close>
  afterwards. The post-quantum private key is the last component, and liboqs writes its signature
  behind the classical part without knowing how much room there is.
\<close>

definition sign_with ::
    "('p, 'm) sig_env \<Rightarrow> 'p oqsx_key \<Rightarrow> sig_op \<Rightarrow> bytes res \<Rightarrow> nat \<Rightarrow> nat \<Rightarrow> bytes option \<Rightarrow> nat
      \<Rightarrow> bytes option \<Rightarrow> nat \<Rightarrow> (bytes option \<times> nat) res" where
  "sign_with V k op cs rc rq buf n tbs tbslen =
     bindR (ensure (privkey k \<noteq> None) (Raise NO_PRIVATE_KEY)) (\<lambda>_.
     bindR (max_sig_len k) (\<lambda>maxlen.
     case buf of
       None \<Rightarrow> Inr (None, maxlen)
     | Some b \<Rightarrow>
         bindR (ensure (maxlen \<le> n) (Raise BUFFER_LENGTH_WRONG)) (\<lambda>_.
         bindR (bytes_at tbs tbslen) (\<lambda>d.
         bindR (if keytype k = KEY_TYPE_HYB_SIG then sign_classical V k op rc b d else Inr (b, 0)) (\<lambda>(b1, clen).
         bindR (read_comp (comp_privkey k) (numkeys k - 1) (privkey k) (qs_length_secret_key (qs k))) (\<lambda>sk.
         bindR cs (\<lambda>cs.
         bindR (of_option (Raise SIGNING_FAILED)
            (OQS_SIG_sign_with_ctx_str (oqs V) (qs k) rq d cs sk)) (\<lambda>s.
         bindR (wr b1 clen s) (\<lambda>b2. Inr (Some b2, clen + length s))))))))))"

definition context_bytes :: "('p, 'm) sig_state \<Rightarrow> bytes res" where
  "context_bytes s =
     bindR (case context_string (sctx s) of None \<Rightarrow> Inr None | Some a \<Rightarrow>
        bindR (of_option UB (blocks s a)) (\<lambda>b. Inr (Some b))) (\<lambda>p.
     bytes_at p (context_string_length (sctx s)))"

definition oqs_sig_sign_directly ::
    "('p, 'm) sig_env \<Rightarrow> nat \<Rightarrow> nat \<Rightarrow> bytes option \<Rightarrow> nat \<Rightarrow> bytes option \<Rightarrow> nat
      \<Rightarrow> (('p, 'm) sig_state, bytes option \<times> nat) st" where
  "oqs_sig_sign_directly V rc rq buf n tbs tbslen =
     bindS (readS ctx_key) (\<lambda>k.
     readS (\<lambda>s. sign_with V k (operation (sctx s)) (context_bytes s) rc rq buf n tbs tbslen))"

subsection \<open>Verification\<close>

text \<open>
  The lengths of the parts of a hybrid signature, in the widths of the code: \<^verbatim>\<open>siglen\<close> is a
  \<^verbatim>\<open>size_t\<close>, the decoded header and its sum with the header size are \<^verbatim>\<open>uint32_t\<close>.
\<close>

definition split_signature :: "bytes \<Rightarrow> 64 word \<Rightarrow> nat \<Rightarrow> nat \<Rightarrow> 32 word res" where
  "split_signature b n max_classical max_pq =
     (if n > of_nat SIZE_OF_UINT32 then
        bindR (rd b 0 SIZE_OF_UINT32) (\<lambda>h.
        let actual = DECODE_UINT32 h;
            actual_pq = n - of_nat SIZE_OF_UINT32 - ucast actual
        in if n \<le> ucast (of_nat SIZE_OF_UINT32 + actual) \<or> (ucast actual :: 64 word) > of_nat max_classical \<or>
              actual_pq > of_nat max_pq
           then Inl (Raise INVALID_ENCODING) else Inr actual)
      else Inl (Raise INVALID_ENCODING))"

definition verify_classical ::
    "('p, 'm) sig_env \<Rightarrow> 'p oqsx_key \<Rightarrow> sig_op \<Rightarrow> bytes \<Rightarrow> nat \<Rightarrow> bytes \<Rightarrow> nat res" where
  "verify_classical V k op b n tbs =
     bindR (key_evp_info k) (\<lambda>i0.
     bindR (of_option (Raise VERIFY_ERROR) (classical_pkey k)) (\<lambda>p.
     bindR (ensure (verify_init_ok V p) (Raise VERIFY_ERROR)) (\<lambda>_.
     bindR (of_option UB (evp_info k)) (\<lambda>i.
     bindR (ensure (ei_keytype i = EVP_PKEY_RSA \<longrightarrow> rsa_padding_ok V p) (Raise WRONG_PARAMETERS)) (\<lambda>_.
     bindR (split_signature b (of_nat n) (length_signature i0) (qs_length_signature (qs k))) (\<lambda>actual.
     let hash = hashes (build V) OP_VERIFYMSG op;
         d = classical_data (evp V) (claimed_nist_level (qs k)) hash tbs in
     bindR (ensure (hash \<longrightarrow> set_md_ok V p (classical_md (claimed_nist_level (qs k)))) (Raise VERIFY_ERROR)) (\<lambda>_.
     bindR (rd b SIZE_OF_UINT32 (unat actual)) (\<lambda>s.
     bindR (ensure (EVP_PKEY_verify (evp V) p (fst d) s (snd d)) (Raise VERIFY_ERROR)) (\<lambda>_.
     Inr (unat (of_nat SIZE_OF_UINT32 + actual)))))))))))"

definition verify_with ::
    "('p, 'm) sig_env \<Rightarrow> 'p oqsx_key \<Rightarrow> sig_op \<Rightarrow> bytes res \<Rightarrow> bytes option \<Rightarrow> nat \<Rightarrow> bytes option \<Rightarrow> nat
      \<Rightarrow> unit res" where
  "verify_with V k op cs sp n tbs tbslen =
     bindR (ensure (pubkey k \<noteq> None \<and> sp \<noteq> None \<and> \<not> (tbs = None \<and> tbslen > 0)) (Raise WRONG_PARAMETERS)) (\<lambda>_.
     bindR (of_option UB sp) (\<lambda>b.
     bindR (bytes_at tbs tbslen) (\<lambda>d.
     bindR (if keytype k = KEY_TYPE_HYB_SIG then verify_classical V k op b n d else Inr 0) (\<lambda>clen.
     bindR (if numkeys k - 1 < length (comp_pubkey k) then Inr (comp_pubkey k ! (numkeys k - 1)) else Inl UB) (\<lambda>ptr.
     bindR (ensure (ptr \<noteq> Null) (Raise WRONG_PARAMETERS)) (\<lambda>_.
     bindR (read_comp (comp_pubkey k) (numkeys k - 1) (pubkey k) (qs_length_public_key (qs k))) (\<lambda>pk.
     bindR (rd b clen (n - clen)) (\<lambda>s.
     bindR cs (\<lambda>cs.
     ensure (OQS_SIG_verify_with_ctx_str (oqs V) (qs k) d s cs pk) (Raise VERIFY_ERROR))))))))))"

definition oqs_sig_verify_directly ::
    "('p, 'm) sig_env \<Rightarrow> bytes option \<Rightarrow> nat \<Rightarrow> bytes option \<Rightarrow> nat \<Rightarrow> (('p, 'm) sig_state, unit) st" where
  "oqs_sig_verify_directly V sp n tbs tbslen =
     bindS (readS ctx_key) (\<lambda>k.
     readS (\<lambda>s. verify_with V k (operation (sctx s)) (context_bytes s) sp n tbs tbslen))"

subsection \<open>Parameters of a context\<close>

text \<open>
  The parameters the context understands, each \<open>None\<close> when the array does not hold it. The reader
  of an octet string allocates a block, of one byte for an empty string, when the target pointer
  is NULL, and otherwise copies into the block that is there.
\<close>

record sig_params =
  p_digest :: "string option"
  p_properties :: "bytes option"
  p_context_string :: "bytes option"
  p_signature :: "bytes option"

definition get_octet_string ::
    "('p, 'm) sig_env \<Rightarrow> nat option \<Rightarrow> bytes \<Rightarrow> (('p, 'm) sig_state, nat option) st" where
  "get_octet_string V ptr d =
     (if \<not> get_octets_ok V (ptr \<noteq> None) d then retS None
      else case ptr of
        None \<Rightarrow> mallocS V (max 1 (length d)) d
      | Some a \<Rightarrow>
          bindS (readS (\<lambda>s. bindR (of_option UB (blocks s a)) (\<lambda>b. wr b 0 d))) (\<lambda>b.
          thenS (modS (\<lambda>s. s\<lparr>blocks := (blocks s)(a \<mapsto> b)\<rparr>)) (retS (Some a))))"

definition set_digest ::
    "('p, 'm) sig_env \<Rightarrow> string option \<Rightarrow> bytes option \<Rightarrow> (('p, 'm) sig_state, unit) st" where
  "set_digest V name props = (case name of
       None \<Rightarrow> retS ()
     | Some nm \<Rightarrow>
         bindS (getS (\<lambda>s. flag_allow_md (sctx s))) (\<lambda>allowed.
         thenS (ensureS allowed Quiet)
         (thenS (ensureS (length nm < OSSL_MAX_NAME_SIZE) Quiet)
         (thenS (ensureS (case props of None \<Rightarrow> True | Some p \<Rightarrow> length p < 256) Quiet)
          (oqs_sig_setup_md V (Some nm) (Some (case props of None \<Rightarrow> [0] | Some p \<Rightarrow> p @ [0])))))))"

definition set_context_string ::
    "('p, 'm) sig_env \<Rightarrow> bytes option \<Rightarrow> (('p, 'm) sig_state, unit) st" where
  "set_context_string V p = (case p of
       None \<Rightarrow> retS ()
     | Some d \<Rightarrow>
         bindS (getS (\<lambda>s. context_string (sctx s))) (\<lambda>old.
         bindS (get_octet_string V old d) (\<lambda>r. case r of
           None \<Rightarrow> thenS (updC (\<lambda>c. c\<lparr>context_string_length := 0\<rparr>)) (failS Quiet)
         | Some a \<Rightarrow> updC (\<lambda>c. c\<lparr>context_string := Some a, context_string_length := length d\<rparr>))))"

definition set_signature :: "('p, 'm) sig_env \<Rightarrow> bytes option \<Rightarrow> (('p, 'm) sig_state, unit) st" where
  "set_signature V p = (case p of
       None \<Rightarrow> retS ()
     | Some d \<Rightarrow>
         bindS (getS (\<lambda>s. signature (sctx s))) (\<lambda>old.
         thenS (OPENSSL_free old)
         (thenS (updC (\<lambda>c. c\<lparr>signature := None, siglen := 0\<rparr>))
         (bindS (get_octet_string V None d) (\<lambda>r. case r of
           None \<Rightarrow> failS Quiet
         | Some a \<Rightarrow> updC (\<lambda>c. c\<lparr>signature := Some a, siglen := length d\<rparr>))))))"

definition oqs_sig_set_ctx_params ::
    "('p, 'm) sig_env \<Rightarrow> sig_params option \<Rightarrow> (('p, 'm) sig_state, unit) st" where
  "oqs_sig_set_ctx_params V params = (case params of
       None \<Rightarrow> failS Quiet
     | Some ps \<Rightarrow>
         thenS (set_digest V (p_digest ps) (p_properties ps))
         (thenS (if prereq32 (build V) then set_context_string V (p_context_string ps) else retS ())
         (bindS (getS (\<lambda>s. operation (sctx s))) (\<lambda>op.
          if prereq34 (build V) \<and> op = OP_VERIFYMSG then set_signature V (p_signature ps) else retS ()))))"

text \<open>What \<^verbatim>\<open>oqs_sig_get_ctx_params\<close> sets: the algorithm identifier and the digest name, if asked for.\<close>

definition oqs_sig_get_ctx_params ::
    "('p, 'm) sig_env \<Rightarrow> (bool \<times> bool) option \<Rightarrow> (('p, 'm) sig_state, bytes option \<times> string option) st" where
  "oqs_sig_get_ctx_params V wanted = (case wanted of
       None \<Rightarrow> failS Quiet
     | Some (want_aid, want_digest) \<Rightarrow>
         bindS (getS sctx) (\<lambda>c0.
         thenS (if aid c0 = None then bindS (readS ctx_key) (\<lambda>k. get_aid V (tls_name k)) else retS ())
         (bindS (getS sctx) (\<lambda>c.
          bindS (if want_aid
                 then bindS (loadS (aid c)) (\<lambda>p.
                      thenS (ensureS (p \<noteq> None) Quiet)
                      (bindS (liftS (bytes_at p (aid_len c))) (\<lambda>d. retS (Some d))))
                 else retS None) (\<lambda>a.
          retS (a, if want_digest then Some (mdname c) else None))))))"

definition known_gettable_ctx_params :: "string list" where
  "known_gettable_ctx_params = [''algorithm-id'', ''digest'']"

definition known_settable_ctx_params :: "sig_build \<Rightarrow> string list" where
  "known_settable_ctx_params B =
     [''digest'', ''properties''] @ (if prereq32 B then [''context-string''] else [])"

text \<open>The parameters of the digest are passed on to OpenSSL, when there is one.\<close>

definition oqs_sig_ctx_md_params :: "('m \<Rightarrow> 'a res) \<Rightarrow> (('p, 'm) sig_state, 'a) st" where
  "oqs_sig_ctx_md_params f = readS (\<lambda>s. case mdctx (sctx s) of None \<Rightarrow> Inl Quiet | Some m \<Rightarrow> f m)"

definition oqs_sig_table_ctx_md_params :: "(nat \<Rightarrow> 'a res) \<Rightarrow> (('p, 'm) sig_state, 'a) st" where
  "oqs_sig_table_ctx_md_params f = readS (\<lambda>s. case md (sctx s) of None \<Rightarrow> Inl Quiet | Some m \<Rightarrow> f m)"

subsection \<open>Collecting the data\<close>

text \<open>
  \<^verbatim>\<open>OPENSSL_realloc\<close> releases the old block when it succeeds and keeps it when it fails. A block is only
  there when a piece that was not empty has been collected, so its new size is never 0.
\<close>

definition oqs_sig_collect_data :: "('p, 'm) sig_env \<Rightarrow> bytes \<Rightarrow> (('p, 'm) sig_state, unit) st" where
  "oqs_sig_collect_data V d =
     bindS (getS sctx) (\<lambda>c. case mddata c of
       Some a \<Rightarrow>
         bindS (readS (\<lambda>s. bindR (of_option UB (blocks s a)) (\<lambda>b. rd b 0 (mdsize c)))) (\<lambda>b.
         bindS (mallocS V (length b + length d) (b @ d)) (\<lambda>r. case r of
           None \<Rightarrow> failS Quiet
         | Some a' \<Rightarrow> thenS (OPENSSL_free (Some a))
             (updC (\<lambda>c. c\<lparr>mddata := Some a', mdsize := mdsize c + length d\<rparr>))))
     | None \<Rightarrow>
         bindS (mallocS V (length d) d) (\<lambda>r. case r of
           None \<Rightarrow> failS Quiet
         | Some a' \<Rightarrow> updC (\<lambda>c. c\<lparr>mddata := Some a', mdsize := length d\<rparr>)))"

definition oqs_sig_digest_signverify_update ::
    "('p, 'm) sig_env \<Rightarrow> bytes \<Rightarrow> (('p, 'm) sig_state, unit) st" where
  "oqs_sig_digest_signverify_update V d =
     thenS (updC (\<lambda>c. c\<lparr>flag_allow_md := False\<rparr>))
     (bindS (getS sctx) (\<lambda>c. case mdctx c of
        Some m \<Rightarrow> bindS (liftS (of_option Quiet (EVP_DigestUpdate V m d))) (\<lambda>m'.
          updC (\<lambda>c. c\<lparr>mdctx := Some m'\<rparr>))
      | None \<Rightarrow> oqs_sig_collect_data V d))"

definition oqs_sig_signverify_message_update ::
    "('p, 'm) sig_env \<Rightarrow> bytes \<Rightarrow> (('p, 'm) sig_state, unit) st" where
  "oqs_sig_signverify_message_update V d = oqs_sig_collect_data V d"

subsection \<open>The streaming and the message interface\<close>

text \<open>Signing or verifying the collected data.\<close>

definition sign_collected ::
    "('p, 'm) sig_env \<Rightarrow> nat \<Rightarrow> nat \<Rightarrow> bytes option \<Rightarrow> nat \<Rightarrow> (('p, 'm) sig_state, bytes option \<times> nat) st" where
  "sign_collected V rc rq buf n =
     bindS (getS sctx) (\<lambda>c. bindS (loadS (mddata c)) (\<lambda>d.
     oqs_sig_sign_directly V rc rq buf n d (mdsize c)))"

definition verify_collected ::
    "('p, 'm) sig_env \<Rightarrow> bytes option \<Rightarrow> nat \<Rightarrow> (('p, 'm) sig_state, unit) st" where
  "verify_collected V sp n =
     bindS (getS sctx) (\<lambda>c. bindS (loadS (mddata c)) (\<lambda>d.
     oqs_sig_verify_directly V sp n d (mdsize c)))"

definition oqs_sig_sign_message_final ::
    "('p, 'm) sig_env \<Rightarrow> nat \<Rightarrow> nat \<Rightarrow> bytes option \<Rightarrow> nat \<Rightarrow> (('p, 'm) sig_state, bytes option \<times> nat) st" where
  "oqs_sig_sign_message_final V rc rq buf n = sign_collected V rc rq buf n"

definition oqs_sig_verify_message_final :: "('p, 'm) sig_env \<Rightarrow> (('p, 'm) sig_state, unit) st" where
  "oqs_sig_verify_message_final V =
     bindS (getS sctx) (\<lambda>c. bindS (loadS (signature c)) (\<lambda>sp. verify_collected V sp (siglen c)))"

text \<open>The digest goes into a buffer of \<^verbatim>\<open>EVP_MAX_MD_SIZE\<close> bytes.\<close>

definition EVP_MAX_MD_SIZE :: nat where
  "EVP_MAX_MD_SIZE = 64"

definition digest_final :: "('p, 'm) sig_env \<Rightarrow> 'm \<Rightarrow> (bytes \<times> 'm) res" where
  "digest_final V m =
     bindR (of_option Quiet (EVP_DigestFinal_ex V m)) (\<lambda>(dig, m').
     bindR (ensure (length dig \<le> EVP_MAX_MD_SIZE) UB) (\<lambda>_. Inr (dig, m')))"

text \<open>
  The digest is finished only when a signature is asked for; a size query on a context with a
  digest signs nothing, so the empty digest it passes on is not looked at.
\<close>

definition oqs_sig_digest_sign_final ::
    "('p, 'm) sig_env \<Rightarrow> nat \<Rightarrow> nat \<Rightarrow> bytes option \<Rightarrow> nat \<Rightarrow> (('p, 'm) sig_state, bytes option \<times> nat) st" where
  "oqs_sig_digest_sign_final V rc rq buf n =
     bindS (getS sctx) (\<lambda>c. case mdctx c of
       Some m \<Rightarrow>
         bindS (if buf \<noteq> None
                then bindS (liftS (digest_final V m)) (\<lambda>(dig, m').
                     thenS (updC (\<lambda>c. c\<lparr>mdctx := Some m'\<rparr>)) (retS dig))
                else retS []) (\<lambda>dig.
         thenS (updC (\<lambda>c. c\<lparr>flag_allow_md := True\<rparr>))
         (oqs_sig_sign_directly V rc rq buf n (Some dig) (length dig)))
     | None \<Rightarrow>
         thenS (updC (\<lambda>c. c\<lparr>flag_allow_md := True\<rparr>)) (sign_collected V rc rq buf n))"

definition oqs_sig_digest_verify_final ::
    "('p, 'm) sig_env \<Rightarrow> bytes option \<Rightarrow> nat \<Rightarrow> (('p, 'm) sig_state, unit) st" where
  "oqs_sig_digest_verify_final V sp n =
     bindS (getS sctx) (\<lambda>c. case mdctx c of
       Some m \<Rightarrow>
         bindS (liftS (digest_final V m)) (\<lambda>(dig, m').
         thenS (updC (\<lambda>c. c\<lparr>mdctx := Some m', flag_allow_md := True\<rparr>))
         (oqs_sig_verify_directly V sp n (Some dig) (length dig)))
     | None \<Rightarrow> verify_collected V sp n)"

definition oqs_sig_sign ::
    "('p, 'm) sig_env \<Rightarrow> nat \<Rightarrow> nat \<Rightarrow> bytes option \<Rightarrow> nat \<Rightarrow> bytes \<Rightarrow> (('p, 'm) sig_state, bytes option \<times> nat) st" where
  "oqs_sig_sign V rc rq buf n tbs =
     bindS (getS (\<lambda>s. operation (sctx s))) (\<lambda>op.
     if prereq34 (build V) \<and> op = OP_SIGNMSG then
       if buf = None then oqs_sig_sign_message_final V rc rq buf n
       else thenS (oqs_sig_signverify_message_update V tbs) (oqs_sig_sign_message_final V rc rq buf n)
     else oqs_sig_sign_directly V rc rq buf n (Some tbs) (length tbs))"

definition oqs_sig_verify_set_sig :: "('p, 'm) sig_env \<Rightarrow> bytes \<Rightarrow> (('p, 'm) sig_state, unit) st" where
  "oqs_sig_verify_set_sig V s = oqs_sig_set_ctx_params V
     (Some \<lparr>p_digest = None, p_properties = None, p_context_string = None, p_signature = Some s\<rparr>)"

definition oqs_sig_verify ::
    "('p, 'm) sig_env \<Rightarrow> bytes \<Rightarrow> bytes \<Rightarrow> (('p, 'm) sig_state, unit) st" where
  "oqs_sig_verify V s tbs =
     bindS (getS (\<lambda>s. operation (sctx s))) (\<lambda>op.
     if prereq34 (build V) \<and> op = OP_VERIFYMSG then
       thenS (oqs_sig_verify_set_sig V s)
       (thenS (oqs_sig_signverify_message_update V tbs) (oqs_sig_verify_message_final V))
     else oqs_sig_verify_directly V (Some s) (length s) (Some tbs) (length tbs))"

definition oqs_sig_digest_signverify_init ::
    "('p, 'm) sig_env \<Rightarrow> bool \<Rightarrow> string option \<Rightarrow> nat option \<Rightarrow> sig_op \<Rightarrow> (('p, 'm) sig_state, unit) st" where
  "oqs_sig_digest_signverify_init V new_ok name voqssig op =
     thenS (updC (\<lambda>c. c\<lparr>flag_allow_md := True\<rparr>))
     (thenS (oqs_sig_signverify_init voqssig op)
     (thenS (oqs_sig_setup_md V name None)
     (if name = None then retS ()
      else bindS (getS (\<lambda>s. Option.bind (md (sctx s)) (EVP_DigestInit_ex V))) (\<lambda>m.
        if new_ok \<and> m \<noteq> None then updC (\<lambda>c. c\<lparr>mdctx := m\<rparr>)
        else thenS (updC (\<lambda>c. c\<lparr>mdctx := None, md := None\<rparr>)) (failS Quiet)))))"

definition oqs_sig_digest_sign_init ::
    "('p, 'm) sig_env \<Rightarrow> bool \<Rightarrow> string option \<Rightarrow> nat option \<Rightarrow> (('p, 'm) sig_state, unit) st" where
  "oqs_sig_digest_sign_init V new_ok name voqssig =
     oqs_sig_digest_signverify_init V new_ok name voqssig (if prereq34 (build V) then OP_SIGNMSG else OP_SIGN)"

definition oqs_sig_digest_verify_init ::
    "('p, 'm) sig_env \<Rightarrow> bool \<Rightarrow> string option \<Rightarrow> nat option \<Rightarrow> (('p, 'm) sig_state, unit) st" where
  "oqs_sig_digest_verify_init V new_ok name voqssig =
     oqs_sig_digest_signverify_init V new_ok name voqssig (if prereq34 (build V) then OP_VERIFYMSG else OP_VERIFY)"

subsection \<open>Release and duplication\<close>

text \<open>\<^verbatim>\<open>oqs_sig_freectx\<close> on a context that is not the state's: only the heaps change.\<close>

definition free_ctx :: "sig_build \<Rightarrow> 'm sig_ctx \<Rightarrow> (('p, 'm) sig_state, unit) st" where
  "free_ctx B c =
     thenS (OPENSSL_free (sc_propq c))
     (thenS (keysS (oqsx_key_free (sig c)))
     (thenS (OPENSSL_free (mddata c))
     (thenS (OPENSSL_free (aid c))
     (thenS (OPENSSL_free (context_string c))
     (if prereq34 B then OPENSSL_free (signature c) else retS ())))))"

definition oqs_sig_freectx :: "sig_build \<Rightarrow> (('p, 'm) sig_state, unit) st" where
  "oqs_sig_freectx B = bindS (getS sctx) (free_ctx B)"

text \<open>
  \<^verbatim>\<open>OPENSSL_memdup\<close> and \<^verbatim>\<open>OPENSSL_strdup\<close> of a block of the source context, for \<^verbatim>\<open>oqs_sig_dupctx\<close>.
  The copy keeps the source's pointer when the allocation fails.
\<close>

definition dup_block ::
    "('p, 'm) sig_env \<Rightarrow> nat option \<Rightarrow> nat option \<Rightarrow> (('p, 'm) sig_state, nat option option) st" where
  "dup_block V ptr len = (case ptr of
       None \<Rightarrow> retS (Some None)
     | Some a \<Rightarrow>
         bindS (readS (\<lambda>s. bindR (of_option UB (blocks s a)) (\<lambda>b.
            case len of None \<Rightarrow> Inr b | Some n \<Rightarrow> rd b 0 n))) (\<lambda>d.
         bindS (mallocS V (case len of None \<Rightarrow> length d + 1 | Some n \<Rightarrow> n) d) (\<lambda>r. retS (case r of None \<Rightarrow> None | Some a' \<Rightarrow> Some (Some a')))))"

text \<open>
  \<^verbatim>\<open>oqs_sig_dupctx\<close>. The new context starts as a copy of the source, pointers included, without
  key and digest; \<open>dup_from\<close> replaces the pointers one after the other by copies. On the first
  failure the half-made copy is released, and the pointers it has not replaced yet with it.
\<close>

definition dup_fail ::
    "sig_build \<Rightarrow> 'm sig_ctx \<Rightarrow> (('p, 'm) sig_state, 'm sig_ctx option) st" where
  "dup_fail B d = thenS (free_ctx B d) (retS None)"

definition dup_blocks ::
    "('p, 'm) sig_env \<Rightarrow> 'm sig_ctx \<Rightarrow> 'm sig_ctx \<Rightarrow> (('p, 'm) sig_state, 'm sig_ctx option) st" where
  "dup_blocks V src d =
     bindS (dup_block V (mddata src) (Some (mdsize src))) (\<lambda>r. case r of
       None \<Rightarrow> dup_fail (build V) (d\<lparr>mddata := None\<rparr>)
     | Some a \<Rightarrow> let d = d\<lparr>mddata := a\<rparr> in
         bindS (dup_block V (aid src) (Some (aid_len src))) (\<lambda>r. case r of
           None \<Rightarrow> dup_fail (build V) (d\<lparr>aid := None\<rparr>)
         | Some a \<Rightarrow> let d = d\<lparr>aid := a\<rparr> in
             bindS (dup_block V (sc_propq src) None) (\<lambda>r. case r of
               None \<Rightarrow> dup_fail (build V) (d\<lparr>sc_propq := None\<rparr>)
             | Some a \<Rightarrow> let d = d\<lparr>sc_propq := a\<rparr> in
                 bindS (dup_block V (context_string src) (Some (context_string_length src))) (\<lambda>r. case r of
                   None \<Rightarrow> dup_fail (build V) (d\<lparr>context_string := None\<rparr>)
                 | Some a \<Rightarrow> retS (Some (d\<lparr>context_string := a\<rparr>))))))"

definition oqs_sig_dupctx ::
    "('p, 'm) sig_env \<Rightarrow> bool \<Rightarrow> bool \<Rightarrow> (('p, 'm) sig_state, 'm sig_ctx option) st" where
  "oqs_sig_dupctx V zalloc_ok md_ref_ok =
     bindS (getS sctx) (\<lambda>src.
     if \<not> zalloc_ok then retS None
     else
       let d = src\<lparr>sig := None, md := None, mdctx := None\<rparr> in
       thenS (case sig src of None \<Rightarrow> retS () | Some a \<Rightarrow> keysS (oqsx_key_up_ref a))
       (let d = d\<lparr>sig := sig src\<rparr> in
        if md src \<noteq> None \<and> \<not> md_ref_ok then dup_fail (build V) d
        else
          let d = d\<lparr>md := md src\<rparr> in
          case mdctx src of
            None \<Rightarrow> dup_blocks V src d
          | Some m \<Rightarrow> (case EVP_MD_CTX_copy_ex V m of
                None \<Rightarrow> dup_fail (build V) d
              | Some m' \<Rightarrow> dup_blocks V src (d\<lparr>mdctx := Some m'\<rparr>))))"

end
