(* ===== verification/Sig_Correct.thy ===== *)
theory Sig_Correct
  imports Sig
begin

text \<open>
  What signing and verification compute: the split of a hybrid signature in machine words against
  its specification in natural numbers, verification of what was signed, an exact characterisation
  of what verification accepts, and memory safety on arbitrary signatures.
\<close>

subsection \<open>The split of a hybrid signature\<close>

lemma slice_take: "o' + n \<le> m \<Longrightarrow> slice (take m b) o' n = slice b o' n"
  by (simp add: slice_def drop_take min_def)

lemma split_signature_iff:
  assumes n: "n \<le> length b" "n < 2 ^ 64" and mc: "mc + 4 < 2 ^ 32" and mp: "mp < 2 ^ 64"
  shows "split_signature b (of_nat n) mc mp =
    (if 4 < n \<and> dec32 (slice b 0 4) \<le> mc \<and> 4 + dec32 (slice b 0 4) < n \<and> n - (4 + dec32 (slice b 0 4)) \<le> mp
     then Inr (DECODE_UINT32 (slice b 0 4)) else Inl (Raise INVALID_ENCODING))"
proof (cases "4 < n")
  case False
  have "\<not> (of_nat 4 :: 64 word) < of_nat n"
    using False n(2) by (simp add: word_less_nat_alt unsigned_of_nat take_bit_nat_eq_self)
  with False show ?thesis by (simp add: split_signature_def)
next
  case True
  let ?a = "DECODE_UINT32 (slice b 0 4)"
  let ?m = "dec32 (slice b 0 4)"
  have a: "unat ?a = ?m" "?m < 2 ^ 32" by (simp add: dec32_def, rule dec32_bound)
  have four: "(of_nat 4 :: 64 word) < of_nat n"
    using True n(2) by (simp add: word_less_nat_alt unsigned_of_nat take_bit_nat_eq_self)
  have mc_iff: "(ucast ?a :: 64 word) > of_nat mc \<longleftrightarrow> \<not> ?m \<le> mc"
    using mc a by (simp add: word_less_nat_alt unsigned_of_nat take_bit_nat_eq_self unsigned_ucast_eq
        take_bit_nat_eq_self not_le)
  have sum: "unat (of_nat 4 + ?a) = 4 + ?m" if "?m \<le> mc"
  proof -
    have "of_nat 4 + ?a = of_nat (4 + ?m)" by (simp add: dec32_def)
    moreover have "unat (of_nat (4 + ?m) :: 32 word) = 4 + ?m"
      using that mc by (simp add: unsigned_of_nat take_bit_nat_eq_self del: of_nat_add)
    ultimately show ?thesis by (simp only:)
  qed
  have le_iff: "(of_nat n :: 64 word) \<le> ucast (of_nat 4 + ?a) \<longleftrightarrow> n \<le> 4 + ?m" if "?m \<le> mc"
    using that sum mc n(2)
    by (simp add: word_le_nat_alt unsigned_of_nat take_bit_nat_eq_self unsigned_ucast_eq)
  have pq_iff: "(of_nat n - of_nat 4 - ucast ?a :: 64 word) > of_nat mp \<longleftrightarrow> \<not> n - (4 + ?m) \<le> mp"
    if "4 + ?m < n"
  proof -
    have "(ucast ?a :: 64 word) = of_nat ?m" by (simp add: dec32_def)
    then have "(of_nat n - of_nat 4 - ucast ?a :: 64 word) = of_nat (n - (4 + ?m))"
      using that by (simp add: of_nat_diff algebra_simps)
    moreover have "n - (4 + ?m) < 2 ^ 64" using n(2) by simp
    ultimately show ?thesis
      using mp by (simp add: word_less_nat_alt unsigned_of_nat take_bit_nat_eq_self not_le)
  qed
  have rd4: "rd b 0 4 = Inr (slice b 0 4)" using True n(1) by (simp add: rd_ok)
  show ?thesis
  proof (cases "?m \<le> mc")
    case False
    with True four mc_iff show ?thesis by (simp add: split_signature_def Let_def rd4)
  next
    case m: True
    show ?thesis
    proof (cases "4 + ?m < n")
      case False
      with True m four le_iff show ?thesis by (simp add: split_signature_def Let_def rd4)
    next
      case l: True
      with True m four le_iff [OF m] mc_iff pq_iff [OF l] show ?thesis
        by (simp add: split_signature_def Let_def rd4)
    qed
  qed
qed

subsection \<open>What verification accepts\<close>

text \<open>A key of a signature algorithm that is ready to verify: its parts and the set-up calls.\<close>

definition sig_pub :: "'p oqsx_key \<Rightarrow> bytes \<Rightarrow> bool" where
  "sig_pub k pk \<longleftrightarrow> pubkey k \<noteq> None \<and>
     read_comp (comp_pubkey k) (numkeys k - 1) (pubkey k) (qs_length_public_key (qs k)) = Inr pk"

definition small_sizes :: "'p oqsx_key \<Rightarrow> bool" where
  "small_sizes k \<longleftrightarrow> qs_length_signature (qs k) < 2 ^ 32 \<and>
     (\<forall>i. evp_info k = Some i \<longrightarrow> length_signature i + 4 < 2 ^ 32)"

definition verify_ready :: "('p, 'm) sig_env \<Rightarrow> evp_info \<Rightarrow> 'p \<Rightarrow> bool" where
  "verify_ready V i p \<longleftrightarrow> verify_init_ok V p \<and> (ei_keytype i = EVP_PKEY_RSA \<longrightarrow> rsa_padding_ok V p) \<and>
     (\<forall>d. set_md_ok V p d)"

text \<open>The specification: both parts of the signature verify, at the place the header says.\<close>

definition hybrid_accepts ::
    "('p, 'm) sig_env \<Rightarrow> 'p oqsx_key \<Rightarrow> evp_info \<Rightarrow> 'p \<Rightarrow> sig_op \<Rightarrow> bytes \<Rightarrow> bytes \<Rightarrow> bytes \<Rightarrow> bytes \<Rightarrow> bool" where
  "hybrid_accepts V k i p op cs pk sg tbs \<longleftrightarrow>
     (\<exists>s1 s2. sg = enc32 (length s1) @ s1 @ s2 \<and> s2 \<noteq> [] \<and>
        length s1 \<le> length_signature i \<and> length s2 \<le> qs_length_signature (qs k) \<and>
        (let d = classical_data (evp V) (claimed_nist_level (qs k)) (hashes (build V) OP_VERIFYMSG op) tbs
         in EVP_PKEY_verify (evp V) p (fst d) s1 (snd d)) \<and>
        OQS_SIG_verify_with_ctx_str (oqs V) (qs k) tbs s2 cs pk)"

lemma ENCODE_DECODE_UINT32: "length h = 4 \<Longrightarrow> ENCODE_UINT32 (ucast (DECODE_UINT32 h)) = h"
proof -
  assume "length h = 4"
  then obtain b0 b1 b2 b3 where h: "h = [b0, b1, b2, b3]"
    by (auto simp: eval_nat_numeral length_Suc_conv)
  show ?thesis
    unfolding h ENCODE_UINT32_def DECODE_UINT32_def Let_def byte_mask_64
    unfolding list.inject by (intro conjI refl; rule bit_word_eqI; simp add: bit_simps; auto dest: bit_imp_le_length)
qed

lemma enc32_dec32: "length h = 4 \<Longrightarrow> enc32 (dec32 h) = h"
  by (simp add: enc32_def dec32_def ENCODE_DECODE_UINT32)

definition split_ok :: "bytes \<Rightarrow> nat \<Rightarrow> nat \<Rightarrow> bool" where
  "split_ok sg mc mp \<longleftrightarrow> (let m = dec32 (slice sg 0 4) in
     4 < length sg \<and> m \<le> mc \<and> 4 + m < length sg \<and> length sg - (4 + m) \<le> mp)"

lemma split_parts:
  assumes "split_ok sg mc mp"
  defines "m \<equiv> dec32 (slice sg 0 4)"
  shows "sg = enc32 m @ slice sg 4 m @ slice sg (4 + m) (length sg - (4 + m))"
    and "length (slice sg 4 m) = m" and "length (slice sg (4 + m) (length sg - (4 + m))) = length sg - (4 + m)"
    and "4 + m < length sg" "m \<le> mc" "length sg - (4 + m) \<le> mp"
proof -
  show l: "4 + m < length sg" "m \<le> mc" "length sg - (4 + m) \<le> mp"
    using assms by (simp_all add: split_ok_def Let_def)
  show "length (slice sg 4 m) = m" "length (slice sg (4 + m) (length sg - (4 + m))) = length sg - (4 + m)"
    using l(1) by simp_all
  have "sg = slice sg 0 (4 + m + (length sg - (4 + m)))" using l(1) by simp
  also have "\<dots> = slice sg 0 4 @ slice sg 4 m @ slice sg (4 + m) (length sg - (4 + m))"
    by (simp flip: slice_split)
  also have "slice sg 0 4 = enc32 m"
    using l(1) by (simp add: m_def enc32_dec32)
  finally show "sg = enc32 m @ slice sg 4 m @ slice sg (4 + m) (length sg - (4 + m))" .
qed

lemma parts_split:
  assumes "sg = enc32 (length s1) @ s1 @ s2" and "s2 \<noteq> []" and "length s1 \<le> mc" and "length s2 \<le> mp"
    and "mc < 2 ^ 32"
  shows "split_ok sg mc mp" and "dec32 (slice sg 0 4) = length s1"
    and "slice sg 4 (length s1) = s1" and "slice sg (4 + length s1) (length sg - (4 + length s1)) = s2"
proof -
  show d: "dec32 (slice sg 0 4) = length s1"
    using assms(3,5) by (simp add: assms(1) slice_append_whole dec32_enc32)
  show "split_ok sg mc mp"
    using assms(2-4) by (simp add: split_ok_def Let_def d) (simp add: assms(1))
  show "slice sg 4 (length s1) = s1" "slice sg (4 + length s1) (length sg - (4 + length s1)) = s2"
    by (simp_all add: assms(1) slice_append_right slice_append_whole slice_def)
qed

lemma sig_pub_ptr:
  assumes "sig_pub k pk"
  shows "numkeys k - 1 < length (comp_pubkey k)" "comp_pubkey k ! (numkeys k - 1) \<noteq> Null"
  using assms by (auto simp: sig_pub_def read_comp_def bindR_eq_Inr comp_at_def split: if_splits cptr.splits)

lemma verify_classical_eq:
  assumes "evp_info k = Some i" and "key_evp_info k = Inr i" and "classical_pkey k = Some p"
    and "small_sizes k" and "verify_ready V i p" and "length sg < 2 ^ 64"
    and d_def: "d = classical_data (evp V) (claimed_nist_level (qs k)) (hashes (build V) OP_VERIFYMSG op) tbs"
  defines "m \<equiv> dec32 (slice sg 0 4)"
  shows "verify_classical V k op sg (length sg) tbs =
    (if \<not> split_ok sg (length_signature i) (qs_length_signature (qs k)) then Inl (Raise INVALID_ENCODING)
     else if EVP_PKEY_verify (evp V) p (fst d) (slice sg 4 m) (snd d) then Inr (4 + m)
     else Inl (Raise VERIFY_ERROR))"
proof -
  have s: "length_signature i + 4 < 2 ^ 32" "qs_length_signature (qs k) < 2 ^ 64"
    using assms(1,4) by (auto simp: small_sizes_def)
  have split: "split_signature sg (of_nat (length sg)) (length_signature i) (qs_length_signature (qs k)) =
      (if split_ok sg (length_signature i) (qs_length_signature (qs k))
       then Inr (DECODE_UINT32 (slice sg 0 4)) else Inl (Raise INVALID_ENCODING))"
    using split_signature_iff [OF order_refl assms(6) s] by (simp add: split_ok_def Let_def)
  have u: "unat (DECODE_UINT32 (slice sg 0 4)) = m" by (simp add: m_def dec32_def)
  have u4: "unat (of_nat SIZE_OF_UINT32 + DECODE_UINT32 (slice sg 0 4)) = 4 + m" if "m \<le> length_signature i"
  proof -
    have "of_nat SIZE_OF_UINT32 + DECODE_UINT32 (slice sg 0 4) = of_nat (4 + m)" by (simp add: m_def dec32_def)
    moreover have "unat (of_nat (4 + m) :: 32 word) = 4 + m"
      using that s(1) by (simp add: unsigned_of_nat take_bit_nat_eq_self del: of_nat_add)
    ultimately show ?thesis by (simp only:)
  qed
  show ?thesis
  proof (cases "split_ok sg (length_signature i) (qs_length_signature (qs k))")
    case False
    with assms(1-3,5) split show ?thesis
      by (simp add: verify_classical_def verify_ready_def)
  next
    case True
    note p = split_parts [OF True, folded m_def]
    have r: "rd sg 4 m = Inr (slice sg 4 m)" using p(4) by (simp add: rd_ok)
    from True assms(1-3,5) split u u4 [OF p(5)] show ?thesis
      by (simp add: verify_classical_def verify_ready_def Let_def d_def [symmetric] r)
  qed
qed

lemma hybrid_verify:
  assumes "keytype k = KEY_TYPE_HYB_SIG" and "evp_info k = Some i" and "key_evp_info k = Inr i"
    and "classical_pkey k = Some p" and "sig_pub k pk" and "small_sizes k" and "verify_ready V i p"
    and "length sg < 2 ^ 64"
  shows "verify_with V k op (Inr cs) (Some sg) (length sg) (Some tbs) (length tbs) \<noteq> Inl UB"
    and "verify_with V k op (Inr cs) (Some sg) (length sg) (Some tbs) (length tbs) = Inr () \<longleftrightarrow>
      hybrid_accepts V k i p op cs pk sg tbs"
proof -
  let ?mc = "length_signature i" and ?mp = "qs_length_signature (qs k)"
  let ?m = "dec32 (slice sg 0 4)"
  let ?d = "classical_data (evp V) (claimed_nist_level (qs k)) (hashes (build V) OP_VERIFYMSG op) tbs"
  let ?s1 = "slice sg 4 ?m" and ?s2 = "slice sg (4 + ?m) (length sg - (4 + ?m))"
  let ?v = "verify_with V k op (Inr cs) (Some sg) (length sg) (Some tbs) (length tbs)"
  have v: "?v = (if split_ok sg ?mc ?mp \<and> EVP_PKEY_verify (evp V) p (fst ?d) ?s1 (snd ?d)
      then ensure (OQS_SIG_verify_with_ctx_str (oqs V) (qs k) tbs ?s2 cs pk) (Raise VERIFY_ERROR)
      else Inl (Raise (if split_ok sg ?mc ?mp then VERIFY_ERROR else INVALID_ENCODING)))"
    using assms(1,5) sig_pub_ptr [OF assms(5)] split_parts(4) [of sg ?mc ?mp]
      verify_classical_eq [OF assms(2-4,6-8) refl, of op tbs]
    by (auto simp: verify_with_def bytes_at_def slice_self sig_pub_def rd_ok)
  show "?v \<noteq> Inl UB" by (simp add: v)
  have "?mc < 2 ^ 32" using assms(2,6) by (auto simp: small_sizes_def)
  note ps = parts_split [OF _ _ _ _ this]
  show "?v = Inr () \<longleftrightarrow> hybrid_accepts V k i p op cs pk sg tbs"
  proof
    assume "?v = Inr ()"
    then have ok: "split_ok sg ?mc ?mp" "EVP_PKEY_verify (evp V) p (fst ?d) ?s1 (snd ?d)"
        "OQS_SIG_verify_with_ctx_str (oqs V) (qs k) tbs ?s2 cs pk"
      unfolding v by (auto split: if_splits)
    have "length ?s2 \<noteq> 0" using split_parts(3,4) [OF ok(1)] by linarith
    then have "?s2 \<noteq> []" by (metis list.size(3))
    with split_parts [OF ok(1)] ok(2,3) show "hybrid_accepts V k i p op cs pk sg tbs"
      unfolding hybrid_accepts_def Let_def by (intro exI [of _ ?s1] exI [of _ ?s2]) simp
  next
    assume "hybrid_accepts V k i p op cs pk sg tbs"
    then obtain s1 s2 where s: "sg = enc32 (length s1) @ s1 @ s2" "s2 \<noteq> []" "length s1 \<le> ?mc" "length s2 \<le> ?mp"
        "EVP_PKEY_verify (evp V) p (fst ?d) s1 (snd ?d)" "OQS_SIG_verify_with_ctx_str (oqs V) (qs k) tbs s2 cs pk"
      unfolding hybrid_accepts_def Let_def by blast
    from ps [OF s(1,2,3,4)] s(5,6) show "?v = Inr ()" unfolding v by simp
  qed
qed

subsection \<open>Memory safety and the exact outcome of verification\<close>

text \<open>
  C15: Hybrid verification reads nothing outside the signature, the key and the data, for every
  signature a caller can pass, and accepts exactly the encodings of two signatures that both
  verify: the header with the length of the classical signature, that signature, within the
  length of the table, and then a non-empty post-quantum signature within the algorithm's length.
\<close>

theorem verify_directly_exact:
  assumes "ctx_key s = Inr k" and "context_bytes s = Inr cs"
    and "keytype k = KEY_TYPE_HYB_SIG" and "wf_key k" and "evp_info k = Some i"
    and "classical_pkey k = Some p" and "sig_pub k pk" and "small_sizes k" and "verify_ready V i p"
    and "length sg < 2 ^ 64"
  shows "(fst (oqs_sig_verify_directly V (Some sg) (length sg) (Some tbs) (length tbs) s) = Inr () \<longleftrightarrow>
      hybrid_accepts V k i p (operation (sctx s)) cs pk sg tbs) \<and>
    fst (oqs_sig_verify_directly V (Some sg) (length sg) (Some tbs) (length tbs) s) \<noteq> Inl UB \<and>
    snd (oqs_sig_verify_directly V (Some sg) (length sg) (Some tbs) (length tbs) s) = s"
proof -
  have i: "key_evp_info k = Inr i"
    using assms(3-5) by (auto simp: wf_key_def wf_shape_def classic_info_ok_def is_hybrid_def key_evp_info_def)
  have v: "oqs_sig_verify_directly V (Some sg) (length sg) (Some tbs) (length tbs) s =
      (verify_with V k (operation (sctx s)) (Inr cs) (Some sg) (length sg) (Some tbs) (length tbs), s)"
    by (simp add: oqs_sig_verify_directly_def bindS_readS assms(1,2)) (simp add: readS_def assms(2))
  show ?thesis
    unfolding v using hybrid_verify [OF assms(3,5) i assms(6-10)] by simp
qed

subsection \<open>Verification of what was signed\<close>

lemma written_signature:
  assumes "4 + length s1 + length s2 \<le> length b" and "length h = 4"
  shows "take (4 + length s1 + length s2) (patch (patch (patch b 4 s1) 0 h) (4 + length s1) s2) = h @ s1 @ s2"
proof -
  have "take (4 + length s1) (patch (patch b 4 s1) 0 h) = h @ s1"
    using assms by (simp add: patch_def)
  moreover have "length (patch (patch b 4 s1) 0 h) = length b" using assms by simp
  moreover have "take (m + length s2) (patch x m s2) = take m x @ s2" if "m + length s2 \<le> length x" for m x
    using that by (simp add: patch_def)
  ultimately show ?thesis using assms(1) by simp
qed

lemma sign_hybrid_parts:
  assumes "sign_with V k op (Inr cs) rc rq (Some b) n (Some tbs) (length tbs) = Inr (r, m)"
    and "keytype k = KEY_TYPE_HYB_SIG" and "evp_info k = Some i" and "n \<le> length b"
  obtains p s1 s2 sk b' where "classical_pkey k = Some p" "r = Some b'" "m \<le> length b" "length b' = length b"
    and "m = 4 + length s1 + length s2" "take m b' = enc32 (length s1) @ s1 @ s2"
    and "length s1 \<le> length_signature i"
    and "EVP_PKEY_sign (evp V) p rc (fst (classical_data (evp V) (claimed_nist_level (qs k))
       (hashes (build V) OP_SIGNMSG op) tbs)) (snd (classical_data (evp V) (claimed_nist_level (qs k))
       (hashes (build V) OP_SIGNMSG op) tbs)) = Some s1"
    and "OQS_SIG_sign_with_ctx_str (oqs V) (qs k) rq tbs cs sk = Some s2"
    and "read_comp (comp_privkey k) (numkeys k - 1) (privkey k) (qs_length_secret_key (qs k)) = Inr sk"
proof -
  let ?d = "classical_data (evp V) (claimed_nist_level (qs k)) (hashes (build V) OP_SIGNMSG op) tbs"
  from assms(1-3) obtain b1 clen sk s2 where n: "qs_length_signature (qs k) + (4 + length_signature i) \<le> n"
    and c: "sign_classical V k op rc b tbs = Inr (b1, clen)"
    and sk: "read_comp (comp_privkey k) (numkeys k - 1) (privkey k) (qs_length_secret_key (qs k)) = Inr sk"
    and s2: "OQS_SIG_sign_with_ctx_str (oqs V) (qs k) rq tbs cs sk = Some s2"
    and r: "r = Some (patch b1 clen s2)" "m = clen + length s2" "clen + length s2 \<le> length b1"
    by (auto simp: sign_with_def bindR_eq_Inr max_sig_len_def bytes_at_def slice_self)
  from c assms(3) obtain p s1 where p: "classical_pkey k = Some p"
    and s1: "evp_sign (evp V) p rc ?d (length_signature i) = Some s1"
    and b1: "b1 = patch (patch b 4 s1) 0 (enc32 (length s1))" "4 + length s1 \<le> length b"
    and clen: "clen = 4 + length s1"
    by (auto simp: sign_classical_def bindR_eq_Inr Let_def)
  have s1': "length s1 \<le> length_signature i" "EVP_PKEY_sign (evp V) p rc (fst ?d) (snd ?d) = Some s1"
    using s1 by (auto simp: evp_sign_def split: option.splits if_splits)
  let ?b = "patch b1 clen s2"
  have fit: "4 + length s1 + length s2 \<le> length b"
    using r(3) b1 clen by (simp add: patch_def)
  have "take m ?b = enc32 (length s1) @ s1 @ s2"
    unfolding r(2) clen b1(1) by (rule written_signature) (use fit in simp_all)
  moreover have "length ?b = length b"
    using fit by (simp add: b1(1) clen)
  ultimately show thesis
    using that [OF p r(1) _ _ _ _ s1' s2 sk] fit r(2) clen by simp
qed

text \<open>The documented correctness of the two signature algorithms, for a pair of keys.\<close>

definition pq_sig_correct :: "liboqs \<Rightarrow> qs_ctx \<Rightarrow> bytes \<Rightarrow> bytes \<Rightarrow> bool" where
  "pq_sig_correct L c sk pk \<longleftrightarrow> (\<forall>r m cs s. OQS_SIG_sign_with_ctx_str L c r m cs sk = Some s \<longrightarrow>
     s \<noteq> [] \<and> length s \<le> qs_length_signature c \<and> OQS_SIG_verify_with_ctx_str L c m s cs pk)"

definition classical_sig_correct :: "'p openssl \<Rightarrow> 'p \<Rightarrow> 'p \<Rightarrow> bool" where
  "classical_sig_correct E p q \<longleftrightarrow> (\<forall>r d m s. EVP_PKEY_sign E p r d m = Some s \<longrightarrow> EVP_PKEY_verify E q d s m)"

definition priv_part :: "'p oqsx_key \<Rightarrow> bytes \<Rightarrow> bool" where
  "priv_part k sk \<longleftrightarrow>
     read_comp (comp_privkey k) (numkeys k - 1) (privkey k) (qs_length_secret_key (qs k)) = Inr sk"

text \<open>
  C16: What one context signs, another verifies: if hybrid signing succeeds and returns \<open>m\<close> bytes,
  then verifying these bytes for the same data succeeds in every context that holds the matching
  public key, has the same context string and agrees on whether the data is hashed for the
  classical part. Two contexts of the same build agree when one signs and the other verifies in
  the same mode.
\<close>

theorem sign_verify_round_trip:
  assumes "ctx_key s = Inr k" and "ctx_key s' = Inr k'"
    and "context_bytes s = Inr cs" and "context_bytes s' = Inr cs"
    and "hashes (build V) OP_SIGNMSG (operation (sctx s)) = hashes (build V) OP_VERIFYMSG (operation (sctx s'))"
    and "keytype k = KEY_TYPE_HYB_SIG" and "keytype k' = KEY_TYPE_HYB_SIG" and "qs k' = qs k"
    and "evp_info k = Some i" and "evp_info k' = Some i" and "wf_key k'"
    and "classical_pkey k = Some p" and "classical_pkey k' = Some p'" and "classical_sig_correct (evp V) p p'"
    and "priv_part k sk" and "sig_pub k' pk" and "pq_sig_correct (oqs V) (qs k) sk pk"
    and "small_sizes k'" and "verify_ready V i p'"
    and "n \<le> length b"
    and "oqs_sig_sign_directly V rc rq (Some b) n (Some tbs) (length tbs) s = (Inr (Some b', m), s1)"
  shows "m \<le> length b' \<and> length b' = length b \<and> s1 = s \<and>
    oqs_sig_verify_directly V (Some (take m b')) m (Some tbs) (length tbs) s' = (Inr (), s')"
proof -
  let ?op = "operation (sctx s)" and ?op' = "operation (sctx s')"
  have i: "key_evp_info k' = Inr i"
    using assms(7,10,11) by (auto simp: wf_key_def wf_shape_def classic_info_ok_def is_hybrid_def key_evp_info_def)
  have sw: "sign_with V k ?op (Inr cs) rc rq (Some b) n (Some tbs) (length tbs) = Inr (Some b', m)" "s1 = s"
    using assms(21) by (auto simp: oqs_sig_sign_directly_def bindS_readS assms(1,3)) (auto simp: readS_def assms(3))
  obtain q s2 s3 sk' where sg: "classical_pkey k = Some q" "m \<le> length b" "length b' = length b"
      "m = 4 + length s2 + length s3" "take m b' = enc32 (length s2) @ s2 @ s3" "length s2 \<le> length_signature i"
      "EVP_PKEY_sign (evp V) q rc (fst (classical_data (evp V) (claimed_nist_level (qs k))
         (hashes (build V) OP_SIGNMSG ?op) tbs)) (snd (classical_data (evp V) (claimed_nist_level (qs k))
         (hashes (build V) OP_SIGNMSG ?op) tbs)) = Some s2"
      "OQS_SIG_sign_with_ctx_str (oqs V) (qs k) rq tbs cs sk' = Some s3"
      "read_comp (comp_privkey k) (numkeys k - 1) (privkey k) (qs_length_secret_key (qs k)) = Inr sk'"
    using sign_hybrid_parts [OF sw(1) assms(6,9,20)] by (metis option.inject)
  have "q = p" "sk' = sk" using sg(1,9) assms(12,15) by (simp_all add: priv_part_def)
  with sg(7,8) assms(14,17) have ok: "s3 \<noteq> []" "length s3 \<le> qs_length_signature (qs k)"
      "OQS_SIG_verify_with_ctx_str (oqs V) (qs k) tbs s3 cs pk"
      "EVP_PKEY_verify (evp V) p' (fst (classical_data (evp V) (claimed_nist_level (qs k))
         (hashes (build V) OP_VERIFYMSG ?op') tbs)) s2 (snd (classical_data (evp V) (claimed_nist_level (qs k))
         (hashes (build V) OP_VERIFYMSG ?op') tbs))"
    by (auto simp: pq_sig_correct_def classical_sig_correct_def assms(5))
  have acc: "hybrid_accepts V k' i p' ?op' cs pk (take m b') tbs"
    unfolding hybrid_accepts_def Let_def assms(8) by (intro exI [of _ s2] exI [of _ s3]) (use sg(5,6) ok in simp)
  have lm: "length (take m b') = m" using sg(2,3) by simp
  have "length_signature i < 2 ^ 32" "qs_length_signature (qs k) < 2 ^ 32"
    using assms(8,10,18) by (auto simp: small_sizes_def)
  then have small: "length (take m b') < 2 ^ 64" using sg(4,6) ok(2) lm by simp
  from hybrid_verify(2) [OF assms(7,10) i assms(13,16,18,19) small, of ?op' cs tbs, unfolded lm] acc
  have "verify_with V k' ?op' (Inr cs) (Some (take m b')) m (Some tbs) (length tbs) = Inr ()"
    by blast
  then show ?thesis
    using sg(2,3) sw(2)
    by (simp add: oqs_sig_verify_directly_def bindS_readS assms(2,4)) (simp add: readS_def assms(4))
qed

subsection \<open>Collected data\<close>

text \<open>
  The data collected so far, in a block of its own; no block is allocated for no data. What signing and verification look at in a
  state are the key, the context string and the operation: the view.
\<close>

definition collected :: "('p, 'm) sig_state \<Rightarrow> bytes \<Rightarrow> bool" where
  "collected s d \<longleftrightarrow>
     (case mddata (sctx s) of
        None \<Rightarrow> d = [] \<and> mdsize (sctx s) = 0
      | Some a \<Rightarrow> d \<noteq> [] \<and> blocks s a = Some d \<and> mdsize (sctx s) = length d \<and> a < next_block s) \<and>
     (\<forall>a. context_string (sctx s) = Some a \<longrightarrow> a < next_block s \<and> mddata (sctx s) \<noteq> Some a)"

definition view :: "('p, 'm) sig_state \<Rightarrow> 'p oqsx_key res \<times> bytes res \<times> sig_op" where
  "view s = (ctx_key s, context_bytes s, operation (sctx s))"

lemma sign_directly_view:
  assumes "view s' = view s" and "bytes_at tbs' l' = bytes_at tbs l"
  shows "oqs_sig_sign_directly V rc rq buf n tbs' l' s' = (fst (oqs_sig_sign_directly V rc rq buf n tbs l s), s')"
proof -
  have e: "ctx_key s' = ctx_key s" "context_bytes s' = context_bytes s" "operation (sctx s') = operation (sctx s)"
    using assms(1) by (simp_all add: view_def)
  have "sign_with V k op cs rc rq buf n tbs' l' = sign_with V k op cs rc rq buf n tbs l" for k op cs
    unfolding sign_with_def assms(2) ..
  then show ?thesis
    by (cases "ctx_key s") (simp_all add: oqs_sig_sign_directly_def bindS_def readS_def e)
qed

lemma verify_directly_view:
  assumes "view s' = view s" and "bytes_at tbs' l' = bytes_at tbs l"
    and "tbs' = None \<and> l' > 0 \<longleftrightarrow> tbs = None \<and> l > 0"
  shows "oqs_sig_verify_directly V sp n tbs' l' s' = (fst (oqs_sig_verify_directly V sp n tbs l s), s')"
proof -
  have e: "ctx_key s' = ctx_key s" "context_bytes s' = context_bytes s" "operation (sctx s') = operation (sctx s)"
    using assms(1) by (simp_all add: view_def)
  have "verify_with V k op cs sp n tbs' l' = verify_with V k op cs sp n tbs l" for k op cs
    unfolding verify_with_def assms(2,3) ..
  then show ?thesis
    by (cases "ctx_key s") (simp_all add: oqs_sig_verify_directly_def bindS_def readS_def e)
qed

lemma collect_data_ok:
  assumes "collected s d" and "\<And>i n. 0 < n \<Longrightarrow> malloc_ok V i n" and "d @ e \<noteq> []"
  shows "\<exists>s'. oqs_sig_collect_data V e s = (Inr (), s') \<and> collected s' (d @ e) \<and> view s' = view s \<and>
    mdctx (sctx s') = mdctx (sctx s) \<and> signature (sctx s') = signature (sctx s)"
proof (cases "mddata (sctx s)")
  case None
  with assms show ?thesis
    by (auto simp: oqs_sig_collect_data_def st_simps bindS_def mallocS_def updC_def collected_def view_def
        ctx_key_def context_bytes_def split: option.splits)
next
  case (Some a)
  with assms show ?thesis
    by (auto simp: oqs_sig_collect_data_def st_simps bindS_def thenS_def mallocS_def updC_def collected_def view_def
        OPENSSL_free_def readS_def rd_ok slice_self ctx_key_def context_bytes_def split: option.splits)
qed

text \<open>An empty first piece needs an allocation of no bytes, which fails.\<close>

lemma collect_data_empty:
  assumes "collected s []"
  shows "\<exists>s'. oqs_sig_collect_data V [] s = (Inl Quiet, s') \<and> collected s' [] \<and> view s' = view s"
  using assms
  by (auto simp: oqs_sig_collect_data_def st_simps bindS_def mallocS_def collected_def view_def
      ctx_key_def context_bytes_def split: option.splits)

lemma sign_collected_eq:
  assumes "collected s' d" and "view s' = view s"
  shows "sign_collected V rc rq buf n s' =
    (fst (oqs_sig_sign_directly V rc rq buf n (Some d) (length d) s), s')"
proof (cases "mddata (sctx s')")
  case None
  with assms(1) have "d = []" "mdsize (sctx s') = 0" by (simp_all add: collected_def)
  with None sign_directly_view [OF assms(2), of None 0 "Some d" "length d"] show ?thesis
    by (simp add: sign_collected_def st_simps loadS_def bytes_at_def rd_def)
next
  case (Some a)
  with assms(1) have "blocks s' a = Some d" "mdsize (sctx s') = length d" by (simp_all add: collected_def)
  with Some sign_directly_view [OF assms(2) refl, of V rc rq buf n "Some d" "length d"] show ?thesis
    by (simp add: sign_collected_def st_simps loadS_def bindS_readS)
qed

definition message_updates :: "('p, 'm) sig_env \<Rightarrow> bytes list \<Rightarrow> (('p, 'm) sig_state, unit) st" where
  "message_updates V ds = foldr (\<lambda>d m. thenS (oqs_sig_signverify_message_update V d) m) ds (retS ())"

lemma message_updates_ok:
  assumes "\<And>i n. 0 < n \<Longrightarrow> malloc_ok V i n"
  shows "collected s d \<Longrightarrow> d @ hd (ds @ [[0]]) \<noteq> [] \<Longrightarrow>
    \<exists>s'. message_updates V ds s = (Inr (), s') \<and> collected s' (d @ concat ds) \<and> view s' = view s"
proof (induction ds arbitrary: s d)
  case Nil
  then show ?case by (simp add: message_updates_def st_simps)
next
  case (Cons e ds)
  from Cons.prems(2) have ne: "d @ e \<noteq> []" by simp
  from collect_data_ok [OF Cons.prems(1) assms ne] obtain s1 where s1:
    "oqs_sig_collect_data V e s = (Inr (), s1)" "collected s1 (d @ e)" "view s1 = view s" by blast
  from Cons.IH [OF s1(2)] ne s1 show ?case
    by (auto simp: message_updates_def oqs_sig_signverify_message_update_def thenS_Inr)
qed

text \<open>
  C19: Streaming equals one-shot, but for an empty first piece: on a context that has collected nothing,
  feeding a message in any pieces of which the first is not empty, and then finishing, returns what
  signing their concatenation directly returns, size queries and errors included. When the first
  piece is empty, the update reports a failure, although nothing is wrong: \<^verbatim>\<open>OPENSSL_malloc(0)\<close> is NULL.
  The context then still holds nothing and can be fed again.
\<close>

theorem message_stream:
  assumes "collected s []" and "\<And>i n. 0 < n \<Longrightarrow> malloc_ok V i n"
  shows "\<exists>s'. if take 1 ds = [[]]
    then message_updates V ds s = (Inl Quiet, s') \<and> collected s' [] \<and> view s' = view s
    else message_updates V ds s = (Inr (), s') \<and>
      oqs_sig_sign_message_final V rc rq buf n s' =
        (fst (oqs_sig_sign_directly V rc rq buf n (Some (concat ds)) (length (concat ds)) s), s')"
proof (cases "take 1 ds = [[]]")
  case True
  then obtain es where "ds = [] # es" by (cases ds) auto
  with True collect_data_empty [OF assms(1), of V] show ?thesis
    by (auto simp: message_updates_def oqs_sig_signverify_message_update_def thenS_Inl)
next
  case False
  then have "[] @ hd (ds @ [[0]]) \<noteq> []" by (cases ds) auto
  from message_updates_ok [OF assms(2,1) this] False sign_collected_eq show ?thesis
    by (fastforce simp: oqs_sig_sign_message_final_def)
qed

text \<open>
  C20: Finishing a message does not reset the collected data: on a context initialised for message
  signing, the second call of \<^verbatim>\<open>oqs_sig_sign\<close> signs the concatenation of both messages, not the
  message it is given. A call on a context that holds nothing fails for the empty message.
\<close>

theorem second_message:
  assumes "collected s []" and "\<And>i n. 0 < n \<Longrightarrow> malloc_ok V i n"
    and "prereq34 (build V)" and "operation (sctx s) = OP_SIGNMSG"
    and "oqs_sig_sign V rc rq (Some b) n m1 s = (r1, s1)"
  shows "r1 = (if m1 = [] then Inl Quiet
      else fst (oqs_sig_sign_directly V rc rq (Some b) n (Some m1) (length m1) s)) \<and>
    fst (oqs_sig_sign V rc' rq' (Some b') n' m2 s1) = (if m1 @ m2 = [] then Inl Quiet
      else fst (oqs_sig_sign_directly V rc' rq' (Some b') n' (Some (m1 @ m2)) (length (m1 @ m2)) s))"
proof -
  have step: "\<exists>s2. oqs_sig_sign V rc rq (Some b) n m s' = (if d @ m = [] then Inl Quiet
        else fst (oqs_sig_sign_directly V rc rq (Some b) n (Some (d @ m)) (length (d @ m)) s), s2) \<and>
      collected s2 (d @ m) \<and> view s2 = view s"
    if s': "collected s' d" "view s' = view s" for s' d m rc rq b n
  proof -
    have op: "operation (sctx s') = OP_SIGNMSG" using s'(2) assms(4) by (simp add: view_def)
    show ?thesis
    proof (cases "d @ m = []")
      case True
      with collect_data_empty [of s' V] s' op assms(3) show ?thesis
        by (auto simp: oqs_sig_sign_def st_simps oqs_sig_signverify_message_update_def thenS_Inl)
    next
      case False
      from collect_data_ok [OF s'(1) assms(2) False] obtain s2 where s2:
        "oqs_sig_collect_data V m s' = (Inr (), s2)" "collected s2 (d @ m)" "view s2 = view s'" by blast
      with s' op False sign_collected_eq [OF s2(2), of s V rc rq "Some b" n] assms(3) show ?thesis
        by (auto simp: oqs_sig_sign_def st_simps oqs_sig_signverify_message_update_def thenS_Inr
            oqs_sig_sign_message_final_def)
    qed
  qed
  from step [OF assms(1) refl, of rc rq b n m1] assms(5)
  have s1: "r1 = (if m1 = [] then Inl Quiet
      else fst (oqs_sig_sign_directly V rc rq (Some b) n (Some m1) (length m1) s))"
      "collected s1 m1" "view s1 = view s"
    by auto
  from step [OF s1(2,3), of rc' rq' b' n' m2] s1(1) show ?thesis by auto
qed

subsection \<open>Witnesses\<close>

text \<open>An environment whose digests collect their input, and contexts on one hybrid key.\<close>

definition sample_sig_env :: "(sample_pkey, bytes) sig_env" where
  "sample_sig_env = \<lparr>build = \<lparr>prereq32 = True, prereq34 = True, use_sign_verify_message_api = False\<rparr>,
     oqs = sample_liboqs, evp = sample_openssl,
     EVP_MD_fetch = (\<lambda>_ _. Some 0), EVP_MD_nid_undef = (\<lambda>_. False), EVP_DigestInit_ex = (\<lambda>_. Some []),
     EVP_DigestUpdate = (\<lambda>m d. Some (m @ d)), EVP_DigestFinal_ex = (\<lambda>m. Some ([sum_list m], m)),
     EVP_MD_CTX_copy_ex = Some, i2d_X509_ALGOR = (\<lambda>_. Some [1, 2]),
     sign_init_ok = (\<lambda>_. True), verify_init_ok = (\<lambda>_. True), rsa_padding_ok = (\<lambda>_. True),
     set_md_ok = (\<lambda>_ _. True), get_octets_ok = (\<lambda>_ _. True), malloc_ok = (\<lambda>_ _. True)\<rparr>"

definition sample_sig_state :: "sig_op \<Rightarrow> (sample_pkey, bytes) sig_state" where
  "sample_sig_state op = \<lparr>keys = [0 \<mapsto> mldsa_full], blocks = (\<lambda>_. None), next_block = 0,
     sctx = zero_ctx\<lparr>sig := Some 0, operation := op\<rparr>\<rparr>"

lemma sample_sig_fields [simp]:
  "ctx_key (sample_sig_state op) = Inr mldsa_full" "context_bytes (sample_sig_state op) = Inr []"
  "operation (sctx (sample_sig_state op)) = op" "collected (sample_sig_state op) []"
  "oqs sample_sig_env = sample_liboqs" "evp sample_sig_env = sample_openssl" "prereq34 (build sample_sig_env)"
  "malloc_ok sample_sig_env i n"
  by (simp_all add: sample_sig_state_def ctx_key_def context_bytes_def bytes_at_def zero_ctx_def collected_def
      sample_sig_env_def)

lemma sample_sig_key:
  "keytype mldsa_full = KEY_TYPE_HYB_SIG" "classical_pkey mldsa_full = Some sample_classic"
  "sig_pub mldsa_full (replicate 4 9)" "priv_part mldsa_full (replicate 5 9)"
  "small_sizes mldsa_full" "verify_ready sample_sig_env info_p256_sig sample_classic"
proof -
  show "keytype mldsa_full = KEY_TYPE_HYB_SIG" "classical_pkey mldsa_full = Some sample_classic"
    "small_sizes mldsa_full"
    by (simp_all add: mldsa_full_def p256_mldsa_def sample_key_def small_sizes_def sample_qs_def)
  show "verify_ready sample_sig_env info_p256_sig sample_classic"
    by (simp add: verify_ready_def sample_sig_env_def)
  show "sig_pub mldsa_full (replicate 4 9)" unfolding sig_pub_def by code_simp
  show "priv_part mldsa_full (replicate 5 9)" unfolding priv_part_def by code_simp
qed

lemma sample_sig_correct:
  "classical_sig_correct sample_openssl sample_classic sample_classic"
  "pq_sig_correct sample_liboqs sample_qs (replicate 5 9) (replicate 4 9)"
  by (auto simp: classical_sig_correct_def pq_sig_correct_def sample_openssl_def sample_liboqs_def sample_qs_def)

definition sample_signature :: bytes where
  "sample_signature = enc32 70 @ replicate 70 199 @ replicate 6 15"

lemma verify_directly_exact_witness:
  "fst (oqs_sig_verify_directly sample_sig_env (Some sample_signature) (length sample_signature)
     (Some [1, 2, 3]) (length [1, 2, 3 :: byte]) (sample_sig_state OP_VERIFY)) = Inr ()"
proof -
  let ?d = "classical_data sample_openssl 3 True [1, 2, 3]"
  have e: "EVP_PKEY_verify sample_openssl sample_classic (fst ?d) (replicate 70 199) (snd ?d)"
    "OQS_SIG_verify_with_ctx_str sample_liboqs sample_qs [1, 2, 3] (replicate 6 15) [] (replicate 4 9)"
    by code_simp+
  have q: "claimed_nist_level sample_qs = 3" "qs_length_signature sample_qs = 6"
    "hashes (build sample_sig_env) OP_VERIFYMSG OP_VERIFY"
    by (simp_all add: sample_qs_def hashes_def sample_sig_env_def)
  have "hybrid_accepts sample_sig_env mldsa_full info_p256_sig sample_classic OP_VERIFY [] (replicate 4 9)
      sample_signature [1, 2, 3]"
    unfolding hybrid_accepts_def
    by (intro exI [of _ "replicate 70 199"] exI [of _ "replicate 6 15"])
      (simp only: Let_def sample_full_fields sample_sig_fields q e, simp add: sample_signature_def)
  then show ?thesis
    using verify_directly_exact [OF sample_sig_fields(1,2) sample_sig_key(1) sample_full_wf(1)
        sample_full_fields(1) sample_sig_key(2,3,5,6), of sample_signature "[1, 2, 3]" OP_VERIFY]
    by (simp add: sample_signature_def)
qed

lemma sign_verify_round_trip_witness:
  "\<exists>b' m. fst (oqs_sig_sign_directly sample_sig_env 3 4 (Some (replicate 82 0)) 82 (Some [1, 2, 3]) 3
       (sample_sig_state OP_SIGN)) = Inr (Some b', m) \<and>
     fst (oqs_sig_verify_directly sample_sig_env (Some (take m b')) m (Some [1, 2, 3]) 3
       (sample_sig_state OP_VERIFY)) = Inr ()"
proof -
  let ?s = "oqs_sig_sign_directly sample_sig_env 3 4 (Some (replicate 82 0)) 82 (Some [1, 2, 3]) (length [1, 2, 3 :: byte])
    (sample_sig_state OP_SIGN)"
  have f: "fst ?s = Inr (Some (sample_signature @ [0, 0]), 80)"
    by code_simp
  have sg: "?s = (Inr (Some (sample_signature @ [0, 0]), 80), snd ?s)"
    using f by (metis prod.collapse)
  have h: "hashes (build sample_sig_env) OP_SIGNMSG OP_SIGN = hashes (build sample_sig_env) OP_VERIFYMSG OP_VERIFY"
    by (simp add: hashes_def sample_sig_env_def)
  from sign_verify_round_trip [OF sample_sig_fields(1,1,2,2) _ sample_sig_key(1,1) refl sample_full_fields(1,1)
      sample_full_wf(1) sample_sig_key(2,2) _ sample_sig_key(4,3) _ sample_sig_key(5,6) _ sg, of OP_VERIFY]
  have v: "oqs_sig_verify_directly sample_sig_env (Some (take 80 (sample_signature @ [0, 0]))) 80 (Some [1, 2, 3])
      (length [1, 2, 3 :: byte]) (sample_sig_state OP_VERIFY) = (Inr (), sample_sig_state OP_VERIFY)"
    by (simp add: sample_sig_correct sample_full_fields(15) h del: take_append)
  have l: "length [1, 2, 3 :: byte] = 3" by simp
  show ?thesis
    using f [unfolded l] v [unfolded l] by (intro exI conjI) (assumption, simp only: fst_conv)
qed

lemma message_stream_witness:
  "(\<exists>s'. message_updates sample_sig_env [[1], [2, 3]] (sample_sig_state OP_SIGNMSG) = (Inr (), s') \<and>
    oqs_sig_sign_message_final sample_sig_env 3 4 (Some (replicate 82 0)) 82 s' =
      (Inr (Some (sample_signature @ [0, 0]), 80), s')) \<and>
    fst (message_updates sample_sig_env [[], [1, 2, 3]] (sample_sig_state OP_SIGNMSG)) = Inl Quiet"
proof -
  have "fst (oqs_sig_sign_directly sample_sig_env 3 4 (Some (replicate 82 0)) 82 (Some (concat [[1], [2, 3]]))
      (length (concat [[1], [2, 3 :: byte]])) (sample_sig_state OP_SIGNMSG)) = Inr (Some (sample_signature @ [0, 0]), 80)"
    by code_simp
  with message_stream [where s = "sample_sig_state OP_SIGNMSG" and V = sample_sig_env and ds = "[[1], [2, 3]]"
      and rc = 3 and rq = 4 and buf = "Some (replicate 82 0)" and n = 82, OF sample_sig_fields(4,8)]
    message_stream [where s = "sample_sig_state OP_SIGNMSG" and V = sample_sig_env and ds = "[[], [1, 2, 3]]",
      OF sample_sig_fields(4,8)]
  show ?thesis by auto
qed

text \<open>The second signature is the one of the first message followed by the second.\<close>

lemma second_message_witness:
  "\<exists>s1. fst (oqs_sig_sign sample_sig_env 3 4 (Some (replicate 82 0)) 82 [2, 3]
        (snd (oqs_sig_sign sample_sig_env 3 4 (Some (replicate 82 0)) 82 [1] s1))) =
      Inr (Some (sample_signature @ [0, 0]), 80) \<and>
    fst (oqs_sig_sign sample_sig_env 3 4 (Some (replicate 82 0)) 82 [2, 3] s1) \<noteq>
      Inr (Some (sample_signature @ [0, 0]), 80)"
proof -
  let ?s = "sample_sig_state OP_SIGNMSG"
  have d: "fst (oqs_sig_sign_directly sample_sig_env 3 4 (Some (replicate 82 0)) 82 (Some ([1] @ [2, 3]))
      (length ([1] @ [2, 3 :: byte])) ?s) = Inr (Some (sample_signature @ [0, 0]), 80)"
    by code_simp
  have n: "fst (oqs_sig_sign sample_sig_env 3 4 (Some (replicate 82 0)) 82 [2, 3] ?s) \<noteq>
      Inr (Some (sample_signature @ [0, 0]), 80)"
    by code_simp
  from second_message [where s = ?s and V = sample_sig_env and rc = 3 and rq = 4 and b = "replicate 82 0" and n = 82
      and ?m1.0 = "[1]" and ?rc' = 3 and ?rq' = 4 and ?b' = "replicate 82 0" and ?n' = 82 and ?m2.0 = "[2, 3]",
      OF sample_sig_fields(4,8) _ _ prod.collapse [symmetric]] d n
  show ?thesis by (intro exI [of _ ?s]) simp
qed

end
