(* ===== verification/Sig_Context.thy ===== *)
theory Sig_Context
  imports Sig_Correct
begin

text \<open>
  Lifetime of signature contexts: which blocks a context owns, what its release does to the heap,
  and what duplication shares between the copy and the source.
\<close>

subsection \<open>Release\<close>

lemma bindS_eq_Inr: "bindS m f s = (Inr y, s') \<longleftrightarrow> (\<exists>x s1. m s = (Inr x, s1) \<and> f x s1 = (Inr y, s'))"
  by (auto simp: bindS_def split: prod.split sum.split)

definition frees :: "nat option list \<Rightarrow> (('p, 'm) sig_state, unit) st" where
  "frees ps = foldr (\<lambda>p m. thenS (OPENSSL_free p) m) ps (retS ())"

lemma frees_simps: "frees [] = retS ()" "frees (p # ps) = thenS (OPENSSL_free p) (frees ps)"
  by (simp_all add: frees_def)

lemma thenS_ret: "thenS m (retS ()) = m"
  by (rule ext) (auto simp: thenS_def bindS_def retS_def split: prod.split sum.split)

definition addrs :: "nat option list \<Rightarrow> nat list" where
  "addrs ps = List.map_filter id ps"

lemma addrs_simps [simp]:
  "addrs [] = []" "addrs (None # ps) = addrs ps" "addrs (Some a # ps) = a # addrs ps"
  "addrs (ps @ qs') = addrs ps @ addrs qs'"
  by (simp_all add: addrs_def List.map_filter_def)

lemma set_addrs: "a \<in> set (addrs ps) \<longleftrightarrow> Some a \<in> set ps"
  by (induction ps) (auto simp: addrs_def List.map_filter_def)

definition drop_blocks :: "nat set \<Rightarrow> ('p, 'm) sig_state \<Rightarrow> ('p, 'm) sig_state" where
  "drop_blocks A s = s\<lparr>blocks := (\<lambda>a. if a \<in> A then None else blocks s a)\<rparr>"

lemma frees_ok:
  "distinct (addrs ps) \<Longrightarrow> (\<And>a. a \<in> set (addrs ps) \<Longrightarrow> blocks s a \<noteq> None) \<Longrightarrow>
     frees ps s = (Inr (), drop_blocks (set (addrs ps)) s)"
proof (induction ps arbitrary: s)
  case Nil
  then show ?case by (simp add: frees_def st_simps drop_blocks_def)
next
  case (Cons p ps)
  show ?case
  proof (cases p)
    case None
    with Cons show ?thesis by (simp add: frees_def OPENSSL_free_def st_simps)
  next
    case (Some a)
    let ?s = "s\<lparr>blocks := (blocks s)(a := None)\<rparr>"
    have "frees ps ?s = (Inr (), drop_blocks (set (addrs ps)) ?s)"
      by (rule Cons.IH) (use Cons.prems Some in auto)
    moreover have "drop_blocks (set (addrs ps)) ?s = drop_blocks (set (addrs (p # ps))) s"
      by (cases s) (simp add: drop_blocks_def Some fun_eq_iff)
    moreover have "blocks s a \<noteq> None" using Cons.prems(2) [of a] Some by simp
    ultimately show ?thesis by (simp add: frees_def OPENSSL_free_def Some thenS_Inr)
  qed
qed

lemma frees_UB:
  "\<not> (distinct (addrs ps) \<and> (\<forall>a \<in> set (addrs ps). blocks s a \<noteq> None)) \<Longrightarrow> fst (frees ps s) = Inl UB"
proof (induction ps arbitrary: s)
  case (Cons p ps)
  show ?case
  proof (cases p)
    case None
    with Cons show ?thesis by (simp add: frees_def OPENSSL_free_def st_simps)
  next
    case (Some a)
    let ?s = "s\<lparr>blocks := (blocks s)(a := None)\<rparr>"
    show ?thesis
    proof (cases "blocks s a = None")
      case True
      then show ?thesis by (simp add: frees_def OPENSSL_free_def Some thenS_def bindS_def)
    next
      case False
      have "fst (frees ps ?s) = Inl UB"
        by (rule Cons.IH) (use Cons.prems Some False in \<open>auto split: if_splits\<close>)
      with False show ?thesis by (simp add: frees_def OPENSSL_free_def Some thenS_Inr)
    qed
  qed
qed simp

text \<open>The pointers a context owns, in the order of their release.\<close>

definition owned :: "sig_build \<Rightarrow> 'm sig_ctx \<Rightarrow> nat option list" where
  "owned B c = [sc_propq c, mddata c, aid c, context_string c] @ (if prereq34 B then [signature c] else [])"

lemma OPENSSL_free_keys:
  "OPENSSL_free p (s\<lparr>keys := h\<rparr>) = (case OPENSSL_free p s of (r, s') \<Rightarrow> (r, s'\<lparr>keys := h\<rparr>))"
  by (cases p) (auto simp: OPENSSL_free_def st_simps)

lemma free_ctx_frees:
  assumes "oqsx_key_free (sig c) (keys s) = Inr h"
  shows "fst (free_ctx B c s) = fst (frees (owned B c) (s\<lparr>keys := h\<rparr>))"
    and "fst (free_ctx B c s) = Inr () \<Longrightarrow> free_ctx B c s = frees (owned B c) (s\<lparr>keys := h\<rparr>)"
proof -
  let ?rest = "frees ([mddata c, aid c, context_string c] @ (if prereq34 B then [signature c] else []))"
  have f: "free_ctx B c = thenS (OPENSSL_free (sc_propq c)) (thenS (keysS (oqsx_key_free (sig c))) ?rest)"
    by (simp add: free_ctx_def frees_simps thenS_ret)
  have o': "frees (owned B c) = thenS (OPENSSL_free (sc_propq c)) ?rest"
    by (simp add: owned_def frees_simps)
  have *: "free_ctx B c s = frees (owned B c) (s\<lparr>keys := h\<rparr>) \<or>
      fst (free_ctx B c s) = Inl UB \<and> fst (frees (owned B c) (s\<lparr>keys := h\<rparr>)) = Inl UB"
  proof (cases "\<exists>a. sc_propq c = Some a \<and> blocks s a = None")
    case True
    then show ?thesis by (auto simp: f o' OPENSSL_free_def thenS_def bindS_def)
  next
    case False
    then obtain s' where s': "OPENSSL_free (sc_propq c) s = (Inr (), s')" "keys s' = keys s"
      by (cases "sc_propq c") (auto simp: OPENSSL_free_def st_simps)
    then have "OPENSSL_free (sc_propq c) (s\<lparr>keys := h\<rparr>) = (Inr (), s'\<lparr>keys := h\<rparr>)"
      by (simp add: OPENSSL_free_keys)
    moreover have "keysS (oqsx_key_free (sig c)) s' = (Inr (), s'\<lparr>keys := h\<rparr>)"
      by (simp add: keysS_def bindS_readS s'(2) assms) (simp add: modS_def)
    ultimately show ?thesis by (simp add: f o' thenS_Inr s'(1))
  qed
  show "fst (free_ctx B c s) = fst (frees (owned B c) (s\<lparr>keys := h\<rparr>))" using * by auto
  show "fst (free_ctx B c s) = Inr () \<Longrightarrow> free_ctx B c s = frees (owned B c) (s\<lparr>keys := h\<rparr>)" using * by auto
qed

lemma free_ctx_ok:
  assumes "oqsx_key_free (sig c) (keys s) = Inr h" and "distinct (addrs (owned B c))"
    and "\<And>a. a \<in> set (addrs (owned B c)) \<Longrightarrow> blocks s a \<noteq> None"
  shows "free_ctx B c s = (Inr (), drop_blocks (set (addrs (owned B c))) (s\<lparr>keys := h\<rparr>))"
  using free_ctx_frees [OF assms(1), of B] frees_ok [OF assms(2), of "s\<lparr>keys := h\<rparr>"] assms(3) by simp

lemma free_ctx_UB:
  assumes "oqsx_key_free (sig c) (keys s) = Inr h"
    and "a \<in> set (addrs (owned B c))" and "blocks s a = None"
  shows "fst (free_ctx B c s) = Inl UB"
  using free_ctx_frees(1) [OF assms(1), of B] frees_UB [of "owned B c" "s\<lparr>keys := h\<rparr>"] assms(2,3) by auto

subsection \<open>Duplication\<close>

text \<open>\<open>s1\<close> is \<open>s0\<close> with new blocks at the addresses \<open>as\<close>.\<close>

definition grown :: "('p, 'm) sig_state \<Rightarrow> ('p, 'm) sig_state \<Rightarrow> nat list \<Rightarrow> bool" where
  "grown s0 s1 as \<longleftrightarrow> keys s1 = keys s0 \<and> sctx s1 = sctx s0 \<and> next_block s0 \<le> next_block s1 \<and>
     (\<forall>a < next_block s0. blocks s1 a = blocks s0 a) \<and> distinct as \<and>
     (\<forall>a \<in> set as. next_block s0 \<le> a \<and> a < next_block s1 \<and> blocks s1 a \<noteq> None)"

lemma grown_refl: "grown s s []"
  by (simp add: grown_def)

lemma dup_block_grown:
  assumes "grown s0 s1 as" and "dup_block V ptr len s1 = (Inr (Some p), s2)"
  shows "grown s0 s2 (addrs [p] @ as)" and "p = None \<longleftrightarrow> ptr = None"
proof -
  have "grown s0 s2 (addrs [p] @ as) \<and> (p = None \<longleftrightarrow> ptr = None)"
  proof (cases ptr)
    case None
    with assms show ?thesis by (simp add: dup_block_def st_simps)
  next
    case (Some a)
    with assms(2) have "p = Some (next_block s1)" and "\<exists>d. s2 = s1\<lparr>blocks := (blocks s1)(next_block s1 \<mapsto> d), next_block := next_block s1 + 1\<rparr>"
      by (auto simp: dup_block_def bindS_def readS_def mallocS_def retS_def split: prod.splits sum.splits option.splits if_splits)
    with assms(1) Some show ?thesis by (auto simp: grown_def less_Suc_eq)
  qed
  then show "grown s0 s2 (addrs [p] @ as)" "p = None \<longleftrightarrow> ptr = None" by blast+
qed

lemma dup_fail_not_Some: "dup_fail B d s \<noteq> (Inr (Some e), s')"
  by (auto simp: dup_fail_def thenS_def bindS_def retS_def split: prod.splits sum.splits)

lemma dup_blocks_Some:
  assumes "dup_blocks V src d s = (Inr (Some e), s')"
  shows "\<exists>p1 p2 p3 p4. e = d\<lparr>mddata := p1, aid := p2, sc_propq := p3, context_string := p4\<rparr> \<and>
    grown s s' (addrs [p4, p3, p2, p1])"
proof -
  from assms obtain p1 s1 p2 s2 p3 s3 p4 where
    d: "dup_block V (mddata src) (Some (mdsize src)) s = (Inr (Some p1), s1)"
      "dup_block V (aid src) (Some (aid_len src)) s1 = (Inr (Some p2), s2)"
      "dup_block V (sc_propq src) None s2 = (Inr (Some p3), s3)"
      "dup_block V (context_string src) (Some (context_string_length src)) s3 = (Inr (Some p4), s')"
      "e = d\<lparr>mddata := p1, aid := p2, sc_propq := p3, context_string := p4\<rparr>"
    by (auto simp: dup_blocks_def Let_def dup_fail_not_Some bindS_eq_Inr retS_def split: option.splits)
  note g1 = dup_block_grown [OF grown_refl d(1)]
  note g2 = dup_block_grown [OF g1(1) d(2)]
  note g3 = dup_block_grown [OF g2(1) d(3)]
  note g4 = dup_block_grown [OF g3(1) d(4)]
  have "addrs [p4, p3, p2, p1] = addrs [p4] @ addrs [p3] @ addrs [p2] @ addrs [p1]"
    by (cases p1; cases p2; cases p3; cases p4) simp_all
  with g4(1) d(5) show ?thesis
    by (intro exI [of _ p1] exI [of _ p2] exI [of _ p3] exI [of _ p4]) simp
qed

lemma addrs_app: "addrs (p # ps) = addrs [p] @ addrs ps"
  by (cases p) simp_all

lemma dupctx_Some:
  assumes "oqs_sig_dupctx V z mdok s = (Inr (Some d), s')"
  shows "\<exists>h. (case sig (sctx s) of None \<Rightarrow> Inr (keys s) | Some a \<Rightarrow> oqsx_key_up_ref a (keys s)) = Inr h \<and>
    grown (s\<lparr>keys := h\<rparr>) s' (addrs [context_string d, sc_propq d, aid d, mddata d]) \<and>
    sig d = sig (sctx s) \<and> signature d = signature (sctx s)"
proof -
  let ?up = "case sig (sctx s) of None \<Rightarrow> retS () | Some a \<Rightarrow> keysS (oqsx_key_up_ref a)"
  have up: "\<exists>h. (case sig (sctx s) of None \<Rightarrow> Inr (keys s) | Some a \<Rightarrow> oqsx_key_up_ref a (keys s)) = Inr h
      \<and> s1 = s\<lparr>keys := h\<rparr>" if "?up s = (Inr (), s1)" for s1
    using that by (cases "sig (sctx s)") (auto simp: retS_def keysS_def bindS_eq_Inr readS_def modS_def)
  from assms obtain s1 e where "?up s = (Inr (), s1)" and
    e: "dup_blocks V (sctx s) e s1 = (Inr (Some d), s')" "sig e = sig (sctx s)" "signature e = signature (sctx s)"
    by (auto simp: oqs_sig_dupctx_def Let_def thenS_def bindS_eq_Inr getS_def retS_def dup_fail_not_Some
        split: if_splits option.splits)
  with up obtain h where h: "(case sig (sctx s) of None \<Rightarrow> Inr (keys s) | Some a \<Rightarrow> oqsx_key_up_ref a (keys s)) = Inr h"
      "s1 = s\<lparr>keys := h\<rparr>" by blast
  from dup_blocks_Some [OF e(1)] h e(2,3) show ?thesis by fastforce
qed

text \<open>A context all of whose blocks are allocated and its own, with the lengths it records.\<close>

definition valid_ctx :: "sig_build \<Rightarrow> ('p, 'm) sig_state \<Rightarrow> bool" where
  "valid_ctx B s \<longleftrightarrow> (let c = sctx s in
     distinct (addrs (owned B c)) \<and>
     (\<forall>a \<in> set (addrs (owned B c)). blocks s a \<noteq> None \<and> a < next_block s) \<and>
     (\<forall>a b. mddata c = Some a \<longrightarrow> blocks s a = Some b \<longrightarrow> mdsize c \<le> length b))"

text \<open>
  C21: A duplicated context shares the signature of its source: releasing the copy and then the
  source releases that block twice exactly when the source holds a signature (and the build has
  message signatures). Without one, both releases are well-defined, the key's count included.
\<close>

theorem dup_double_free:
  assumes "valid_ctx (build V) s"
    and "counted_keys (keys s) (ref (sig (sctx s)) + H)" and "size H + 3 < 2 ^ 31 - 1"
    and "oqs_sig_dupctx V z mdok s = (Inr (Some d), s')"
  shows "fst (thenS (free_ctx (build V) d) (oqs_sig_freectx (build V)) s') =
    (if prereq34 (build V) \<and> signature (sctx s) \<noteq> None then Inl UB else Inr ())"
proof -
  let ?B = "build V" and ?c = "sctx s"
  let ?p1 = "mddata d" and ?p2 = "aid d" and ?p3 = "sc_propq d" and ?p4 = "context_string d"
  from dupctx_Some [OF assms(4)] obtain h where
    h: "(case sig ?c of None \<Rightarrow> Inr (keys s) | Some a \<Rightarrow> oqsx_key_up_ref a (keys s)) = Inr h"
    and g: "grown (s\<lparr>keys := h\<rparr>) s' (addrs [?p4, ?p3, ?p2, ?p1])"
    and d: "sig d = sig ?c" "signature d = signature ?c"
    by blast
  have sz: "size H + 1 < 2 ^ 31 - 1" "size (ref (sig ?c) + H) < 2 ^ 31 - 1" "size H < 2 ^ 31 - 1"
    using assms(3) size_ref_le [of "sig ?c"] by simp_all
  from keystore.share_ok [OF assms(2) sz(1)] h have "counted_keys h (ref (sig ?c) + (ref (sig ?c) + H))"
    by simp
  from keystore.fr_ref [OF this sz(2)] obtain h1 where
    h1: "oqsx_key_free (sig d) h = Inr h1" "counted_keys h1 (ref (sig ?c) + H)"
    unfolding d(1) by blast
  from keystore.fr_ref [OF h1(2) sz(3)] obtain h2 where h2: "oqsx_key_free (sig ?c) h1 = Inr h2" by blast
  have gd: "keys s' = h" "sctx s' = ?c" "\<And>a. a < next_block s \<Longrightarrow> blocks s' a = blocks s a"
    "distinct (addrs [?p4, ?p3, ?p2, ?p1])"
    "\<And>a. a \<in> set (addrs [?p4, ?p3, ?p2, ?p1]) \<Longrightarrow> next_block s \<le> a \<and> blocks s' a \<noteq> None"
    using g by (simp_all add: grown_def)
  have v: "distinct (addrs (owned ?B ?c))" "\<And>a. a \<in> set (addrs (owned ?B ?c)) \<Longrightarrow> blocks s a \<noteq> None \<and> a < next_block s"
    using assms(1) by (simp_all add: valid_ctx_def Let_def)
  let ?sg = "if prereq34 ?B then [signature ?c] else []"
  have od: "addrs (owned ?B d) = addrs [?p3, ?p1, ?p2, ?p4] @ addrs ?sg"
    by (simp add: owned_def d flip: addrs_simps(4))
  have sg: "a \<in> set (addrs ?sg) \<Longrightarrow> blocks s a \<noteq> None \<and> a < next_block s" for a
    using v(2) [of a] by (auto simp: owned_def set_addrs split: if_splits)
  have mset: "set (addrs [?p3, ?p1, ?p2, ?p4]) = set (addrs [?p4, ?p3, ?p2, ?p1])" by (auto simp: set_addrs)
  have "distinct (addrs [?p3, ?p1, ?p2, ?p4])" using gd(4) by (cases ?p1; cases ?p2; cases ?p3; cases ?p4) auto
  moreover have "distinct (addrs ?sg)" by (cases "signature ?c") simp_all
  moreover have "a \<notin> set (addrs ?sg)" if "a \<in> set (addrs [?p3, ?p1, ?p2, ?p4])" for a
    using gd(5) [of a] sg [of a] that mset by auto
  ultimately have dist: "distinct (addrs (owned ?B d))" unfolding od by auto
  have "blocks s' a \<noteq> None" if "a \<in> set (addrs (owned ?B d))" for a
    using that gd(3,5) [of a] sg [of a] mset unfolding od by auto
  from free_ctx_ok [OF _ dist this, of h1] h1(1) gd(1) obtain s2 where
    s2: "free_ctx ?B d s' = (Inr (), s2)" "s2 = drop_blocks (set (addrs (owned ?B d))) (s'\<lparr>keys := h1\<rparr>)"
    by auto
  have "fst (thenS (free_ctx ?B d) (oqs_sig_freectx ?B) s') = fst (free_ctx ?B ?c s2)"
    by (simp add: thenS_Inr [where m = "free_ctx ?B d", OF s2(1)] oqs_sig_freectx_def st_simps)
      (simp add: s2(2) drop_blocks_def gd(2))
  moreover have k2: "oqsx_key_free (sig ?c) (keys s2) = Inr h2" using h2 by (simp add: s2(2) drop_blocks_def)
  moreover have "fst (free_ctx ?B ?c s2) = Inl UB" if "prereq34 ?B" "signature ?c = Some a" for a
    by (rule free_ctx_UB [OF k2, of a]) (use that in \<open>simp_all add: owned_def set_addrs s2(2) drop_blocks_def d(2)\<close>)
  moreover have "fst (free_ctx ?B ?c s2) = Inr ()" if "\<not> (prereq34 ?B \<and> signature ?c \<noteq> None)"
  proof -
    have "addrs ?sg = []" using that by auto
    then have "blocks s2 a \<noteq> None" if "a \<in> set (addrs (owned ?B ?c))" for a
      using v(2) [OF that] gd(3,5) [of a] mset unfolding s2(2) od by (auto simp: drop_blocks_def)
    from free_ctx_ok [OF k2 v(1) this] show ?thesis by simp
  qed
  ultimately show ?thesis by auto
qed

text \<open>
  A duplication that runs out of memory at the collected data releases what the half-made copy
  still shares with its source: the source's property query, algorithm identifier, context string
  and signature. The source keeps the pointers, so its own release then has undefined behaviour
  exactly when it has any of them.
\<close>

lemma dup_failure_releases_source:
  assumes "valid_ctx (build V) s" and "counted_keys (keys s) (ref (sig (sctx s)) + H)"
    and "size H + 3 < 2 ^ 31 - 1"
    and "mddata (sctx s) = Some a" and "\<not> malloc_ok V (next_block s) (mdsize (sctx s))"
    and "mdctx (sctx s) = None" and "md (sctx s) = None"
  shows "\<exists>s'. oqs_sig_dupctx V True mdok s = (Inr None, s') \<and> sctx s' = sctx s \<and>
    (\<forall>b \<in> set (addrs (owned (build V) (sctx s))). b \<noteq> a \<longrightarrow> blocks s' b = None) \<and>
    (fst (oqs_sig_freectx (build V) s') = Inl UB \<longleftrightarrow> set (addrs (owned (build V) (sctx s))) \<noteq> {a})"
proof -
  let ?B = "build V" and ?c = "sctx s"
  let ?d = "?c\<lparr>mdctx := None, md := None, mddata := None\<rparr>"
  have sz: "size H + 1 < 2 ^ 31 - 1" "size (ref (sig ?c) + H) < 2 ^ 31 - 1" "size H < 2 ^ 31 - 1"
    using assms(3) size_ref_le [of "sig ?c"] by simp_all
  from keystore.share_ok [OF assms(2) sz(1)] obtain h where
    h: "(case sig ?c of None \<Rightarrow> Inr (keys s) | Some a \<Rightarrow> oqsx_key_up_ref a (keys s)) = Inr h"
      "counted_keys h (ref (sig ?c) + (ref (sig ?c) + H))" by blast
  from keystore.fr_ref [OF h(2) sz(2)] obtain h1 where
    h1: "oqsx_key_free (sig ?c) h = Inr h1" "counted_keys h1 (ref (sig ?c) + H)" by blast
  from keystore.fr_ref [OF h1(2) sz(3)] obtain h2 where h2: "oqsx_key_free (sig ?c) h1 = Inr h2" by blast
  have v: "distinct (addrs (owned ?B ?c))" "\<And>b. b \<in> set (addrs (owned ?B ?c)) \<Longrightarrow> blocks s b \<noteq> None"
    using assms(1) by (simp_all add: valid_ctx_def Let_def)
  have am: "a \<in> set (addrs (owned ?B ?c))" by (simp add: set_addrs owned_def assms(4))
  with v(2) obtain b where "blocks s a = Some b" by blast
  moreover have "mdsize ?c \<le> length b" using assms(1,4) calculation by (simp add: valid_ctx_def Let_def)
  ultimately have b: "blocks s a = Some b" "mdsize ?c \<le> length b" .
  let ?s1 = "s\<lparr>keys := h\<rparr>" and ?s2 = "s\<lparr>keys := h, next_block := next_block s + 1\<rparr>"
  have up: "(case sig ?c of None \<Rightarrow> retS () | Some a \<Rightarrow> keysS (oqsx_key_up_ref a)) s = (Inr (), ?s1)"
    using h(1) by (cases "sig ?c") (simp_all add: retS_def keysS_def bindS_readS modS_def)
  have blk: "dup_block V (Some a) (Some (mdsize ?c)) ?s1 = (Inr None, ?s2)"
    using b assms(5) by (simp add: dup_block_def readS_def rd_ok bindS_def mallocS_def retS_def)
  have same: "addrs (owned ?B ?d) = filter (\<lambda>x. x \<noteq> a) (addrs (owned ?B ?c))"
    using v(1) assms(4)
    by (cases "sc_propq ?c"; cases "aid ?c"; cases "context_string ?c"; cases "signature ?c"; cases "prereq34 ?B")
      (auto simp: owned_def)
  have dist: "distinct (addrs (owned ?B ?d))" unfolding same using v(1) by simp
  have alloc: "blocks ?s2 x \<noteq> None" if "x \<in> set (addrs (owned ?B ?d))" for x
    using that v(2) [of x] unfolding same by simp
  let ?s3 = "drop_blocks (set (addrs (owned ?B ?d))) (?s2\<lparr>keys := h1\<rparr>)"
  have fd: "free_ctx ?B ?d ?s2 = (Inr (), ?s3)"
    by (rule free_ctx_ok [OF _ dist alloc]) (simp_all add: h1(1))
  have fail: "dup_fail ?B ?d ?s2 = (Inr None, ?s3)"
    unfolding dup_fail_def thenS_def bindS_def fd by (simp add: retS_def)
  have blks: "dup_blocks V ?c (?c\<lparr>mdctx := None, md := None\<rparr>) ?s1 = (Inr None, ?s3)"
    unfolding dup_blocks_def assms(4) bindS_def blk using fail by (simp del: fun_upd_apply)
  have dup: "oqs_sig_dupctx V True mdok s = (Inr None, ?s3)"
    using blks assms(6,7)
    by (simp add: oqs_sig_dupctx_def Let_def st_simps) (simp only: thenS_def bindS_def up, simp)
  have k3: "oqsx_key_free (sig ?c) (keys ?s3) = Inr h2" by (simp add: drop_blocks_def h2)
  have fr: "fst (oqs_sig_freectx ?B ?s3) = fst (free_ctx ?B ?c ?s3)"
    by (simp add: oqs_sig_freectx_def st_simps) (simp add: drop_blocks_def)
  have gone: "blocks ?s3 x = None" if "x \<in> set (addrs (owned ?B ?c))" "x \<noteq> a" for x
    using that by (simp add: drop_blocks_def same)
  have "fst (free_ctx ?B ?c ?s3) = Inl UB \<longleftrightarrow> set (addrs (owned ?B ?c)) \<noteq> {a}"
  proof (cases "set (addrs (owned ?B ?c)) = {a}")
    case True
    have "free_ctx ?B ?c ?s3 = (Inr (), drop_blocks (set (addrs (owned ?B ?c))) (?s3\<lparr>keys := h2\<rparr>))"
      by (rule free_ctx_ok [OF k3 v(1)]) (use True b(1) in \<open>simp add: drop_blocks_def same\<close>)
    with True show ?thesis by simp
  next
    case False
    with am obtain x where "x \<in> set (addrs (owned ?B ?c))" "x \<noteq> a" by blast
    from free_ctx_UB [OF k3 this(1) gone [OF this]] False show ?thesis by simp
  qed
  with dup gone fr show ?thesis by (intro exI [of _ ?s3]) (simp add: drop_blocks_def)
qed

subsection \<open>Witnesses\<close>

text \<open>A verification context with a signature, a context with collected data and a context string.\<close>

definition sample_verify_state :: "(sample_pkey, bytes) sig_state" where
  "sample_verify_state = \<lparr>keys = [0 \<mapsto> mldsa_full], blocks = [0 \<mapsto> [1, 2, 3]], next_block = 1,
     sctx = zero_ctx\<lparr>sig := Some 0, operation := OP_VERIFYMSG, signature := Some 0, siglen := 3\<rparr>\<rparr>"

definition sample_stream_state :: "(sample_pkey, bytes) sig_state" where
  "sample_stream_state = \<lparr>keys = [0 \<mapsto> mldsa_full], blocks = [0 \<mapsto> [1, 2, 3], 1 \<mapsto> [7]], next_block = 2,
     sctx = zero_ctx\<lparr>sig := Some 0, operation := OP_SIGNMSG, mddata := Some 0, mdsize := 3,
       context_string := Some 1, context_string_length := 1\<rparr>\<rparr>"

lemma sample_counted: "counted_keys [0 \<mapsto> mldsa_full] {#0#}"
proof -
  have "references mldsa_full = 1" by (simp add: mldsa_full_def p256_mldsa_def sample_key_def)
  then show ?thesis by (simp add: counted_keys_def sample_full_wf)
qed

lemma dup_double_free_witness:
  "\<exists>d s'. oqs_sig_dupctx sample_sig_env True True sample_verify_state = (Inr (Some d), s') \<and>
     fst (thenS (free_ctx (build sample_sig_env) d) (oqs_sig_freectx (build sample_sig_env)) s') = Inl UB"
proof -
  let ?r = "oqs_sig_dupctx sample_sig_env True True sample_verify_state"
  let ?d = "zero_ctx\<lparr>sig := Some 0, operation := OP_VERIFYMSG, signature := Some 0, siglen := 3\<rparr>"
  have "fst ?r = Inr (Some ?d)" by code_simp
  then have r: "?r = (Inr (Some ?d), snd ?r)" by (metis prod.collapse)
  have v: "valid_ctx (build sample_sig_env) sample_verify_state"
    by (simp add: valid_ctx_def Let_def owned_def sample_verify_state_def zero_ctx_def)
  have c: "counted_keys (keys sample_verify_state) (ref (sig (sctx sample_verify_state)) + {#})"
    using sample_counted by (simp add: sample_verify_state_def)
  have "prereq34 (build sample_sig_env) \<and> signature (sctx sample_verify_state) \<noteq> None"
    by (simp add: sample_verify_state_def)
  with dup_double_free [OF v c _ r] r show ?thesis by (intro exI conjI) (assumption, simp)
qed

lemma dup_failure_releases_source_witness:
  "\<exists>s'. oqs_sig_dupctx (sample_sig_env\<lparr>malloc_ok := \<lambda>i n. n < 3\<rparr>) True True sample_stream_state = (Inr None, s') \<and>
     blocks s' 1 = None \<and> context_string (sctx s') = Some 1 \<and>
     fst (oqs_sig_freectx (build sample_sig_env) s') = Inl UB"
proof -
  let ?V = "sample_sig_env\<lparr>malloc_ok := \<lambda>i n. n < 3\<rparr>" and ?s = sample_stream_state
  have v: "valid_ctx (build ?V) ?s"
    by (simp add: valid_ctx_def Let_def owned_def sample_stream_state_def zero_ctx_def)
  have c: "counted_keys (keys ?s) (ref (sig (sctx ?s)) + {#})"
    using sample_counted by (simp add: sample_stream_state_def)
  have o': "set (addrs (owned (build ?V) (sctx ?s))) = {0, 1}"
    by (auto simp: owned_def sample_stream_state_def zero_ctx_def)
  have f: "mddata (sctx ?s) = Some 0" "\<not> malloc_ok ?V (next_block ?s) (mdsize (sctx ?s))"
    "mdctx (sctx ?s) = None" "md (sctx ?s) = None" "context_string (sctx ?s) = Some 1"
    by (simp_all add: sample_stream_state_def zero_ctx_def)
  have b: "build ?V = build sample_sig_env" by simp
  have s: "size ({#} :: nat multiset) + 3 < 2 ^ 31 - 1" by simp
  obtain s' where "oqs_sig_dupctx ?V True True ?s = (Inr None, s')" "sctx s' = sctx ?s"
      "blocks s' 1 = None" "fst (oqs_sig_freectx (build ?V) s') = Inl UB"
    using dup_failure_releases_source [OF v c s f(1-4), of True] unfolding o' by auto
  with f(5) show ?thesis unfolding b by auto
qed

end
