(* ===== verification/Core_Bio.thy ===== *)
theory Core_Bio
  imports Key_Codec
begin

text \<open>
  The bridge between the core's I/O objects and the provider's (\<^verbatim>\<open>oqsprov_bio.c\<close>), and the provider
  context of \<^verbatim>\<open>oqsprov_keys.c\<close>. The core hands its functions over in a dispatch table; the provider
  keeps their addresses in static variables, which are the map \<open>bio_fns\<close>. A provider-side object
  holds one reference to the core's object it filters: \<open>core_refs\<close> counts them.
\<close>

subsection \<open>The core's dispatch table\<close>

datatype bio_fn =
    BIO_NEW_FILE | BIO_NEW_MEMBUF | BIO_READ_EX | BIO_WRITE_EX | BIO_GETS | BIO_PUTS | BIO_CTRL
  | BIO_UP_REF | BIO_FREE | BIO_VPRINTF

datatype core_fn =
    CORE_GETTABLE_PARAMS | CORE_GET_PARAMS | CORE_OBJ_CREATE | CORE_OBJ_ADD_SIGID
  | CORE_BIO bio_fn | CORE_OTHER int

text \<open>The entries before the terminating one: the function's identity and its address.\<close>

type_synonym core_dispatch = "(core_fn \<times> nat) list"
type_synonym bio_fns = "bio_fn \<Rightarrow> nat option"

fun oqs_prov_bio_from_dispatch :: "core_dispatch \<Rightarrow> bio_fns \<Rightarrow> bio_fns" where
  "oqs_prov_bio_from_dispatch [] fs = fs"
| "oqs_prov_bio_from_dispatch ((f, a) # d) fs =
     oqs_prov_bio_from_dispatch d
       (case f of CORE_BIO b \<Rightarrow> if fs b = None then fs(b := Some a) else fs | _ \<Rightarrow> fs)"

text \<open>
  A wrapper returns a constant when the core has not given the function, else what the function
  at the address returns.
\<close>

definition bio_missing :: "bio_fn \<Rightarrow> int" where
  "bio_missing f = (if f \<in> {BIO_GETS, BIO_PUTS, BIO_CTRL, BIO_VPRINTF} then -1 else 0)"

definition bio_call :: "bio_fns \<Rightarrow> bio_fn \<Rightarrow> (nat \<Rightarrow> int) \<Rightarrow> int" where
  "bio_call fs f core = (case fs f of None \<Rightarrow> bio_missing f | Some a \<Rightarrow> core a)"

subsection \<open>References to the core's objects\<close>

text \<open>
  The core's side: whether taking a reference and creating a BIO succeed, and whether the method
  table can be made (its creation, then the seven calls that fill it).
\<close>

record bio_calls =
  up_ref_ok :: "nat \<Rightarrow> bool"
  bio_new_ok :: bool
  meth_new_ok :: bool
  meth_set_ok :: "nat \<Rightarrow> bool"

type_synonym core_refs = "nat \<Rightarrow> nat"

definition oqs_prov_bio_up_ref :: "bio_calls \<Rightarrow> bio_fns \<Rightarrow> nat \<Rightarrow> (core_refs, bool) st" where
  "oqs_prov_bio_up_ref B fs b =
     (case fs BIO_UP_REF of
       None \<Rightarrow> retS False
     | Some _ \<Rightarrow>
         if up_ref_ok B b then thenS (modS (\<lambda>r. r(b := r b + 1))) (retS True) else retS False)"

text \<open>The core's function accepts NULL and otherwise gives one reference back.\<close>

definition oqs_prov_bio_free :: "bio_fns \<Rightarrow> nat option \<Rightarrow> (core_refs, unit) st" where
  "oqs_prov_bio_free fs b =
     (case (fs BIO_FREE, b) of
       (Some _, Some b) \<Rightarrow>
         bindS (getS (\<lambda>r. r b)) (\<lambda>n. thenS (ensureS (n \<noteq> 0) UB) (modS (\<lambda>r. r(b := n - 1))))
     | _ \<Rightarrow> retS ())"

text \<open>A provider-side object is what \<^verbatim>\<open>BIO_get_data\<close> returns for it; freeing it runs \<^verbatim>\<open>bio_core_free\<close>.\<close>

definition bio_core_free :: "bio_fns \<Rightarrow> nat option \<Rightarrow> (core_refs, unit) st" where
  "bio_core_free fs out = oqs_prov_bio_free fs out"

definition oqs_bio_prov_init_bio_method :: "bio_calls \<Rightarrow> bool" where
  "oqs_bio_prov_init_bio_method B \<longleftrightarrow> meth_new_ok B \<and> list_all (meth_set_ok B) [0..<7]"

definition oqs_bio_new_from_core_bio ::
    "bio_calls \<Rightarrow> bio_fns \<Rightarrow> bool \<Rightarrow> nat \<Rightarrow> (core_refs, nat option option) st" where
  "oqs_bio_new_from_core_bio B fs corebiometh b =
     (if \<not> corebiometh then retS None
      else if \<not> bio_new_ok B then retS None
      else bindS (oqs_prov_bio_up_ref B fs b) (\<lambda>r.
        if \<not> r then thenS (bio_core_free fs None) (retS None) else retS (Some (Some b))))"

text \<open>\<^verbatim>\<open>BIO_free\<close> of a pointer that may be NULL.\<close>

definition BIO_free :: "bio_fns \<Rightarrow> nat option option \<Rightarrow> (core_refs, unit) st" where
  "BIO_free fs out = (case out of None \<Rightarrow> retS () | Some data \<Rightarrow> bio_core_free fs data)"

lemma from_dispatch_keeps:
  "fs f = Some a \<Longrightarrow> oqs_prov_bio_from_dispatch d fs f = Some a"
  by (induction d fs rule: oqs_prov_bio_from_dispatch.induct) (auto split: core_fn.splits)

text \<open>
  A function that takes a provider-side object, uses it and frees it gives back the reference it
  took; \<open>body\<close> is the use. With a core that cannot free, the reference stays.
\<close>

definition with_core_bio ::
    "bio_calls \<Rightarrow> bio_fns \<Rightarrow> bool \<Rightarrow> nat \<Rightarrow> (nat option option \<Rightarrow> 'a) \<Rightarrow> (core_refs, 'a) st" where
  "with_core_bio B fs meth b body =
     bindS (oqs_bio_new_from_core_bio B fs meth b) (\<lambda>out.
     thenS (BIO_free fs out) (retS (body out)))"

lemma new_from_core_bio_cases:
  "oqs_bio_new_from_core_bio B fs meth b r =
     (if meth \<and> bio_new_ok B \<and> fs BIO_UP_REF \<noteq> None \<and> up_ref_ok B b
      then (Inr (Some (Some b)), r(b := r b + 1)) else (Inr None, r))"
  by (auto simp: oqs_bio_new_from_core_bio_def oqs_prov_bio_up_ref_def bio_core_free_def
      oqs_prov_bio_free_def bindS_def thenS_def retS_def modS_def split: option.splits)

lemma with_core_bio_balanced:
  assumes "fs BIO_FREE \<noteq> None"
  shows "with_core_bio B fs meth b body r =
     (Inr (body (if meth \<and> bio_new_ok B \<and> fs BIO_UP_REF \<noteq> None \<and> up_ref_ok B b
        then Some (Some b) else None)), r)"
  using assms
  by (auto simp: with_core_bio_def new_from_core_bio_cases BIO_free_def bio_core_free_def
      oqs_prov_bio_free_def bindS_def thenS_def retS_def modS_def getS_def ensureS_def liftS_def
      split: option.splits)

subsection \<open>The provider context\<close>

text \<open>
  \<^verbatim>\<open>oqsx_newprovctx\<close> takes over the library context and the method table, \<^verbatim>\<open>oqsx_freeprovctx\<close>
  frees both: \<open>live_libctx\<close> and \<open>live_meth\<close> count the objects of each kind that are allocated.
\<close>

record live_objs =
  live_libctx :: nat
  live_meth :: nat

record provctx =
  pc_libctx :: nat
  pc_handle :: nat
  pc_meth :: bool

definition oqsx_newprovctx :: "bool \<Rightarrow> nat \<Rightarrow> nat \<Rightarrow> bool \<Rightarrow> provctx option" where
  "oqsx_newprovctx ok lc h bm =
     (if ok then Some \<lparr>pc_libctx = lc, pc_handle = h, pc_meth = bm\<rparr> else None)"

definition oqsx_freeprovctx :: "provctx \<Rightarrow> live_objs \<Rightarrow> live_objs" where
  "oqsx_freeprovctx c l =
     l\<lparr>live_libctx := live_libctx l - 1, live_meth := live_meth l - (if pc_meth c then 1 else 0)\<rparr>"

end
