(* ===== verification/Capabilities.thy ===== *)
theory Capabilities
  imports Core_Bio
begin

text \<open>
  The TLS capabilities of \<^verbatim>\<open>oqsprov_capabilities.c\<close>: the code points of the groups and signature
  algorithms, their overriding from the environment, the two parameter tables, and the
  enumeration that hands every algorithm that is not disabled to the core's callback. A table
  under \<^verbatim>\<open>#ifdef\<close> is a list of pairs of the liboqs macro and the rows it guards.
\<close>

subsection \<open>Constants\<close>

definition TLS1_3_VERSION :: int where
  "TLS1_3_VERSION = 0x0304"

definition DTLS1_3_VERSION :: int where
  "DTLS1_3_VERSION = 0xfefc"

record group_const =
  gc_group_id :: "32 word"
  gc_secbits :: nat
  gc_mintls :: int
  gc_maxtls :: int
  gc_mindtls :: int
  gc_maxdtls :: int
  gc_is_kem :: int

definition group_const :: "32 word \<Rightarrow> nat \<Rightarrow> int \<Rightarrow> int \<Rightarrow> int \<Rightarrow> int \<Rightarrow> int \<Rightarrow> group_const" where
  "group_const i bits mintls maxtls mindtls maxdtls kem =
     \<lparr>gc_group_id = i, gc_secbits = bits, gc_mintls = mintls, gc_maxtls = maxtls,
      gc_mindtls = mindtls, gc_maxdtls = maxdtls, gc_is_kem = kem\<rparr>"

record sigalg_const =
  sc_code_point :: "32 word"
  sc_secbits :: nat
  sc_mintls :: int
  sc_maxtls :: int

definition sigalg_const :: "32 word \<Rightarrow> nat \<Rightarrow> int \<Rightarrow> int \<Rightarrow> sigalg_const" where
  "sigalg_const c bits mintls maxtls =
     \<lparr>sc_code_point = c, sc_secbits = bits, sc_mintls = mintls, sc_maxtls = maxtls\<rparr>"

definition oqs_group_list :: "group_const list" where
  "oqs_group_list =
     [group_const 65024 128 TLS1_3_VERSION 0 DTLS1_3_VERSION 0 1,
      group_const 65025 128 TLS1_3_VERSION 0 DTLS1_3_VERSION 0 1,
      group_const 65026 128 TLS1_3_VERSION 0 DTLS1_3_VERSION 0 1,
      group_const 65027 128 TLS1_3_VERSION 0 DTLS1_3_VERSION 0 1,
      group_const 65028 128 TLS1_3_VERSION 0 DTLS1_3_VERSION 0 1,
      group_const 65029 128 TLS1_3_VERSION 0 DTLS1_3_VERSION 0 1,
      group_const 65030 192 TLS1_3_VERSION 0 DTLS1_3_VERSION 0 1,
      group_const 65031 192 TLS1_3_VERSION 0 DTLS1_3_VERSION 0 1,
      group_const 65032 192 TLS1_3_VERSION 0 DTLS1_3_VERSION 0 1,
      group_const 65033 192 TLS1_3_VERSION 0 DTLS1_3_VERSION 0 1,
      group_const 65034 192 TLS1_3_VERSION 0 DTLS1_3_VERSION 0 1,
      group_const 65035 192 TLS1_3_VERSION 0 DTLS1_3_VERSION 0 1,
      group_const 65036 256 TLS1_3_VERSION 0 DTLS1_3_VERSION 0 1,
      group_const 65037 256 TLS1_3_VERSION 0 DTLS1_3_VERSION 0 1,
      group_const 65038 256 TLS1_3_VERSION 0 DTLS1_3_VERSION 0 1,
      group_const 65039 256 TLS1_3_VERSION 0 DTLS1_3_VERSION 0 1,
      group_const 65059 128 TLS1_3_VERSION 0 DTLS1_3_VERSION 0 1,
      group_const 65060 128 TLS1_3_VERSION 0 DTLS1_3_VERSION 0 1,
      group_const 65061 128 TLS1_3_VERSION 0 DTLS1_3_VERSION 0 1,
      group_const 65062 128 TLS1_3_VERSION 0 DTLS1_3_VERSION 0 1,
      group_const 65063 128 TLS1_3_VERSION 0 DTLS1_3_VERSION 0 1,
      group_const 65064 128 TLS1_3_VERSION 0 DTLS1_3_VERSION 0 1,
      group_const 65065 192 TLS1_3_VERSION 0 DTLS1_3_VERSION 0 1,
      group_const 65066 192 TLS1_3_VERSION 0 DTLS1_3_VERSION 0 1,
      group_const 65067 192 TLS1_3_VERSION 0 DTLS1_3_VERSION 0 1,
      group_const 65068 192 TLS1_3_VERSION 0 DTLS1_3_VERSION 0 1,
      group_const 65069 192 TLS1_3_VERSION 0 DTLS1_3_VERSION 0 1,
      group_const 65070 192 TLS1_3_VERSION 0 DTLS1_3_VERSION 0 1,
      group_const 65071 256 TLS1_3_VERSION 0 DTLS1_3_VERSION 0 1,
      group_const 65072 256 TLS1_3_VERSION 0 DTLS1_3_VERSION 0 1,
      group_const 65073 256 TLS1_3_VERSION 0 DTLS1_3_VERSION 0 1,
      group_const 65074 256 TLS1_3_VERSION 0 DTLS1_3_VERSION 0 1,
      group_const 512 128 TLS1_3_VERSION 0 DTLS1_3_VERSION 0 1,
      group_const 0x2f4b 128 TLS1_3_VERSION 0 DTLS1_3_VERSION 0 1,
      group_const 0x2fb6 128 TLS1_3_VERSION 0 DTLS1_3_VERSION 0 1,
      group_const 65056 128 TLS1_3_VERSION 0 DTLS1_3_VERSION 0 1,
      group_const 513 192 TLS1_3_VERSION 0 DTLS1_3_VERSION 0 1,
      group_const 0x2f4c 192 TLS1_3_VERSION 0 DTLS1_3_VERSION 0 1,
      group_const 0x2fb7 192 TLS1_3_VERSION 0 DTLS1_3_VERSION 0 1,
      group_const 65057 192 TLS1_3_VERSION 0 DTLS1_3_VERSION 0 1,
      group_const 0x11ec 192 TLS1_3_VERSION 0 DTLS1_3_VERSION 0 1,
      group_const 0x11eb 192 TLS1_3_VERSION 0 DTLS1_3_VERSION 0 1,
      group_const 514 256 TLS1_3_VERSION 0 DTLS1_3_VERSION 0 1,
      group_const 0x2f4d 256 TLS1_3_VERSION 0 DTLS1_3_VERSION 0 1,
      group_const 0x11ed 256 TLS1_3_VERSION 0 DTLS1_3_VERSION 0 1,
      group_const 65058 256 TLS1_3_VERSION 0 DTLS1_3_VERSION 0 1,
      group_const 65040 128 (-1) 0 (-1) 0 1,
      group_const 65041 128 (-1) 0 (-1) 0 1,
      group_const 65042 128 (-1) 0 (-1) 0 1,
      group_const 65043 192 TLS1_3_VERSION 0 DTLS1_3_VERSION 0 1,
      group_const 65044 192 TLS1_3_VERSION 0 DTLS1_3_VERSION 0 1,
      group_const 65045 192 TLS1_3_VERSION 0 DTLS1_3_VERSION 0 1,
      group_const 65046 256 TLS1_3_VERSION 0 DTLS1_3_VERSION 0 1,
      group_const 65047 256 TLS1_3_VERSION 0 DTLS1_3_VERSION 0 1]"

definition oqs_sigalg_list :: "sigalg_const list" where
  "oqs_sigalg_list =
     [sigalg_const 0x0904 128 TLS1_3_VERSION 0,
      sigalg_const 0xff06 128 TLS1_3_VERSION 0,
      sigalg_const 0xff07 128 TLS1_3_VERSION 0,
      sigalg_const 0x0905 192 TLS1_3_VERSION 0,
      sigalg_const 0xff08 192 TLS1_3_VERSION 0,
      sigalg_const 0x0906 256 TLS1_3_VERSION 0,
      sigalg_const 0xff09 256 TLS1_3_VERSION 0,
      sigalg_const 0xfed7 128 TLS1_3_VERSION 0,
      sigalg_const 0xfed8 128 TLS1_3_VERSION 0,
      sigalg_const 0xfed9 128 TLS1_3_VERSION 0,
      sigalg_const 0xfedc 128 TLS1_3_VERSION 0,
      sigalg_const 0xfedd 128 TLS1_3_VERSION 0,
      sigalg_const 0xfede 128 TLS1_3_VERSION 0,
      sigalg_const 0xfeda 256 TLS1_3_VERSION 0,
      sigalg_const 0xfedb 256 TLS1_3_VERSION 0,
      sigalg_const 0xfedf 256 TLS1_3_VERSION 0,
      sigalg_const 0xfee0 256 TLS1_3_VERSION 0,
      sigalg_const 0xff32 128 TLS1_3_VERSION 0,
      sigalg_const 0xff36 128 TLS1_3_VERSION 0,
      sigalg_const 0xff33 128 TLS1_3_VERSION 0,
      sigalg_const 0xff37 128 TLS1_3_VERSION 0,
      sigalg_const 0xff34 192 TLS1_3_VERSION 0,
      sigalg_const 0xff38 192 TLS1_3_VERSION 0,
      sigalg_const 0xff35 256 TLS1_3_VERSION 0,
      sigalg_const 0xff39 256 TLS1_3_VERSION 0,
      sigalg_const 0xff53 128 TLS1_3_VERSION 0,
      sigalg_const 0xff0e 128 (-1) 0,
      sigalg_const 0xff1a 128 (-1) 0,
      sigalg_const 0xff0f 128 TLS1_3_VERSION 0,
      sigalg_const 0xff1b 128 TLS1_3_VERSION 0,
      sigalg_const 0xff12 128 (-1) 0,
      sigalg_const 0xff1e 128 (-1) 0,
      sigalg_const 0xff13 128 TLS1_3_VERSION 0,
      sigalg_const 0xff1f 128 TLS1_3_VERSION 0,
      sigalg_const 0xff3a 128 TLS1_3_VERSION 0,
      sigalg_const 0xff3b 128 TLS1_3_VERSION 0,
      sigalg_const 0xff3e 128 TLS1_3_VERSION 0,
      sigalg_const 0xff3f 128 TLS1_3_VERSION 0,
      sigalg_const 0xff42 128 TLS1_3_VERSION 0,
      sigalg_const 0xff43 128 TLS1_3_VERSION 0,
      sigalg_const 0xff4c 192 TLS1_3_VERSION 0,
      sigalg_const 0xff4d 192 TLS1_3_VERSION 0,
      sigalg_const 0xff51 256 TLS1_3_VERSION 0,
      sigalg_const 0xff52 256 TLS1_3_VERSION 0,
      sigalg_const 0x0911 128 TLS1_3_VERSION 0,
      sigalg_const 0x0912 128 TLS1_3_VERSION 0,
      sigalg_const 0x0913 192 TLS1_3_VERSION 0,
      sigalg_const 0x0914 192 TLS1_3_VERSION 0,
      sigalg_const 0x0915 256 TLS1_3_VERSION 0,
      sigalg_const 0x0916 256 TLS1_3_VERSION 0,
      sigalg_const 0x0917 128 TLS1_3_VERSION 0,
      sigalg_const 0x0918 128 TLS1_3_VERSION 0,
      sigalg_const 0x0919 192 TLS1_3_VERSION 0,
      sigalg_const 0x091a 192 TLS1_3_VERSION 0,
      sigalg_const 0x091b 256 TLS1_3_VERSION 0,
      sigalg_const 0x091c 256 TLS1_3_VERSION 0]"

subsection \<open>Code points from the environment\<close>

text \<open>\<^verbatim>\<open>atoi\<close>: white space, a sign, digits; a value outside \<^verbatim>\<open>int\<close> is undefined.\<close>

definition is_space :: "char \<Rightarrow> bool" where
  "is_space c \<longleftrightarrow> (let n = (of_char c :: nat) in n = 32 \<or> 9 \<le> n \<and> n \<le> 13)"

definition digit_of :: "char \<Rightarrow> nat option" where
  "digit_of c = (let n = (of_char c :: nat) in if 48 \<le> n \<and> n \<le> 57 then Some (n - 48) else None)"

fun digits_value :: "int \<Rightarrow> string \<Rightarrow> int" where
  "digits_value acc [] = acc"
| "digits_value acc (c # cs) =
     (case digit_of c of None \<Rightarrow> acc | Some d \<Rightarrow> digits_value (10 * acc + int d) cs)"

definition atoi :: "string \<Rightarrow> int res" where
  "atoi s =
     (let t = dropWhile is_space s;
          v = (case t of
                 [] \<Rightarrow> 0
               | c # u \<Rightarrow> if c = CHR ''-'' then - digits_value 0 u
                          else if c = CHR ''+'' then digits_value 0 u else digits_value 0 t)
      in bindR (ensure (- (2 ^ 31) \<le> v \<and> v < 2 ^ 31) UB) (\<lambda>_. Inr v))"

text \<open>
  Overrides of table entries: in the order of the list, the variable's value if the environment
  has it replaces the entry at the index.
\<close>

type_synonym environ = "string \<Rightarrow> string option"

fun patch_table ::
    "('e \<Rightarrow> string \<Rightarrow> 'e res) \<Rightarrow> environ \<Rightarrow> (string \<times> nat) list \<Rightarrow> 'e list \<Rightarrow> 'e list res" where
  "patch_table upd getenv [] tbl = Inr tbl"
| "patch_table upd getenv ((v, i) # vs) tbl =
     (case getenv v of
       None \<Rightarrow> patch_table upd getenv vs tbl
     | Some s \<Rightarrow> bindR (upd (tbl ! i) s) (\<lambda>e. patch_table upd getenv vs (tbl[i := e])))"

definition set_group_id :: "group_const \<Rightarrow> string \<Rightarrow> group_const res" where
  "set_group_id g s = bindR (atoi s) (\<lambda>v. Inr (g\<lparr>gc_group_id := word_of_int v\<rparr>))"

definition set_code_point :: "sigalg_const \<Rightarrow> string \<Rightarrow> sigalg_const res" where
  "set_code_point c s = bindR (atoi s) (\<lambda>v. Inr (c\<lparr>sc_code_point := word_of_int v\<rparr>))"

definition group_codepoint_vars :: "(string \<times> nat) list" where
  "group_codepoint_vars =
     [(''OQS_CODEPOINT_EFRODO640AES'', 0),
      (''OQS_CODEPOINT_P256_EFRODO640AES'', 1),
      (''OQS_CODEPOINT_X25519_EFRODO640AES'', 2),
      (''OQS_CODEPOINT_EFRODO640SHAKE'', 3),
      (''OQS_CODEPOINT_P256_EFRODO640SHAKE'', 4),
      (''OQS_CODEPOINT_X25519_EFRODO640SHAKE'', 5),
      (''OQS_CODEPOINT_EFRODO976AES'', 6),
      (''OQS_CODEPOINT_P384_EFRODO976AES'', 7),
      (''OQS_CODEPOINT_X448_EFRODO976AES'', 8),
      (''OQS_CODEPOINT_EFRODO976SHAKE'', 9),
      (''OQS_CODEPOINT_P384_EFRODO976SHAKE'', 10),
      (''OQS_CODEPOINT_X448_EFRODO976SHAKE'', 11),
      (''OQS_CODEPOINT_EFRODO1344AES'', 12),
      (''OQS_CODEPOINT_P521_EFRODO1344AES'', 13),
      (''OQS_CODEPOINT_EFRODO1344SHAKE'', 14),
      (''OQS_CODEPOINT_P521_EFRODO1344SHAKE'', 15),
      (''OQS_CODEPOINT_FRODO640AES'', 16),
      (''OQS_CODEPOINT_P256_FRODO640AES'', 17),
      (''OQS_CODEPOINT_X25519_FRODO640AES'', 18),
      (''OQS_CODEPOINT_FRODO640SHAKE'', 19),
      (''OQS_CODEPOINT_P256_FRODO640SHAKE'', 20),
      (''OQS_CODEPOINT_X25519_FRODO640SHAKE'', 21),
      (''OQS_CODEPOINT_FRODO976AES'', 22),
      (''OQS_CODEPOINT_P384_FRODO976AES'', 23),
      (''OQS_CODEPOINT_X448_FRODO976AES'', 24),
      (''OQS_CODEPOINT_FRODO976SHAKE'', 25),
      (''OQS_CODEPOINT_P384_FRODO976SHAKE'', 26),
      (''OQS_CODEPOINT_X448_FRODO976SHAKE'', 27),
      (''OQS_CODEPOINT_FRODO1344AES'', 28),
      (''OQS_CODEPOINT_P521_FRODO1344AES'', 29),
      (''OQS_CODEPOINT_FRODO1344SHAKE'', 30),
      (''OQS_CODEPOINT_P521_FRODO1344SHAKE'', 31),
      (''OQS_CODEPOINT_MLKEM512'', 32),
      (''OQS_CODEPOINT_P256_MLKEM512'', 33),
      (''OQS_CODEPOINT_X25519_MLKEM512'', 34),
      (''OQS_CODEPOINT_BP256_MLKEM512'', 35),
      (''OQS_CODEPOINT_MLKEM768'', 36),
      (''OQS_CODEPOINT_P384_MLKEM768'', 37),
      (''OQS_CODEPOINT_X448_MLKEM768'', 38),
      (''OQS_CODEPOINT_BP384_MLKEM768'', 39),
      (''OQS_CODEPOINT_X25519MLKEM768'', 40),
      (''OQS_CODEPOINT_SECP256R1MLKEM768'', 41),
      (''OQS_CODEPOINT_MLKEM1024'', 42),
      (''OQS_CODEPOINT_P521_MLKEM1024'', 43),
      (''OQS_CODEPOINT_SECP384R1MLKEM1024'', 44),
      (''OQS_CODEPOINT_BP512_MLKEM1024'', 45),
      (''OQS_CODEPOINT_BIKEL1'', 46),
      (''OQS_CODEPOINT_P256_BIKEL1'', 47),
      (''OQS_CODEPOINT_X25519_BIKEL1'', 48),
      (''OQS_CODEPOINT_BIKEL3'', 49),
      (''OQS_CODEPOINT_P384_BIKEL3'', 50),
      (''OQS_CODEPOINT_X448_BIKEL3'', 51),
      (''OQS_CODEPOINT_BIKEL5'', 52),
      (''OQS_CODEPOINT_P521_BIKEL5'', 53)]"

definition sigalg_codepoint_vars :: "(string \<times> nat) list" where
  "sigalg_codepoint_vars =
     [(''OQS_CODEPOINT_MLDSA44'', 0),
      (''OQS_CODEPOINT_P256_MLDSA44'', 1),
      (''OQS_CODEPOINT_RSA3072_MLDSA44'', 2),
      (''OQS_CODEPOINT_MLDSA65'', 3),
      (''OQS_CODEPOINT_P384_MLDSA65'', 4),
      (''OQS_CODEPOINT_MLDSA87'', 5),
      (''OQS_CODEPOINT_P521_MLDSA87'', 6),
      (''OQS_CODEPOINT_FALCON512'', 7),
      (''OQS_CODEPOINT_P256_FALCON512'', 8),
      (''OQS_CODEPOINT_RSA3072_FALCON512'', 9),
      (''OQS_CODEPOINT_FALCONPADDED512'', 10),
      (''OQS_CODEPOINT_P256_FALCONPADDED512'', 11),
      (''OQS_CODEPOINT_RSA3072_FALCONPADDED512'', 12),
      (''OQS_CODEPOINT_FALCON1024'', 13),
      (''OQS_CODEPOINT_P521_FALCON1024'', 14),
      (''OQS_CODEPOINT_FALCONPADDED1024'', 15),
      (''OQS_CODEPOINT_P521_FALCONPADDED1024'', 16),
      (''OQS_CODEPOINT_MAYO1'', 17),
      (''OQS_CODEPOINT_P256_MAYO1'', 18),
      (''OQS_CODEPOINT_MAYO2'', 19),
      (''OQS_CODEPOINT_P256_MAYO2'', 20),
      (''OQS_CODEPOINT_MAYO3'', 21),
      (''OQS_CODEPOINT_P384_MAYO3'', 22),
      (''OQS_CODEPOINT_MAYO5'', 23),
      (''OQS_CODEPOINT_P521_MAYO5'', 24),
      (''OQS_CODEPOINT_CROSSRSDP128BALANCED'', 25),
      (''OQS_CODEPOINT_OV_IS_PKC'', 26),
      (''OQS_CODEPOINT_P256_OV_IS_PKC'', 27),
      (''OQS_CODEPOINT_OV_IP_PKC'', 28),
      (''OQS_CODEPOINT_P256_OV_IP_PKC'', 29),
      (''OQS_CODEPOINT_OV_IS_PKC_SKC'', 30),
      (''OQS_CODEPOINT_P256_OV_IS_PKC_SKC'', 31),
      (''OQS_CODEPOINT_OV_IP_PKC_SKC'', 32),
      (''OQS_CODEPOINT_P256_OV_IP_PKC_SKC'', 33),
      (''OQS_CODEPOINT_SNOVA2454'', 34),
      (''OQS_CODEPOINT_P256_SNOVA2454'', 35),
      (''OQS_CODEPOINT_SNOVA2454ESK'', 36),
      (''OQS_CODEPOINT_P256_SNOVA2454ESK'', 37),
      (''OQS_CODEPOINT_SNOVA37172'', 38),
      (''OQS_CODEPOINT_P256_SNOVA37172'', 39),
      (''OQS_CODEPOINT_SNOVA2455'', 40),
      (''OQS_CODEPOINT_P384_SNOVA2455'', 41),
      (''OQS_CODEPOINT_SNOVA2965'', 42),
      (''OQS_CODEPOINT_P521_SNOVA2965'', 43),
      (''OQS_CODEPOINT_SLHDSASHA2128S'', 44),
      (''OQS_CODEPOINT_SLHDSASHA2128F'', 45),
      (''OQS_CODEPOINT_SLHDSASHA2192S'', 46),
      (''OQS_CODEPOINT_SLHDSASHA2192F'', 47),
      (''OQS_CODEPOINT_SLHDSASHA2256S'', 48),
      (''OQS_CODEPOINT_SLHDSASHA2256F'', 49),
      (''OQS_CODEPOINT_SLHDSASHAKE128S'', 50),
      (''OQS_CODEPOINT_SLHDSASHAKE128F'', 51),
      (''OQS_CODEPOINT_SLHDSASHAKE192S'', 52),
      (''OQS_CODEPOINT_SLHDSASHAKE192F'', 53),
      (''OQS_CODEPOINT_SLHDSASHAKE256S'', 54),
      (''OQS_CODEPOINT_SLHDSASHAKE256F'', 55)]"

definition oqs_patch_codepoints ::
    "environ \<Rightarrow> group_const list \<Rightarrow> sigalg_const list \<Rightarrow> (group_const list \<times> sigalg_const list) res" where
  "oqs_patch_codepoints getenv gs ss =
     bindR (patch_table set_group_id getenv group_codepoint_vars gs) (\<lambda>gs.
     bindR (patch_table set_code_point getenv sigalg_codepoint_vars ss) (\<lambda>ss. Inr (gs, ss)))"

subsection \<open>The parameter tables\<close>

text \<open>A row names the group and points into the table of constants at an index.\<close>

record group_param =
  gp_name :: string
  gp_internal :: string
  gp_alg :: string
  gp_idx :: nat

definition OQS_GROUP_ENTRY :: "string \<Rightarrow> string \<Rightarrow> string \<Rightarrow> nat \<Rightarrow> group_param" where
  "OQS_GROUP_ENTRY tls real alg i = \<lparr>gp_name = tls, gp_internal = real, gp_alg = alg, gp_idx = i\<rparr>"

record sigalg_param =
  sp_iana_name :: string
  sp_name :: string
  sp_oid :: string
  sp_idx :: nat

text \<open>
  The preprocessor's \<^verbatim>\<open>#oid\<close> of an argument that is itself a string literal is the literal's source
  text, quotation marks included.
\<close>

definition stringify_literal :: "string \<Rightarrow> string" where
  "stringify_literal s = CHR 0x22 # s @ [CHR 0x22]"

definition OQS_SIGALG_ENTRY :: "string \<Rightarrow> string \<Rightarrow> string \<Rightarrow> string \<Rightarrow> nat \<Rightarrow> sigalg_param" where
  "OQS_SIGALG_ENTRY tls real alg oid i =
     \<lparr>sp_iana_name = tls, sp_name = tls, sp_oid = stringify_literal oid, sp_idx = i\<rparr>"

text \<open>The rows that the preprocessor keeps.\<close>

definition compiled :: "(string \<Rightarrow> bool) \<Rightarrow> (string \<times> 'r list) list \<Rightarrow> 'r list" where
  "compiled enabled tbl = concat (map snd (filter (\<lambda>(m, _). enabled m) tbl))"

definition oqs_param_group_list :: "(string \<times> group_param list) list" where
  "oqs_param_group_list =
     [(''OQS_ENABLE_KEM_efrodokem_640_aes'',
       [OQS_GROUP_ENTRY ''efrodo640aes'' ''efrodo640aes'' ''efrodo640aes'' 0,
        OQS_GROUP_ENTRY ''p256_efrodo640aes'' ''p256_efrodo640aes'' ''p256_efrodo640aes'' 1,
        OQS_GROUP_ENTRY ''x25519_efrodo640aes'' ''x25519_efrodo640aes'' ''x25519_efrodo640aes'' 2]),
      (''OQS_ENABLE_KEM_efrodokem_640_shake'',
       [OQS_GROUP_ENTRY ''efrodo640shake'' ''efrodo640shake'' ''efrodo640shake'' 3,
        OQS_GROUP_ENTRY ''p256_efrodo640shake'' ''p256_efrodo640shake'' ''p256_efrodo640shake'' 4,
        OQS_GROUP_ENTRY ''x25519_efrodo640shake'' ''x25519_efrodo640shake'' ''x25519_efrodo640shake'' 5]),
      (''OQS_ENABLE_KEM_efrodokem_976_aes'',
       [OQS_GROUP_ENTRY ''efrodo976aes'' ''efrodo976aes'' ''efrodo976aes'' 6,
        OQS_GROUP_ENTRY ''p384_efrodo976aes'' ''p384_efrodo976aes'' ''p384_efrodo976aes'' 7,
        OQS_GROUP_ENTRY ''x448_efrodo976aes'' ''x448_efrodo976aes'' ''x448_efrodo976aes'' 8]),
      (''OQS_ENABLE_KEM_efrodokem_976_shake'',
       [OQS_GROUP_ENTRY ''efrodo976shake'' ''efrodo976shake'' ''efrodo976shake'' 9,
        OQS_GROUP_ENTRY ''p384_efrodo976shake'' ''p384_efrodo976shake'' ''p384_efrodo976shake'' 10,
        OQS_GROUP_ENTRY ''x448_efrodo976shake'' ''x448_efrodo976shake'' ''x448_efrodo976shake'' 11]),
      (''OQS_ENABLE_KEM_efrodokem_1344_aes'',
       [OQS_GROUP_ENTRY ''efrodo1344aes'' ''efrodo1344aes'' ''efrodo1344aes'' 12,
        OQS_GROUP_ENTRY ''p521_efrodo1344aes'' ''p521_efrodo1344aes'' ''p521_efrodo1344aes'' 13]),
      (''OQS_ENABLE_KEM_efrodokem_1344_shake'',
       [OQS_GROUP_ENTRY ''efrodo1344shake'' ''efrodo1344shake'' ''efrodo1344shake'' 14,
        OQS_GROUP_ENTRY ''p521_efrodo1344shake'' ''p521_efrodo1344shake'' ''p521_efrodo1344shake'' 15]),
      (''OQS_ENABLE_KEM_frodokem_640_aes'',
       [OQS_GROUP_ENTRY ''frodo640aes'' ''frodo640aes'' ''frodo640aes'' 16,
        OQS_GROUP_ENTRY ''p256_frodo640aes'' ''p256_frodo640aes'' ''p256_frodo640aes'' 17,
        OQS_GROUP_ENTRY ''x25519_frodo640aes'' ''x25519_frodo640aes'' ''x25519_frodo640aes'' 18]),
      (''OQS_ENABLE_KEM_frodokem_640_shake'',
       [OQS_GROUP_ENTRY ''frodo640shake'' ''frodo640shake'' ''frodo640shake'' 19,
        OQS_GROUP_ENTRY ''p256_frodo640shake'' ''p256_frodo640shake'' ''p256_frodo640shake'' 20,
        OQS_GROUP_ENTRY ''x25519_frodo640shake'' ''x25519_frodo640shake'' ''x25519_frodo640shake'' 21]),
      (''OQS_ENABLE_KEM_frodokem_976_aes'',
       [OQS_GROUP_ENTRY ''frodo976aes'' ''frodo976aes'' ''frodo976aes'' 22,
        OQS_GROUP_ENTRY ''p384_frodo976aes'' ''p384_frodo976aes'' ''p384_frodo976aes'' 23,
        OQS_GROUP_ENTRY ''x448_frodo976aes'' ''x448_frodo976aes'' ''x448_frodo976aes'' 24]),
      (''OQS_ENABLE_KEM_frodokem_976_shake'',
       [OQS_GROUP_ENTRY ''frodo976shake'' ''frodo976shake'' ''frodo976shake'' 25,
        OQS_GROUP_ENTRY ''p384_frodo976shake'' ''p384_frodo976shake'' ''p384_frodo976shake'' 26,
        OQS_GROUP_ENTRY ''x448_frodo976shake'' ''x448_frodo976shake'' ''x448_frodo976shake'' 27]),
      (''OQS_ENABLE_KEM_frodokem_1344_aes'',
       [OQS_GROUP_ENTRY ''frodo1344aes'' ''frodo1344aes'' ''frodo1344aes'' 28,
        OQS_GROUP_ENTRY ''p521_frodo1344aes'' ''p521_frodo1344aes'' ''p521_frodo1344aes'' 29]),
      (''OQS_ENABLE_KEM_frodokem_1344_shake'',
       [OQS_GROUP_ENTRY ''frodo1344shake'' ''frodo1344shake'' ''frodo1344shake'' 30,
        OQS_GROUP_ENTRY ''p521_frodo1344shake'' ''p521_frodo1344shake'' ''p521_frodo1344shake'' 31]),
      (''OQS_ENABLE_KEM_ml_kem_512'',
       [OQS_GROUP_ENTRY ''mlkem512'' ''mlkem512'' ''mlkem512'' 32,
        OQS_GROUP_ENTRY ''p256_mlkem512'' ''p256_mlkem512'' ''p256_mlkem512'' 33,
        OQS_GROUP_ENTRY ''x25519_mlkem512'' ''x25519_mlkem512'' ''x25519_mlkem512'' 34,
        OQS_GROUP_ENTRY ''bp256_mlkem512'' ''bp256_mlkem512'' ''bp256_mlkem512'' 35]),
      (''OQS_ENABLE_KEM_ml_kem_768'',
       [OQS_GROUP_ENTRY ''mlkem768'' ''mlkem768'' ''mlkem768'' 36,
        OQS_GROUP_ENTRY ''p384_mlkem768'' ''p384_mlkem768'' ''p384_mlkem768'' 37,
        OQS_GROUP_ENTRY ''x448_mlkem768'' ''x448_mlkem768'' ''x448_mlkem768'' 38,
        OQS_GROUP_ENTRY ''bp384_mlkem768'' ''bp384_mlkem768'' ''bp384_mlkem768'' 39,
        OQS_GROUP_ENTRY ''X25519MLKEM768'' ''X25519MLKEM768'' ''X25519MLKEM768'' 40,
        OQS_GROUP_ENTRY ''SecP256r1MLKEM768'' ''SecP256r1MLKEM768'' ''SecP256r1MLKEM768'' 41]),
      (''OQS_ENABLE_KEM_ml_kem_1024'',
       [OQS_GROUP_ENTRY ''mlkem1024'' ''mlkem1024'' ''mlkem1024'' 42,
        OQS_GROUP_ENTRY ''p521_mlkem1024'' ''p521_mlkem1024'' ''p521_mlkem1024'' 43,
        OQS_GROUP_ENTRY ''SecP384r1MLKEM1024'' ''SecP384r1MLKEM1024'' ''SecP384r1MLKEM1024'' 44,
        OQS_GROUP_ENTRY ''bp512_mlkem1024'' ''bp512_mlkem1024'' ''bp512_mlkem1024'' 45]),
      (''OQS_ENABLE_KEM_bike_l1'',
       [OQS_GROUP_ENTRY ''bikel1'' ''bikel1'' ''bikel1'' 46,
        OQS_GROUP_ENTRY ''p256_bikel1'' ''p256_bikel1'' ''p256_bikel1'' 47,
        OQS_GROUP_ENTRY ''x25519_bikel1'' ''x25519_bikel1'' ''x25519_bikel1'' 48]),
      (''OQS_ENABLE_KEM_bike_l3'',
       [OQS_GROUP_ENTRY ''bikel3'' ''bikel3'' ''bikel3'' 49,
        OQS_GROUP_ENTRY ''p384_bikel3'' ''p384_bikel3'' ''p384_bikel3'' 50,
        OQS_GROUP_ENTRY ''x448_bikel3'' ''x448_bikel3'' ''x448_bikel3'' 51]),
      (''OQS_ENABLE_KEM_bike_l5'',
       [OQS_GROUP_ENTRY ''bikel5'' ''bikel5'' ''bikel5'' 52,
        OQS_GROUP_ENTRY ''p521_bikel5'' ''p521_bikel5'' ''p521_bikel5'' 53])]"

definition oqs_param_sigalg_list :: "(string \<times> sigalg_param list) list" where
  "oqs_param_sigalg_list =
     [(''OQS_ENABLE_SIG_ml_dsa_44'',
       [OQS_SIGALG_ENTRY ''mldsa44'' ''mldsa44'' ''mldsa44'' ''2.16.840.1.101.3.4.3.17'' 0,
        OQS_SIGALG_ENTRY ''p256_mldsa44'' ''p256_mldsa44'' ''p256_mldsa44'' ''1.3.9999.7.5'' 1,
        OQS_SIGALG_ENTRY ''rsa3072_mldsa44'' ''rsa3072_mldsa44'' ''rsa3072_mldsa44'' ''1.3.9999.7.6'' 2]),
      (''OQS_ENABLE_SIG_ml_dsa_65'',
       [OQS_SIGALG_ENTRY ''mldsa65'' ''mldsa65'' ''mldsa65'' ''2.16.840.1.101.3.4.3.18'' 3,
        OQS_SIGALG_ENTRY ''p384_mldsa65'' ''p384_mldsa65'' ''p384_mldsa65'' ''1.3.9999.7.7'' 4]),
      (''OQS_ENABLE_SIG_ml_dsa_87'',
       [OQS_SIGALG_ENTRY ''mldsa87'' ''mldsa87'' ''mldsa87'' ''2.16.840.1.101.3.4.3.19'' 5,
        OQS_SIGALG_ENTRY ''p521_mldsa87'' ''p521_mldsa87'' ''p521_mldsa87'' ''1.3.9999.7.8'' 6]),
      (''OQS_ENABLE_SIG_falcon_512'',
       [OQS_SIGALG_ENTRY ''falcon512'' ''falcon512'' ''falcon512'' ''1.3.9999.3.11'' 7,
        OQS_SIGALG_ENTRY ''p256_falcon512'' ''p256_falcon512'' ''p256_falcon512'' ''1.3.9999.3.12'' 8,
        OQS_SIGALG_ENTRY ''rsa3072_falcon512'' ''rsa3072_falcon512'' ''rsa3072_falcon512'' ''1.3.9999.3.13'' 9]),
      (''OQS_ENABLE_SIG_falcon_padded_512'',
       [OQS_SIGALG_ENTRY ''falconpadded512'' ''falconpadded512'' ''falconpadded512'' ''1.3.9999.3.16'' 10,
        OQS_SIGALG_ENTRY ''p256_falconpadded512'' ''p256_falconpadded512'' ''p256_falconpadded512'' ''1.3.9999.3.17'' 11,
        OQS_SIGALG_ENTRY ''rsa3072_falconpadded512'' ''rsa3072_falconpadded512'' ''rsa3072_falconpadded512'' ''1.3.9999.3.18'' 12]),
      (''OQS_ENABLE_SIG_falcon_1024'',
       [OQS_SIGALG_ENTRY ''falcon1024'' ''falcon1024'' ''falcon1024'' ''1.3.9999.3.14'' 13,
        OQS_SIGALG_ENTRY ''p521_falcon1024'' ''p521_falcon1024'' ''p521_falcon1024'' ''1.3.9999.3.15'' 14]),
      (''OQS_ENABLE_SIG_falcon_padded_1024'',
       [OQS_SIGALG_ENTRY ''falconpadded1024'' ''falconpadded1024'' ''falconpadded1024'' ''1.3.9999.3.19'' 15,
        OQS_SIGALG_ENTRY ''p521_falconpadded1024'' ''p521_falconpadded1024'' ''p521_falconpadded1024'' ''1.3.9999.3.20'' 16]),
      (''OQS_ENABLE_SIG_mayo_1'',
       [OQS_SIGALG_ENTRY ''mayo1'' ''mayo1'' ''mayo1'' ''1.3.9999.8.1.3'' 17,
        OQS_SIGALG_ENTRY ''p256_mayo1'' ''p256_mayo1'' ''p256_mayo1'' ''1.3.9999.8.1.4'' 18]),
      (''OQS_ENABLE_SIG_mayo_2'',
       [OQS_SIGALG_ENTRY ''mayo2'' ''mayo2'' ''mayo2'' ''1.3.9999.8.2.3'' 19,
        OQS_SIGALG_ENTRY ''p256_mayo2'' ''p256_mayo2'' ''p256_mayo2'' ''1.3.9999.8.2.4'' 20]),
      (''OQS_ENABLE_SIG_mayo_3'',
       [OQS_SIGALG_ENTRY ''mayo3'' ''mayo3'' ''mayo3'' ''1.3.9999.8.3.3'' 21,
        OQS_SIGALG_ENTRY ''p384_mayo3'' ''p384_mayo3'' ''p384_mayo3'' ''1.3.9999.8.3.4'' 22]),
      (''OQS_ENABLE_SIG_mayo_5'',
       [OQS_SIGALG_ENTRY ''mayo5'' ''mayo5'' ''mayo5'' ''1.3.9999.8.5.3'' 23,
        OQS_SIGALG_ENTRY ''p521_mayo5'' ''p521_mayo5'' ''p521_mayo5'' ''1.3.9999.8.5.4'' 24]),
      (''OQS_ENABLE_SIG_cross_rsdp_128_balanced'',
       [OQS_SIGALG_ENTRY ''CROSSrsdp128balanced'' ''CROSSrsdp128balanced'' ''CROSSrsdp128balanced'' ''1.3.6.1.4.1.62245.2.1.1.2.2'' 25]),
      (''OQS_ENABLE_SIG_uov_ov_Is_pkc'',
       [OQS_SIGALG_ENTRY ''OV_Is_pkc'' ''OV_Is_pkc'' ''OV_Is_pkc'' ''1.3.9999.9.5.1'' 26,
        OQS_SIGALG_ENTRY ''p256_OV_Is_pkc'' ''p256_OV_Is_pkc'' ''p256_OV_Is_pkc'' ''1.3.9999.9.5.2'' 27]),
      (''OQS_ENABLE_SIG_uov_ov_Ip_pkc'',
       [OQS_SIGALG_ENTRY ''OV_Ip_pkc'' ''OV_Ip_pkc'' ''OV_Ip_pkc'' ''1.3.9999.9.6.1'' 28,
        OQS_SIGALG_ENTRY ''p256_OV_Ip_pkc'' ''p256_OV_Ip_pkc'' ''p256_OV_Ip_pkc'' ''1.3.9999.9.6.2'' 29]),
      (''OQS_ENABLE_SIG_uov_ov_Is_pkc_skc'',
       [OQS_SIGALG_ENTRY ''OV_Is_pkc_skc'' ''OV_Is_pkc_skc'' ''OV_Is_pkc_skc'' ''1.3.9999.9.9.1'' 30,
        OQS_SIGALG_ENTRY ''p256_OV_Is_pkc_skc'' ''p256_OV_Is_pkc_skc'' ''p256_OV_Is_pkc_skc'' ''1.3.9999.9.9.2'' 31]),
      (''OQS_ENABLE_SIG_uov_ov_Ip_pkc_skc'',
       [OQS_SIGALG_ENTRY ''OV_Ip_pkc_skc'' ''OV_Ip_pkc_skc'' ''OV_Ip_pkc_skc'' ''1.3.9999.9.10.1'' 32,
        OQS_SIGALG_ENTRY ''p256_OV_Ip_pkc_skc'' ''p256_OV_Ip_pkc_skc'' ''p256_OV_Ip_pkc_skc'' ''1.3.9999.9.10.2'' 33]),
      (''OQS_ENABLE_SIG_snova_SNOVA_24_5_4'',
       [OQS_SIGALG_ENTRY ''snova2454'' ''snova2454'' ''snova2454'' ''1.3.9999.10.1.1'' 34,
        OQS_SIGALG_ENTRY ''p256_snova2454'' ''p256_snova2454'' ''p256_snova2454'' ''1.3.9999.10.1.2'' 35]),
      (''OQS_ENABLE_SIG_snova_SNOVA_24_5_4_esk'',
       [OQS_SIGALG_ENTRY ''snova2454esk'' ''snova2454esk'' ''snova2454esk'' ''1.3.9999.10.3.1'' 36,
        OQS_SIGALG_ENTRY ''p256_snova2454esk'' ''p256_snova2454esk'' ''p256_snova2454esk'' ''1.3.9999.10.3.2'' 37]),
      (''OQS_ENABLE_SIG_snova_SNOVA_37_17_2'',
       [OQS_SIGALG_ENTRY ''snova37172'' ''snova37172'' ''snova37172'' ''1.3.9999.10.5.1'' 38,
        OQS_SIGALG_ENTRY ''p256_snova37172'' ''p256_snova37172'' ''p256_snova37172'' ''1.3.9999.10.5.2'' 39]),
      (''OQS_ENABLE_SIG_snova_SNOVA_24_5_5'',
       [OQS_SIGALG_ENTRY ''snova2455'' ''snova2455'' ''snova2455'' ''1.3.9999.10.10.1'' 40,
        OQS_SIGALG_ENTRY ''p384_snova2455'' ''p384_snova2455'' ''p384_snova2455'' ''1.3.9999.10.10.2'' 41]),
      (''OQS_ENABLE_SIG_snova_SNOVA_29_6_5'',
       [OQS_SIGALG_ENTRY ''snova2965'' ''snova2965'' ''snova2965'' ''1.3.9999.10.12.1'' 42,
        OQS_SIGALG_ENTRY ''p521_snova2965'' ''p521_snova2965'' ''p521_snova2965'' ''1.3.9999.10.12.2'' 43]),
      (''OQS_ENABLE_SIG_slh_dsa_pure_sha2_128s'',
       [OQS_SIGALG_ENTRY ''slhdsasha2128s'' ''slhdsasha2128s'' ''slhdsasha2128s'' ''2.16.840.1.101.3.4.3.20'' 44]),
      (''OQS_ENABLE_SIG_slh_dsa_pure_sha2_128f'',
       [OQS_SIGALG_ENTRY ''slhdsasha2128f'' ''slhdsasha2128f'' ''slhdsasha2128f'' ''2.16.840.1.101.3.4.3.21'' 45]),
      (''OQS_ENABLE_SIG_slh_dsa_pure_sha2_192s'',
       [OQS_SIGALG_ENTRY ''slhdsasha2192s'' ''slhdsasha2192s'' ''slhdsasha2192s'' ''2.16.840.1.101.3.4.3.22'' 46]),
      (''OQS_ENABLE_SIG_slh_dsa_pure_sha2_192f'',
       [OQS_SIGALG_ENTRY ''slhdsasha2192f'' ''slhdsasha2192f'' ''slhdsasha2192f'' ''2.16.840.1.101.3.4.3.23'' 47]),
      (''OQS_ENABLE_SIG_slh_dsa_pure_sha2_256s'',
       [OQS_SIGALG_ENTRY ''slhdsasha2256s'' ''slhdsasha2256s'' ''slhdsasha2256s'' ''2.16.840.1.101.3.4.3.24'' 48]),
      (''OQS_ENABLE_SIG_slh_dsa_pure_sha2_256f'',
       [OQS_SIGALG_ENTRY ''slhdsasha2256f'' ''slhdsasha2256f'' ''slhdsasha2256f'' ''2.16.840.1.101.3.4.3.25'' 49]),
      (''OQS_ENABLE_SIG_slh_dsa_pure_shake_128s'',
       [OQS_SIGALG_ENTRY ''slhdsashake128s'' ''slhdsashake128s'' ''slhdsashake128s'' ''2.16.840.1.101.3.4.3.26'' 50]),
      (''OQS_ENABLE_SIG_slh_dsa_pure_shake_128f'',
       [OQS_SIGALG_ENTRY ''slhdsashake128f'' ''slhdsashake128f'' ''slhdsashake128f'' ''2.16.840.1.101.3.4.3.27'' 51]),
      (''OQS_ENABLE_SIG_slh_dsa_pure_shake_192s'',
       [OQS_SIGALG_ENTRY ''slhdsashake192s'' ''slhdsashake192s'' ''slhdsashake192s'' ''2.16.840.1.101.3.4.3.28'' 52]),
      (''OQS_ENABLE_SIG_slh_dsa_pure_shake_192f'',
       [OQS_SIGALG_ENTRY ''slhdsashake192f'' ''slhdsashake192f'' ''slhdsashake192f'' ''2.16.840.1.101.3.4.3.29'' 53]),
      (''OQS_ENABLE_SIG_slh_dsa_pure_shake_256s'',
       [OQS_SIGALG_ENTRY ''slhdsashake256s'' ''slhdsashake256s'' ''slhdsashake256s'' ''2.16.840.1.101.3.4.3.30'' 54]),
      (''OQS_ENABLE_SIG_slh_dsa_pure_shake_256f'',
       [OQS_SIGALG_ENTRY ''slhdsashake256f'' ''slhdsashake256f'' ''slhdsashake256f'' ''2.16.840.1.101.3.4.3.31'' 55])]"

subsection \<open>Enumeration\<close>

text \<open>
  The loop of both capabilities: it passes over the disabled rows and stops with 0 at the first row the
  callback refuses. The second component is the rows the callback saw.
\<close>

fun capability_loop :: "(string \<Rightarrow> bool) \<Rightarrow> ('r \<Rightarrow> string) \<Rightarrow> ('r \<Rightarrow> bool) \<Rightarrow> 'r list \<Rightarrow> int \<times> 'r list" where
  "capability_loop disabled name cb [] = (1, [])"
| "capability_loop disabled name cb (r # rs) =
     (if disabled (name r) then capability_loop disabled name cb rs
      else if cb r then (let (ret, seen) = capability_loop disabled name cb rs in (ret, r # seen))
      else (0, [r]))"

text \<open>What the callback reads through the row's pointers.\<close>

datatype capability =
    TlsGroup string string string group_const
  | TlsSigalg string string string sigalg_const

definition group_capability :: "group_const list \<Rightarrow> group_param \<Rightarrow> capability" where
  "group_capability gs p = TlsGroup (gp_name p) (gp_internal p) (gp_alg p) (gs ! gp_idx p)"

definition sigalg_capability :: "sigalg_const list \<Rightarrow> sigalg_param \<Rightarrow> capability" where
  "sigalg_capability ss p = TlsSigalg (sp_iana_name p) (sp_name p) (sp_oid p) (ss ! sp_idx p)"

definition oqs_group_capability ::
    "(string \<Rightarrow> bool) \<Rightarrow> (string \<Rightarrow> bool) \<Rightarrow> group_const list \<Rightarrow> (capability \<Rightarrow> bool) \<Rightarrow> int \<times> capability list" where
  "oqs_group_capability enabled disabled gs cb =
     (let (ret, seen) = capability_loop disabled gp_alg (cb \<circ> group_capability gs)
        (compiled enabled oqs_param_group_list)
      in (ret, map (group_capability gs) seen))"

definition oqs_sigalg_capability ::
    "(string \<Rightarrow> bool) \<Rightarrow> (string \<Rightarrow> bool) \<Rightarrow> sigalg_const list \<Rightarrow> (capability \<Rightarrow> bool) \<Rightarrow> int \<times> capability list" where
  "oqs_sigalg_capability enabled disabled ss cb =
     (let (ret, seen) = capability_loop disabled sp_name (cb \<circ> sigalg_capability ss)
        (compiled enabled oqs_param_sigalg_list)
      in (ret, map (sigalg_capability ss) seen))"

definition oqs_provider_get_capabilities ::
    "(string \<Rightarrow> bool) \<Rightarrow> (string \<Rightarrow> bool) \<Rightarrow> group_const list \<Rightarrow> sigalg_const list \<Rightarrow> string
      \<Rightarrow> (capability \<Rightarrow> bool) \<Rightarrow> int \<times> capability list" where
  "oqs_provider_get_capabilities enabled disabled gs ss cap cb =
     (if strcasecmp_eq cap ''TLS-GROUP'' then oqs_group_capability enabled disabled gs cb
      else if strcasecmp_eq cap ''TLS-SIGALG'' then oqs_sigalg_capability enabled disabled ss cb
      else (0, []))"

subsection \<open>Overrides reach the entry their name announces\<close>

definition accepts :: "('e \<Rightarrow> string \<Rightarrow> 'e res) \<Rightarrow> environ \<Rightarrow> string list \<Rightarrow> bool" where
  "accepts upd getenv vars \<longleftrightarrow> (\<forall>v \<in> set vars. \<forall>s. getenv v = Some s \<longrightarrow> (\<forall>e. \<exists>e'. upd e s = Inr e'))"

lemma accepts_Cons [simp]:
  "accepts upd getenv (v # vs) \<longleftrightarrow>
     accepts upd getenv vs \<and> (\<forall>s. getenv v = Some s \<longrightarrow> (\<forall>e. \<exists>e'. upd e s = Inr e'))"
  by (auto simp: accepts_def)

lemma patch_table_nth:
  assumes "distinct (map snd vs)" and "\<forall>(v, i) \<in> set vs. i < length tbl"
    and "accepts upd getenv (map fst vs)"
  shows "\<exists>t. patch_table upd getenv vs tbl = Inr t \<and> length t = length tbl \<and>
     (\<forall>j < length tbl. t ! j =
       (case Option.bind (map_of (map prod.swap vs) j) getenv of
          None \<Rightarrow> tbl ! j | Some s \<Rightarrow> projr (upd (tbl ! j) s)))"
  using assms
proof (induction vs arbitrary: tbl)
  case (Cons x vs)
  obtain v i where x: "x = (v, i)"
    by (cases x)
  have i: "i < length tbl" "i \<notin> snd ` set vs" "distinct (map snd vs)"
    and vs: "\<forall>(v, i) \<in> set vs. i < length tbl" and ok: "accepts upd getenv (map fst vs)"
    using Cons.prems x by auto
  have out: "map_of (map prod.swap vs) i = None"
    using i(2) by (auto simp: map_of_eq_None_iff image_image)
  show ?case
  proof (cases "getenv v")
    case None
    from Cons.IH [OF i(3) vs ok] show ?thesis
      using None out x by (auto split: option.splits)
  next
    case (Some s)
    obtain e where e: "upd (tbl ! i) s = Inr e"
      using Cons.prems(3) Some x by auto
    have "\<forall>(v, j) \<in> set vs. j < length (tbl[i := e])"
      using vs by auto
    from Cons.IH [OF i(3) this ok] show ?thesis
      using Some e x out i(1) by (auto split: option.splits)
  qed
qed simp

text \<open>The variable that overrides the code point of a TLS name.\<close>

definition codepoint_var :: "string \<Rightarrow> string" where
  "codepoint_var n = ''OQS_CODEPOINT_'' @ map toupper_char n"

definition overridden :: "('e \<Rightarrow> string \<Rightarrow> 'e res) \<Rightarrow> environ \<Rightarrow> string \<Rightarrow> 'e \<Rightarrow> 'e" where
  "overridden upd getenv v e = (case getenv v of None \<Rightarrow> e | Some s \<Rightarrow> projr (upd e s))"

abbreviation all_groups :: "group_param list" where
  "all_groups \<equiv> compiled (\<lambda>_. True) oqs_param_group_list"

abbreviation all_sigalgs :: "sigalg_param list" where
  "all_sigalgs \<equiv> compiled (\<lambda>_. True) oqs_param_sigalg_list"

lemma length_const_tables [simp]: "length oqs_group_list = 54" "length oqs_sigalg_list = 56"
  by (simp_all add: oqs_group_list_def oqs_sigalg_list_def)

lemma toupper_all:
  "map toupper_char ''abcdefghijklmnopqrstuvwxyz'' = ''ABCDEFGHIJKLMNOPQRSTUVWXYZ''"
  "map toupper_char ''ABCDEFGHIJKLMNOPQRSTUVWXYZ0123456789_'' = ''ABCDEFGHIJKLMNOPQRSTUVWXYZ0123456789_''"
  by code_simp+

lemmas toupper_lits = toupper_all [simplified]

lemma group_tables_agree:
  "map gp_idx all_groups = [0..<54]" "map snd group_codepoint_vars = [0..<54]"
  "map (\<lambda>p. codepoint_var (gp_name p)) all_groups = map fst group_codepoint_vars"
  by (simp_all add: compiled_def oqs_param_group_list_def group_codepoint_vars_def OQS_GROUP_ENTRY_def upt_rec
      codepoint_var_def toupper_lits)

lemma sigalg_tables_agree:
  "map sp_idx all_sigalgs = [0..<56]" "map snd sigalg_codepoint_vars = [0..<56]"
  "map (\<lambda>p. codepoint_var (sp_name p)) all_sigalgs = map fst sigalg_codepoint_vars"
  by (simp_all add: compiled_def oqs_param_sigalg_list_def sigalg_codepoint_vars_def OQS_SIGALG_ENTRY_def upt_rec
      codepoint_var_def toupper_lits)

text \<open>A patched table, read through rows that name the variables in the order of the table.\<close>

lemma patch_table_rows:
  assumes "map idx rows = [0..<n]" and "map snd vs = [0..<n]" and "map var rows = map fst vs"
    and "length tbl = n" and "accepts upd getenv (map var rows)"
  shows "\<exists>t. patch_table upd getenv vs tbl = Inr t \<and>
     (\<forall>p \<in> set rows. t ! idx p = overridden upd getenv (var p) (tbl ! idx p))"
proof -
  have n: "length rows = n" "length vs = n"
    using arg_cong [OF assms(1), of length] arg_cong [OF assms(2), of length] by simp_all
  have d: "distinct (map snd vs)"
    using assms(2) by simp
  have "\<forall>i \<in> set (map snd vs). i < length tbl"
    unfolding assms(2) using assms(4) by simp
  then have b: "\<forall>(v, i) \<in> set vs. i < length tbl"
    by auto
  obtain t where t: "patch_table upd getenv vs tbl = Inr t"
      "\<And>j. j < length tbl \<Longrightarrow> t ! j = (case Option.bind (map_of (map prod.swap vs) j) getenv of
         None \<Rightarrow> tbl ! j | Some s \<Rightarrow> projr (upd (tbl ! j) s))"
    using patch_table_nth [OF d b assms(5) [unfolded assms(3)]] by blast
  have "t ! idx p = overridden upd getenv (var p) (tbl ! idx p)" if p: "p \<in> set rows" for p
  proof -
    obtain k where k: "k < n" "p = rows ! k"
      using p n by (auto simp: in_set_conv_nth)
    have "idx p = k" "snd (vs ! k) = k" "var p = fst (vs ! k)"
      using k n arg_cong [OF assms(1), of "\<lambda>l. l ! k"] arg_cong [OF assms(2), of "\<lambda>l. l ! k"]
        arg_cong [OF assms(3), of "\<lambda>l. l ! k"] by simp_all
    moreover have "map_of (map prod.swap vs) (snd (vs ! k)) = Some (fst (vs ! k))"
      using d k(1) n by (intro map_of_is_SomeI) (auto simp: comp_def in_set_conv_nth prod_eq_iff intro!: exI [of _ k])
    ultimately show ?thesis
      using t(2) [of k] k(1) assms(4) by (simp add: overridden_def split: option.splits)
  qed
  with t(1) show ?thesis
    by blast
qed

lemma set_code_total:
  assumes "\<And>n s. getenv (codepoint_var n) = Some s \<Longrightarrow> \<exists>i. atoi s = Inr i"
  shows "accepts set_group_id getenv (map (\<lambda>p. codepoint_var (f p)) rows)"
    "accepts set_code_point getenv (map (\<lambda>p. codepoint_var (f p)) rows)"
  using assms by (fastforce simp: accepts_def set_group_id_def set_code_point_def bindR_eq_Inr)+

text \<open>
  C39: when every code point variable that is set holds a number in the range of \<^verbatim>\<open>int\<close>, the overriding of the code points succeeds and the
  entry that each TLS group and each TLS signature algorithm points to holds the value of the variable
  named after it, or its original value; nothing else of an entry changes.
\<close>

theorem codepoints_patched:
  assumes "\<And>n s. getenv (codepoint_var n) = Some s \<Longrightarrow> \<exists>i. atoi s = Inr i"
  shows "\<exists>gs ss. oqs_patch_codepoints getenv oqs_group_list oqs_sigalg_list = Inr (gs, ss) \<and>
     (\<forall>p \<in> set all_groups. gs ! gp_idx p =
        overridden set_group_id getenv (codepoint_var (gp_name p)) (oqs_group_list ! gp_idx p)) \<and>
     (\<forall>p \<in> set all_sigalgs. ss ! sp_idx p =
        overridden set_code_point getenv (codepoint_var (sp_name p)) (oqs_sigalg_list ! sp_idx p))"
proof -
  have a: "accepts set_group_id getenv (map (\<lambda>p. codepoint_var (gp_name p)) all_groups)"
    "accepts set_code_point getenv (map (\<lambda>p. codepoint_var (sp_name p)) all_sigalgs)"
    using set_code_total [of getenv] assms by blast+
  obtain gs where "patch_table set_group_id getenv group_codepoint_vars oqs_group_list = Inr gs"
      "\<forall>p \<in> set all_groups. gs ! gp_idx p =
        overridden set_group_id getenv (codepoint_var (gp_name p)) (oqs_group_list ! gp_idx p)"
    using patch_table_rows [OF group_tables_agree length_const_tables(1) a(1)]
    by blast
  moreover obtain ss where "patch_table set_code_point getenv sigalg_codepoint_vars oqs_sigalg_list = Inr ss"
      "\<forall>p \<in> set all_sigalgs. ss ! sp_idx p =
        overridden set_code_point getenv (codepoint_var (sp_name p)) (oqs_sigalg_list ! sp_idx p)"
    using patch_table_rows [OF sigalg_tables_agree length_const_tables(2) a(2)]
    by blast
  ultimately show ?thesis
    by (simp add: oqs_patch_codepoints_def)
qed

definition sample_environ :: environ where
  "sample_environ =
     [''OQS_CODEPOINT_MLKEM768'' \<mapsto> '' 1234'', ''OQS_CODEPOINT_MLDSA44'' \<mapsto> ''-1x'',
      ''OQS_OID_MLKEM768'' \<mapsto> ''1.2.3'']"

lemma sample_atoi: "atoi '' 1234'' = Inr 1234" "atoi ''-1x'' = Inr (-1)"
  by code_simp+

lemma sample_environ_ok: "sample_environ (codepoint_var n) = Some s \<Longrightarrow> \<exists>i. atoi s = Inr i"
  using sample_atoi by (auto simp: sample_environ_def codepoint_var_def split: if_splits)

lemma sample_rows:
  "OQS_GROUP_ENTRY ''mlkem768'' ''mlkem768'' ''mlkem768'' 36 \<in> set all_groups"
  "OQS_GROUP_ENTRY ''efrodo640aes'' ''efrodo640aes'' ''efrodo640aes'' 0 \<in> set all_groups"
  "OQS_SIGALG_ENTRY ''mldsa44'' ''mldsa44'' ''mldsa44'' ''2.16.840.1.101.3.4.3.17'' 0 \<in> set all_sigalgs"
  by (simp_all add: compiled_def oqs_param_group_list_def oqs_param_sigalg_list_def)

lemma sample_overrides:
  "gc_group_id (overridden set_group_id sample_environ (codepoint_var ''mlkem768'') g) = 1234"
  "overridden set_group_id sample_environ (codepoint_var ''efrodo640aes'') g = g"
  "sc_code_point (overridden set_code_point sample_environ (codepoint_var ''mldsa44'') c) = 0xffffffff"
proof -
  have v: "codepoint_var ''mlkem768'' = ''OQS_CODEPOINT_MLKEM768''"
    "codepoint_var ''efrodo640aes'' = ''OQS_CODEPOINT_EFRODO640AES''"
    "codepoint_var ''mldsa44'' = ''OQS_CODEPOINT_MLDSA44''"
    by code_simp+
  show "gc_group_id (overridden set_group_id sample_environ (codepoint_var ''mlkem768'') g) = 1234"
    "overridden set_group_id sample_environ (codepoint_var ''efrodo640aes'') g = g"
    "sc_code_point (overridden set_code_point sample_environ (codepoint_var ''mldsa44'') c) = 0xffffffff"
    unfolding v
    by (simp_all add: sample_environ_def overridden_def set_group_id_def set_code_point_def sample_atoi)
qed

theorem codepoints_patched_witness:
  "\<exists>gs ss. oqs_patch_codepoints sample_environ oqs_group_list oqs_sigalg_list = Inr (gs, ss) \<and>
     gc_group_id (gs ! 36) = 1234 \<and> gs ! 0 = oqs_group_list ! 0 \<and> sc_code_point (ss ! 0) = 0xffffffff"
proof -
  obtain gs ss where
      "oqs_patch_codepoints sample_environ oqs_group_list oqs_sigalg_list = Inr (gs, ss)"
    and "\<forall>p \<in> set all_groups. gs ! gp_idx p =
        overridden set_group_id sample_environ (codepoint_var (gp_name p)) (oqs_group_list ! gp_idx p)"
    and "\<forall>p \<in> set all_sigalgs. ss ! sp_idx p =
        overridden set_code_point sample_environ (codepoint_var (sp_name p)) (oqs_sigalg_list ! sp_idx p)"
    using codepoints_patched [of sample_environ] sample_environ_ok by blast
  note gs = this
  show ?thesis
    using gs(1) gs(2) [THEN bspec, OF sample_rows(1)] gs(2) [THEN bspec, OF sample_rows(2)]
      gs(3) [THEN bspec, OF sample_rows(3)]
    by (simp add: OQS_GROUP_ENTRY_def OQS_SIGALG_ENTRY_def sample_overrides)
qed

subsection \<open>The enumeration\<close>

text \<open>A sequence handed to a callback that may stop it.\<close>

definition offered :: "('r \<Rightarrow> bool) \<Rightarrow> 'r list \<Rightarrow> int \<times> 'r list" where
  "offered cb rs = (if list_all cb rs then (1, rs) else (0, takeWhile cb rs @ [hd (dropWhile cb rs)]))"

lemma capability_loop_offered:
  "(let (ret, seen) = capability_loop disabled name (cb \<circ> view) rs in (ret, map view seen)) =
     offered cb (map view (filter (\<lambda>r. \<not> disabled (name r)) rs))"
  by (induction rs) (auto simp: offered_def split: prod.splits if_splits)

lemma get_capabilities_offered:
  "oqs_provider_get_capabilities enabled disabled gs ss cap cb =
     (if strcasecmp_eq cap ''TLS-GROUP'' then
        offered cb (map (group_capability gs)
          (filter (\<lambda>p. \<not> disabled (gp_alg p)) (compiled enabled oqs_param_group_list)))
      else if strcasecmp_eq cap ''TLS-SIGALG'' then
        offered cb (map (sigalg_capability ss)
          (filter (\<lambda>p. \<not> disabled (sp_name p)) (compiled enabled oqs_param_sigalg_list)))
      else (0, []))"
  by (auto simp: oqs_provider_get_capabilities_def oqs_group_capability_def oqs_sigalg_capability_def
      capability_loop_offered)

lemma offered_subset: "set (snd (offered cb rs)) \<subseteq> set rs"
  by (auto simp: offered_def list_all_iff dest: set_takeWhileD)
    (metis dropWhile_eq_Nil_conv hd_in_set set_dropWhileD)

text \<open>
  C38: the callback sees exactly the compiled rows of the requested capability that are not disabled, in the
  order of the table, up to and including the first it refuses; the result is 1 when it refused none. Any
  other capability yields 0 without a call.
\<close>

theorem capabilities_enumerated:
  "oqs_provider_get_capabilities enabled disabled gs ss cap cb =
     (if strcasecmp_eq cap ''TLS-GROUP'' then
        offered cb (map (group_capability gs)
          (filter (\<lambda>p. \<not> disabled (gp_alg p)) (compiled enabled oqs_param_group_list)))
      else if strcasecmp_eq cap ''TLS-SIGALG'' then
        offered cb (map (sigalg_capability ss)
          (filter (\<lambda>p. \<not> disabled (sp_name p)) (compiled enabled oqs_param_sigalg_list)))
      else (0, []))"
  by (rule get_capabilities_offered)

end
