(* ===== verification/Provider.thy ===== *)
theory Provider
  imports Capabilities
begin

text \<open>
  The provider itself (\<^verbatim>\<open>oqsprov.c\<close>): the list of object identifiers and its overriding from the
  environment, the algorithm tables, initialisation, which registers every algorithm with the
  core and decides by the core's version which ones to leave to it, the query for algorithms
  with its filter, and teardown.
\<close>

subsection \<open>Object identifiers\<close>

text \<open>The flat list: the identifier of an algorithm or NULL, then its name.\<close>

definition oid_alg_list_kem :: "string option list" where
  "oid_alg_list_kem =
     [None, Some ''efrodo640aes'',
      None, Some ''p256_efrodo640aes'',
      None, Some ''x25519_efrodo640aes'',
      None, Some ''efrodo640shake'',
      None, Some ''p256_efrodo640shake'',
      None, Some ''x25519_efrodo640shake'',
      None, Some ''efrodo976aes'',
      None, Some ''p384_efrodo976aes'',
      None, Some ''x448_efrodo976aes'',
      None, Some ''efrodo976shake'',
      None, Some ''p384_efrodo976shake'',
      None, Some ''x448_efrodo976shake'',
      None, Some ''efrodo1344aes'',
      None, Some ''p521_efrodo1344aes'',
      None, Some ''efrodo1344shake'',
      None, Some ''p521_efrodo1344shake'',
      None, Some ''frodo640aes'',
      None, Some ''p256_frodo640aes'',
      None, Some ''x25519_frodo640aes'',
      None, Some ''frodo640shake'',
      None, Some ''p256_frodo640shake'',
      None, Some ''x25519_frodo640shake'',
      None, Some ''frodo976aes'',
      None, Some ''p384_frodo976aes'',
      None, Some ''x448_frodo976aes'',
      None, Some ''frodo976shake'',
      None, Some ''p384_frodo976shake'',
      None, Some ''x448_frodo976shake'',
      None, Some ''frodo1344aes'',
      None, Some ''p521_frodo1344aes'',
      None, Some ''frodo1344shake'',
      None, Some ''p521_frodo1344shake'',
      Some ''2.16.840.1.101.3.4.4.1'', Some ''mlkem512'',
      Some ''1.3.6.1.4.1.22554.5.7.1'', Some ''p256_mlkem512'',
      Some ''1.3.6.1.4.1.22554.5.8.1'', Some ''x25519_mlkem512'',
      None, Some ''bp256_mlkem512'',
      Some ''2.16.840.1.101.3.4.4.2'', Some ''mlkem768'',
      None, Some ''p384_mlkem768'',
      None, Some ''x448_mlkem768'',
      None, Some ''bp384_mlkem768'',
      None, Some ''X25519MLKEM768'',
      None, Some ''SecP256r1MLKEM768'',
      Some ''2.16.840.1.101.3.4.4.3'', Some ''mlkem1024'',
      None, Some ''p521_mlkem1024'',
      Some ''1.3.6.1.4.1.42235.6'', Some ''SecP384r1MLKEM1024'',
      None, Some ''bp512_mlkem1024'',
      None, Some ''bikel1'',
      None, Some ''p256_bikel1'',
      None, Some ''x25519_bikel1'',
      None, Some ''bikel3'',
      None, Some ''p384_bikel3'',
      None, Some ''x448_bikel3'',
      None, Some ''bikel5'',
      None, Some ''p521_bikel5'']"

definition oid_alg_list_sig :: "string option list" where
  "oid_alg_list_sig =
     [Some ''2.16.840.1.101.3.4.3.17'', Some ''mldsa44'',
      Some ''1.3.9999.7.5'', Some ''p256_mldsa44'',
      Some ''1.3.9999.7.6'', Some ''rsa3072_mldsa44'',
      Some ''2.16.840.1.101.3.4.3.18'', Some ''mldsa65'',
      Some ''1.3.9999.7.7'', Some ''p384_mldsa65'',
      Some ''2.16.840.1.101.3.4.3.19'', Some ''mldsa87'',
      Some ''1.3.9999.7.8'', Some ''p521_mldsa87'',
      Some ''1.3.9999.3.11'', Some ''falcon512'',
      Some ''1.3.9999.3.12'', Some ''p256_falcon512'',
      Some ''1.3.9999.3.13'', Some ''rsa3072_falcon512'',
      Some ''1.3.9999.3.16'', Some ''falconpadded512'',
      Some ''1.3.9999.3.17'', Some ''p256_falconpadded512'',
      Some ''1.3.9999.3.18'', Some ''rsa3072_falconpadded512'',
      Some ''1.3.9999.3.14'', Some ''falcon1024'',
      Some ''1.3.9999.3.15'', Some ''p521_falcon1024'',
      Some ''1.3.9999.3.19'', Some ''falconpadded1024'',
      Some ''1.3.9999.3.20'', Some ''p521_falconpadded1024'',
      Some ''1.3.9999.8.1.3'', Some ''mayo1'',
      Some ''1.3.9999.8.1.4'', Some ''p256_mayo1'',
      Some ''1.3.9999.8.2.3'', Some ''mayo2'',
      Some ''1.3.9999.8.2.4'', Some ''p256_mayo2'',
      Some ''1.3.9999.8.3.3'', Some ''mayo3'',
      Some ''1.3.9999.8.3.4'', Some ''p384_mayo3'',
      Some ''1.3.9999.8.5.3'', Some ''mayo5'',
      Some ''1.3.9999.8.5.4'', Some ''p521_mayo5'',
      Some ''1.3.6.1.4.1.62245.2.1.1.2.2'', Some ''CROSSrsdp128balanced'',
      Some ''1.3.9999.9.5.1'', Some ''OV_Is_pkc'',
      Some ''1.3.9999.9.5.2'', Some ''p256_OV_Is_pkc'',
      Some ''1.3.9999.9.6.1'', Some ''OV_Ip_pkc'',
      Some ''1.3.9999.9.6.2'', Some ''p256_OV_Ip_pkc'',
      Some ''1.3.9999.9.9.1'', Some ''OV_Is_pkc_skc'',
      Some ''1.3.9999.9.9.2'', Some ''p256_OV_Is_pkc_skc'',
      Some ''1.3.9999.9.10.1'', Some ''OV_Ip_pkc_skc'',
      Some ''1.3.9999.9.10.2'', Some ''p256_OV_Ip_pkc_skc'',
      Some ''1.3.9999.10.1.1'', Some ''snova2454'',
      Some ''1.3.9999.10.1.2'', Some ''p256_snova2454'',
      Some ''1.3.9999.10.3.1'', Some ''snova2454esk'',
      Some ''1.3.9999.10.3.2'', Some ''p256_snova2454esk'',
      Some ''1.3.9999.10.5.1'', Some ''snova37172'',
      Some ''1.3.9999.10.5.2'', Some ''p256_snova37172'',
      Some ''1.3.9999.10.10.1'', Some ''snova2455'',
      Some ''1.3.9999.10.10.2'', Some ''p384_snova2455'',
      Some ''1.3.9999.10.12.1'', Some ''snova2965'',
      Some ''1.3.9999.10.12.2'', Some ''p521_snova2965'',
      Some ''2.16.840.1.101.3.4.3.20'', Some ''slhdsasha2128s'',
      Some ''2.16.840.1.101.3.4.3.21'', Some ''slhdsasha2128f'',
      Some ''2.16.840.1.101.3.4.3.22'', Some ''slhdsasha2192s'',
      Some ''2.16.840.1.101.3.4.3.23'', Some ''slhdsasha2192f'',
      Some ''2.16.840.1.101.3.4.3.24'', Some ''slhdsasha2256s'',
      Some ''2.16.840.1.101.3.4.3.25'', Some ''slhdsasha2256f'',
      Some ''2.16.840.1.101.3.4.3.26'', Some ''slhdsashake128s'',
      Some ''2.16.840.1.101.3.4.3.27'', Some ''slhdsashake128f'',
      Some ''2.16.840.1.101.3.4.3.28'', Some ''slhdsashake192s'',
      Some ''2.16.840.1.101.3.4.3.29'', Some ''slhdsashake192f'',
      Some ''2.16.840.1.101.3.4.3.30'', Some ''slhdsashake256s'',
      Some ''2.16.840.1.101.3.4.3.31'', Some ''slhdsashake256f'']"

definition oqs_oid_alg_list :: "bool \<Rightarrow> string option list" where
  "oqs_oid_alg_list kem_encoders = (if kem_encoders then oid_alg_list_kem else []) @ oid_alg_list_sig"

definition oid_vars_kem :: "(string \<times> nat) list" where
  "oid_vars_kem =
     [(''OQS_OID_EFRODO640AES'', 0),
      (''OQS_OID_P256_EFRODO640AES'', 2),
      (''OQS_OID_X25519_EFRODO640AES'', 4),
      (''OQS_OID_EFRODO640SHAKE'', 6),
      (''OQS_OID_P256_EFRODO640SHAKE'', 8),
      (''OQS_OID_X25519_EFRODO640SHAKE'', 10),
      (''OQS_OID_EFRODO976AES'', 12),
      (''OQS_OID_P384_EFRODO976AES'', 14),
      (''OQS_OID_X448_EFRODO976AES'', 16),
      (''OQS_OID_EFRODO976SHAKE'', 18),
      (''OQS_OID_P384_EFRODO976SHAKE'', 20),
      (''OQS_OID_X448_EFRODO976SHAKE'', 22),
      (''OQS_OID_EFRODO1344AES'', 24),
      (''OQS_OID_P521_EFRODO1344AES'', 26),
      (''OQS_OID_EFRODO1344SHAKE'', 28),
      (''OQS_OID_P521_EFRODO1344SHAKE'', 30),
      (''OQS_OID_FRODO640AES'', 32),
      (''OQS_OID_P256_FRODO640AES'', 34),
      (''OQS_OID_X25519_FRODO640AES'', 36),
      (''OQS_OID_FRODO640SHAKE'', 38),
      (''OQS_OID_P256_FRODO640SHAKE'', 40),
      (''OQS_OID_X25519_FRODO640SHAKE'', 42),
      (''OQS_OID_FRODO976AES'', 44),
      (''OQS_OID_P384_FRODO976AES'', 46),
      (''OQS_OID_X448_FRODO976AES'', 48),
      (''OQS_OID_FRODO976SHAKE'', 50),
      (''OQS_OID_P384_FRODO976SHAKE'', 52),
      (''OQS_OID_X448_FRODO976SHAKE'', 54),
      (''OQS_OID_FRODO1344AES'', 56),
      (''OQS_OID_P521_FRODO1344AES'', 58),
      (''OQS_OID_FRODO1344SHAKE'', 60),
      (''OQS_OID_P521_FRODO1344SHAKE'', 62),
      (''OQS_OID_MLKEM512'', 64),
      (''OQS_OID_P256_MLKEM512'', 66),
      (''OQS_OID_X25519_MLKEM512'', 68),
      (''OQS_OID_BP256_MLKEM512'', 70),
      (''OQS_OID_MLKEM768'', 72),
      (''OQS_OID_P384_MLKEM768'', 74),
      (''OQS_OID_X448_MLKEM768'', 76),
      (''OQS_OID_BP384_MLKEM768'', 78),
      (''OQS_OID_X25519MLKEM768'', 80),
      (''OQS_OID_SECP256R1MLKEM768'', 82),
      (''OQS_OID_MLKEM1024'', 84),
      (''OQS_OID_P521_MLKEM1024'', 86),
      (''OQS_OID_SECP384R1MLKEM1024'', 88),
      (''OQS_OID_BP512_MLKEM1024'', 90),
      (''OQS_OID_BIKEL1'', 92),
      (''OQS_OID_P256_BIKEL1'', 94),
      (''OQS_OID_X25519_BIKEL1'', 96),
      (''OQS_OID_BIKEL3'', 98),
      (''OQS_OID_P384_BIKEL3'', 100),
      (''OQS_OID_X448_BIKEL3'', 102),
      (''OQS_OID_BIKEL5'', 104),
      (''OQS_OID_P521_BIKEL5'', 106)]"

definition oid_vars_sig :: "(string \<times> nat) list" where
  "oid_vars_sig =
     [(''OQS_OID_MLDSA44'', 0),
      (''OQS_OID_P256_MLDSA44'', 2),
      (''OQS_OID_RSA3072_MLDSA44'', 4),
      (''OQS_OID_MLDSA65'', 6),
      (''OQS_OID_P384_MLDSA65'', 8),
      (''OQS_OID_MLDSA87'', 10),
      (''OQS_OID_P521_MLDSA87'', 12),
      (''OQS_OID_FALCON512'', 14),
      (''OQS_OID_P256_FALCON512'', 16),
      (''OQS_OID_RSA3072_FALCON512'', 18),
      (''OQS_OID_FALCONPADDED512'', 20),
      (''OQS_OID_P256_FALCONPADDED512'', 22),
      (''OQS_OID_RSA3072_FALCONPADDED512'', 24),
      (''OQS_OID_FALCON1024'', 26),
      (''OQS_OID_P521_FALCON1024'', 28),
      (''OQS_OID_FALCONPADDED1024'', 30),
      (''OQS_OID_P521_FALCONPADDED1024'', 32),
      (''OQS_OID_MAYO1'', 34),
      (''OQS_OID_P256_MAYO1'', 36),
      (''OQS_OID_MAYO2'', 38),
      (''OQS_OID_P256_MAYO2'', 40),
      (''OQS_OID_MAYO3'', 42),
      (''OQS_OID_P384_MAYO3'', 44),
      (''OQS_OID_MAYO5'', 46),
      (''OQS_OID_P521_MAYO5'', 48),
      (''OQS_OID_CROSSRSDP128BALANCED'', 50),
      (''OQS_OID_OV_IS_PKC'', 52),
      (''OQS_OID_P256_OV_IS_PKC'', 54),
      (''OQS_OID_OV_IP_PKC'', 56),
      (''OQS_OID_P256_OV_IP_PKC'', 58),
      (''OQS_OID_OV_IS_PKC_SKC'', 60),
      (''OQS_OID_P256_OV_IS_PKC_SKC'', 62),
      (''OQS_OID_OV_IP_PKC_SKC'', 64),
      (''OQS_OID_P256_OV_IP_PKC_SKC'', 66),
      (''OQS_OID_SNOVA2454'', 68),
      (''OQS_OID_P256_SNOVA2454'', 70),
      (''OQS_OID_SNOVA2454ESK'', 72),
      (''OQS_OID_P256_SNOVA2454ESK'', 74),
      (''OQS_OID_SNOVA37172'', 76),
      (''OQS_OID_P256_SNOVA37172'', 78),
      (''OQS_OID_SNOVA2455'', 80),
      (''OQS_OID_P384_SNOVA2455'', 82),
      (''OQS_OID_SNOVA2965'', 84),
      (''OQS_OID_P521_SNOVA2965'', 86),
      (''OQS_OID_SLHDSASHA2128S'', 88),
      (''OQS_OID_SLHDSASHA2128F'', 90),
      (''OQS_OID_SLHDSASHA2192S'', 92),
      (''OQS_OID_SLHDSASHA2192F'', 94),
      (''OQS_OID_SLHDSASHA2256S'', 96),
      (''OQS_OID_SLHDSASHA2256F'', 98),
      (''OQS_OID_SLHDSASHAKE128S'', 100),
      (''OQS_OID_SLHDSASHAKE128F'', 102),
      (''OQS_OID_SLHDSASHAKE192S'', 104),
      (''OQS_OID_SLHDSASHAKE192F'', 106),
      (''OQS_OID_SLHDSASHAKE256S'', 108),
      (''OQS_OID_SLHDSASHAKE256F'', 110)]"

definition OQS_KEMOID_CNT :: "bool \<Rightarrow> nat" where
  "OQS_KEMOID_CNT kem_encoders = (if kem_encoders then 106 + 2 else 0)"

definition oid_vars :: "bool \<Rightarrow> (string \<times> nat) list" where
  "oid_vars kem_encoders =
     (if kem_encoders then oid_vars_kem else []) @
     map (\<lambda>(v, i). (v, i + OQS_KEMOID_CNT kem_encoders)) oid_vars_sig"

definition oqs_patch_oids :: "bool \<Rightarrow> environ \<Rightarrow> string option list \<Rightarrow> string option list res" where
  "oqs_patch_oids kem_encoders getenv tbl =
     patch_table (\<lambda>_ s. Inr (Some s)) getenv (oid_vars kem_encoders) tbl"

subsection \<open>Algorithm tables\<close>

text \<open>The implementation is the dispatch table's C identifier.\<close>

record ossl_algorithm =
  algorithm_names :: "string option"
  property_definition :: "string option"
  implementation :: "string option"

definition ALG :: "string \<Rightarrow> string \<Rightarrow> string \<Rightarrow> ossl_algorithm" where
  "ALG names bits func =
     \<lparr>algorithm_names = Some names,
      property_definition = Some (''provider=oqsprovider,oqsprovider.security_bits='' @ bits),
      implementation = Some func\<rparr>"

definition SIGALG :: "string \<Rightarrow> string \<Rightarrow> string \<Rightarrow> ossl_algorithm" where
  "SIGALG names bits func = ALG names bits func"

definition KEMBASEALG :: "string \<Rightarrow> string \<Rightarrow> ossl_algorithm" where
  "KEMBASEALG names bits = ALG names bits ''oqs_generic_kem_functions''"

definition KEMHYBALG :: "string \<Rightarrow> string \<Rightarrow> ossl_algorithm" where
  "KEMHYBALG names bits = ALG names bits ''oqs_hybrid_kem_functions''"

definition KEMKMALG :: "string \<Rightarrow> string \<Rightarrow> ossl_algorithm" where
  "KEMKMALG names bits = ALG names bits (''oqs_'' @ names @ ''_keymgmt_functions'')"

definition KEMKMHYBALG :: "string \<Rightarrow> string \<Rightarrow> string \<Rightarrow> ossl_algorithm" where
  "KEMKMHYBALG names bits hybtype =
     ALG names bits (''oqs_'' @ hybtype @ ''_'' @ names @ ''_keymgmt_functions'')"

definition end_of_algs :: ossl_algorithm where
  "end_of_algs = \<lparr>algorithm_names = None, property_definition = None, implementation = None\<rparr>"

definition oqsprovider_signatures :: "(string \<times> ossl_algorithm list) list" where
  "oqsprovider_signatures =
     [(''OQS_ENABLE_SIG_ml_dsa_44'',
       [SIGALG ''mldsa44'' ''128'' ''oqs_signature_functions'',
        SIGALG ''p256_mldsa44'' ''128'' ''oqs_signature_functions'',
        SIGALG ''rsa3072_mldsa44'' ''128'' ''oqs_signature_functions'']),
      (''OQS_ENABLE_SIG_ml_dsa_65'',
       [SIGALG ''mldsa65'' ''192'' ''oqs_signature_functions'',
        SIGALG ''p384_mldsa65'' ''192'' ''oqs_signature_functions'']),
      (''OQS_ENABLE_SIG_ml_dsa_87'',
       [SIGALG ''mldsa87'' ''256'' ''oqs_signature_functions'',
        SIGALG ''p521_mldsa87'' ''256'' ''oqs_signature_functions'']),
      (''OQS_ENABLE_SIG_falcon_512'',
       [SIGALG ''falcon512'' ''128'' ''oqs_signature_functions'',
        SIGALG ''p256_falcon512'' ''128'' ''oqs_signature_functions'',
        SIGALG ''rsa3072_falcon512'' ''128'' ''oqs_signature_functions'']),
      (''OQS_ENABLE_SIG_falcon_padded_512'',
       [SIGALG ''falconpadded512'' ''128'' ''oqs_signature_functions'',
        SIGALG ''p256_falconpadded512'' ''128'' ''oqs_signature_functions'',
        SIGALG ''rsa3072_falconpadded512'' ''128'' ''oqs_signature_functions'']),
      (''OQS_ENABLE_SIG_falcon_1024'',
       [SIGALG ''falcon1024'' ''256'' ''oqs_signature_functions'',
        SIGALG ''p521_falcon1024'' ''256'' ''oqs_signature_functions'']),
      (''OQS_ENABLE_SIG_falcon_padded_1024'',
       [SIGALG ''falconpadded1024'' ''256'' ''oqs_signature_functions'',
        SIGALG ''p521_falconpadded1024'' ''256'' ''oqs_signature_functions'']),
      (''OQS_ENABLE_SIG_mayo_1'',
       [SIGALG ''mayo1'' ''128'' ''oqs_signature_functions'',
        SIGALG ''p256_mayo1'' ''128'' ''oqs_signature_functions'']),
      (''OQS_ENABLE_SIG_mayo_2'',
       [SIGALG ''mayo2'' ''128'' ''oqs_signature_functions'',
        SIGALG ''p256_mayo2'' ''128'' ''oqs_signature_functions'']),
      (''OQS_ENABLE_SIG_mayo_3'',
       [SIGALG ''mayo3'' ''192'' ''oqs_signature_functions'',
        SIGALG ''p384_mayo3'' ''192'' ''oqs_signature_functions'']),
      (''OQS_ENABLE_SIG_mayo_5'',
       [SIGALG ''mayo5'' ''256'' ''oqs_signature_functions'',
        SIGALG ''p521_mayo5'' ''256'' ''oqs_signature_functions'']),
      (''OQS_ENABLE_SIG_cross_rsdp_128_balanced'',
       [SIGALG ''CROSSrsdp128balanced'' ''128'' ''oqs_signature_functions'']),
      (''OQS_ENABLE_SIG_uov_ov_Is_pkc'',
       [SIGALG ''OV_Is_pkc'' ''128'' ''oqs_signature_functions'',
        SIGALG ''p256_OV_Is_pkc'' ''128'' ''oqs_signature_functions'']),
      (''OQS_ENABLE_SIG_uov_ov_Ip_pkc'',
       [SIGALG ''OV_Ip_pkc'' ''128'' ''oqs_signature_functions'',
        SIGALG ''p256_OV_Ip_pkc'' ''128'' ''oqs_signature_functions'']),
      (''OQS_ENABLE_SIG_uov_ov_Is_pkc_skc'',
       [SIGALG ''OV_Is_pkc_skc'' ''128'' ''oqs_signature_functions'',
        SIGALG ''p256_OV_Is_pkc_skc'' ''128'' ''oqs_signature_functions'']),
      (''OQS_ENABLE_SIG_uov_ov_Ip_pkc_skc'',
       [SIGALG ''OV_Ip_pkc_skc'' ''128'' ''oqs_signature_functions'',
        SIGALG ''p256_OV_Ip_pkc_skc'' ''128'' ''oqs_signature_functions'']),
      (''OQS_ENABLE_SIG_snova_SNOVA_24_5_4'',
       [SIGALG ''snova2454'' ''128'' ''oqs_signature_functions'',
        SIGALG ''p256_snova2454'' ''128'' ''oqs_signature_functions'']),
      (''OQS_ENABLE_SIG_snova_SNOVA_24_5_4_esk'',
       [SIGALG ''snova2454esk'' ''128'' ''oqs_signature_functions'',
        SIGALG ''p256_snova2454esk'' ''128'' ''oqs_signature_functions'']),
      (''OQS_ENABLE_SIG_snova_SNOVA_37_17_2'',
       [SIGALG ''snova37172'' ''128'' ''oqs_signature_functions'',
        SIGALG ''p256_snova37172'' ''128'' ''oqs_signature_functions'']),
      (''OQS_ENABLE_SIG_snova_SNOVA_24_5_5'',
       [SIGALG ''snova2455'' ''192'' ''oqs_signature_functions'',
        SIGALG ''p384_snova2455'' ''192'' ''oqs_signature_functions'']),
      (''OQS_ENABLE_SIG_snova_SNOVA_29_6_5'',
       [SIGALG ''snova2965'' ''256'' ''oqs_signature_functions'',
        SIGALG ''p521_snova2965'' ''256'' ''oqs_signature_functions'']),
      (''OQS_ENABLE_SIG_slh_dsa_pure_sha2_128s'',
       [SIGALG ''slhdsasha2128s'' ''128'' ''oqs_signature_functions'']),
      (''OQS_ENABLE_SIG_slh_dsa_pure_sha2_128f'',
       [SIGALG ''slhdsasha2128f'' ''128'' ''oqs_signature_functions'']),
      (''OQS_ENABLE_SIG_slh_dsa_pure_sha2_192s'',
       [SIGALG ''slhdsasha2192s'' ''192'' ''oqs_signature_functions'']),
      (''OQS_ENABLE_SIG_slh_dsa_pure_sha2_192f'',
       [SIGALG ''slhdsasha2192f'' ''192'' ''oqs_signature_functions'']),
      (''OQS_ENABLE_SIG_slh_dsa_pure_sha2_256s'',
       [SIGALG ''slhdsasha2256s'' ''256'' ''oqs_signature_functions'']),
      (''OQS_ENABLE_SIG_slh_dsa_pure_sha2_256f'',
       [SIGALG ''slhdsasha2256f'' ''256'' ''oqs_signature_functions'']),
      (''OQS_ENABLE_SIG_slh_dsa_pure_shake_128s'',
       [SIGALG ''slhdsashake128s'' ''128'' ''oqs_signature_functions'']),
      (''OQS_ENABLE_SIG_slh_dsa_pure_shake_128f'',
       [SIGALG ''slhdsashake128f'' ''128'' ''oqs_signature_functions'']),
      (''OQS_ENABLE_SIG_slh_dsa_pure_shake_192s'',
       [SIGALG ''slhdsashake192s'' ''192'' ''oqs_signature_functions'']),
      (''OQS_ENABLE_SIG_slh_dsa_pure_shake_192f'',
       [SIGALG ''slhdsashake192f'' ''192'' ''oqs_signature_functions'']),
      (''OQS_ENABLE_SIG_slh_dsa_pure_shake_256s'',
       [SIGALG ''slhdsashake256s'' ''256'' ''oqs_signature_functions'']),
      (''OQS_ENABLE_SIG_slh_dsa_pure_shake_256f'',
       [SIGALG ''slhdsashake256f'' ''256'' ''oqs_signature_functions''])]"

definition oqsprovider_asym_kems :: "(string \<times> ossl_algorithm list) list" where
  "oqsprovider_asym_kems =
     [(''OQS_ENABLE_KEM_efrodokem_640_aes'',
       [KEMBASEALG ''efrodo640aes'' ''128'',
        KEMHYBALG ''p256_efrodo640aes'' ''128'',
        KEMHYBALG ''x25519_efrodo640aes'' ''128'']),
      (''OQS_ENABLE_KEM_efrodokem_640_shake'',
       [KEMBASEALG ''efrodo640shake'' ''128'',
        KEMHYBALG ''p256_efrodo640shake'' ''128'',
        KEMHYBALG ''x25519_efrodo640shake'' ''128'']),
      (''OQS_ENABLE_KEM_efrodokem_976_aes'',
       [KEMBASEALG ''efrodo976aes'' ''192'',
        KEMHYBALG ''p384_efrodo976aes'' ''192'',
        KEMHYBALG ''x448_efrodo976aes'' ''192'']),
      (''OQS_ENABLE_KEM_efrodokem_976_shake'',
       [KEMBASEALG ''efrodo976shake'' ''192'',
        KEMHYBALG ''p384_efrodo976shake'' ''192'',
        KEMHYBALG ''x448_efrodo976shake'' ''192'']),
      (''OQS_ENABLE_KEM_efrodokem_1344_aes'',
       [KEMBASEALG ''efrodo1344aes'' ''256'',
        KEMHYBALG ''p521_efrodo1344aes'' ''256'']),
      (''OQS_ENABLE_KEM_efrodokem_1344_shake'',
       [KEMBASEALG ''efrodo1344shake'' ''256'',
        KEMHYBALG ''p521_efrodo1344shake'' ''256'']),
      (''OQS_ENABLE_KEM_frodokem_640_aes'',
       [KEMBASEALG ''frodo640aes'' ''128'',
        KEMHYBALG ''p256_frodo640aes'' ''128'',
        KEMHYBALG ''x25519_frodo640aes'' ''128'']),
      (''OQS_ENABLE_KEM_frodokem_640_shake'',
       [KEMBASEALG ''frodo640shake'' ''128'',
        KEMHYBALG ''p256_frodo640shake'' ''128'',
        KEMHYBALG ''x25519_frodo640shake'' ''128'']),
      (''OQS_ENABLE_KEM_frodokem_976_aes'',
       [KEMBASEALG ''frodo976aes'' ''192'',
        KEMHYBALG ''p384_frodo976aes'' ''192'',
        KEMHYBALG ''x448_frodo976aes'' ''192'']),
      (''OQS_ENABLE_KEM_frodokem_976_shake'',
       [KEMBASEALG ''frodo976shake'' ''192'',
        KEMHYBALG ''p384_frodo976shake'' ''192'',
        KEMHYBALG ''x448_frodo976shake'' ''192'']),
      (''OQS_ENABLE_KEM_frodokem_1344_aes'',
       [KEMBASEALG ''frodo1344aes'' ''256'',
        KEMHYBALG ''p521_frodo1344aes'' ''256'']),
      (''OQS_ENABLE_KEM_frodokem_1344_shake'',
       [KEMBASEALG ''frodo1344shake'' ''256'',
        KEMHYBALG ''p521_frodo1344shake'' ''256'']),
      (''OQS_ENABLE_KEM_ml_kem_512'',
       [KEMBASEALG ''mlkem512'' ''128'',
        KEMHYBALG ''p256_mlkem512'' ''128'',
        KEMHYBALG ''x25519_mlkem512'' ''128'',
        KEMHYBALG ''bp256_mlkem512'' ''128'']),
      (''OQS_ENABLE_KEM_ml_kem_768'',
       [KEMBASEALG ''mlkem768'' ''192'',
        KEMHYBALG ''p384_mlkem768'' ''192'',
        KEMHYBALG ''x448_mlkem768'' ''192'',
        KEMHYBALG ''bp384_mlkem768'' ''192'',
        KEMHYBALG ''X25519MLKEM768'' ''128'',
        KEMHYBALG ''SecP256r1MLKEM768'' ''128'']),
      (''OQS_ENABLE_KEM_ml_kem_1024'',
       [KEMBASEALG ''mlkem1024'' ''256'',
        KEMHYBALG ''p521_mlkem1024'' ''256'',
        KEMHYBALG ''SecP384r1MLKEM1024'' ''192'',
        KEMHYBALG ''bp512_mlkem1024'' ''256'']),
      (''OQS_ENABLE_KEM_bike_l1'',
       [KEMBASEALG ''bikel1'' ''128'',
        KEMHYBALG ''p256_bikel1'' ''128'',
        KEMHYBALG ''x25519_bikel1'' ''128'']),
      (''OQS_ENABLE_KEM_bike_l3'',
       [KEMBASEALG ''bikel3'' ''192'',
        KEMHYBALG ''p384_bikel3'' ''192'',
        KEMHYBALG ''x448_bikel3'' ''192'']),
      (''OQS_ENABLE_KEM_bike_l5'',
       [KEMBASEALG ''bikel5'' ''256'',
        KEMHYBALG ''p521_bikel5'' ''256''])]"

definition keymgmt_sig_algs :: "(string \<times> ossl_algorithm list) list" where
  "keymgmt_sig_algs =
     [(''OQS_ENABLE_SIG_ml_dsa_44'',
       [SIGALG ''mldsa44'' ''128'' ''oqs_mldsa44_keymgmt_functions'',
        SIGALG ''p256_mldsa44'' ''128'' ''oqs_p256_mldsa44_keymgmt_functions'',
        SIGALG ''rsa3072_mldsa44'' ''128'' ''oqs_rsa3072_mldsa44_keymgmt_functions'']),
      (''OQS_ENABLE_SIG_ml_dsa_65'',
       [SIGALG ''mldsa65'' ''192'' ''oqs_mldsa65_keymgmt_functions'',
        SIGALG ''p384_mldsa65'' ''192'' ''oqs_p384_mldsa65_keymgmt_functions'']),
      (''OQS_ENABLE_SIG_ml_dsa_87'',
       [SIGALG ''mldsa87'' ''256'' ''oqs_mldsa87_keymgmt_functions'',
        SIGALG ''p521_mldsa87'' ''256'' ''oqs_p521_mldsa87_keymgmt_functions'']),
      (''OQS_ENABLE_SIG_falcon_512'',
       [SIGALG ''falcon512'' ''128'' ''oqs_falcon512_keymgmt_functions'',
        SIGALG ''p256_falcon512'' ''128'' ''oqs_p256_falcon512_keymgmt_functions'',
        SIGALG ''rsa3072_falcon512'' ''128'' ''oqs_rsa3072_falcon512_keymgmt_functions'']),
      (''OQS_ENABLE_SIG_falcon_padded_512'',
       [SIGALG ''falconpadded512'' ''128'' ''oqs_falconpadded512_keymgmt_functions'',
        SIGALG ''p256_falconpadded512'' ''128'' ''oqs_p256_falconpadded512_keymgmt_functions'',
        SIGALG ''rsa3072_falconpadded512'' ''128'' ''oqs_rsa3072_falconpadded512_keymgmt_functions'']),
      (''OQS_ENABLE_SIG_falcon_1024'',
       [SIGALG ''falcon1024'' ''256'' ''oqs_falcon1024_keymgmt_functions'',
        SIGALG ''p521_falcon1024'' ''256'' ''oqs_p521_falcon1024_keymgmt_functions'']),
      (''OQS_ENABLE_SIG_falcon_padded_1024'',
       [SIGALG ''falconpadded1024'' ''256'' ''oqs_falconpadded1024_keymgmt_functions'',
        SIGALG ''p521_falconpadded1024'' ''256'' ''oqs_p521_falconpadded1024_keymgmt_functions'']),
      (''OQS_ENABLE_SIG_mayo_1'',
       [SIGALG ''mayo1'' ''128'' ''oqs_mayo1_keymgmt_functions'',
        SIGALG ''p256_mayo1'' ''128'' ''oqs_p256_mayo1_keymgmt_functions'']),
      (''OQS_ENABLE_SIG_mayo_2'',
       [SIGALG ''mayo2'' ''128'' ''oqs_mayo2_keymgmt_functions'',
        SIGALG ''p256_mayo2'' ''128'' ''oqs_p256_mayo2_keymgmt_functions'']),
      (''OQS_ENABLE_SIG_mayo_3'',
       [SIGALG ''mayo3'' ''192'' ''oqs_mayo3_keymgmt_functions'',
        SIGALG ''p384_mayo3'' ''192'' ''oqs_p384_mayo3_keymgmt_functions'']),
      (''OQS_ENABLE_SIG_mayo_5'',
       [SIGALG ''mayo5'' ''256'' ''oqs_mayo5_keymgmt_functions'',
        SIGALG ''p521_mayo5'' ''256'' ''oqs_p521_mayo5_keymgmt_functions'']),
      (''OQS_ENABLE_SIG_cross_rsdp_128_balanced'',
       [SIGALG ''CROSSrsdp128balanced'' ''128'' ''oqs_CROSSrsdp128balanced_keymgmt_functions'']),
      (''OQS_ENABLE_SIG_uov_ov_Is_pkc'',
       [SIGALG ''OV_Is_pkc'' ''128'' ''oqs_OV_Is_pkc_keymgmt_functions'',
        SIGALG ''p256_OV_Is_pkc'' ''128'' ''oqs_p256_OV_Is_pkc_keymgmt_functions'']),
      (''OQS_ENABLE_SIG_uov_ov_Ip_pkc'',
       [SIGALG ''OV_Ip_pkc'' ''128'' ''oqs_OV_Ip_pkc_keymgmt_functions'',
        SIGALG ''p256_OV_Ip_pkc'' ''128'' ''oqs_p256_OV_Ip_pkc_keymgmt_functions'']),
      (''OQS_ENABLE_SIG_uov_ov_Is_pkc_skc'',
       [SIGALG ''OV_Is_pkc_skc'' ''128'' ''oqs_OV_Is_pkc_skc_keymgmt_functions'',
        SIGALG ''p256_OV_Is_pkc_skc'' ''128'' ''oqs_p256_OV_Is_pkc_skc_keymgmt_functions'']),
      (''OQS_ENABLE_SIG_uov_ov_Ip_pkc_skc'',
       [SIGALG ''OV_Ip_pkc_skc'' ''128'' ''oqs_OV_Ip_pkc_skc_keymgmt_functions'',
        SIGALG ''p256_OV_Ip_pkc_skc'' ''128'' ''oqs_p256_OV_Ip_pkc_skc_keymgmt_functions'']),
      (''OQS_ENABLE_SIG_snova_SNOVA_24_5_4'',
       [SIGALG ''snova2454'' ''128'' ''oqs_snova2454_keymgmt_functions'',
        SIGALG ''p256_snova2454'' ''128'' ''oqs_p256_snova2454_keymgmt_functions'']),
      (''OQS_ENABLE_SIG_snova_SNOVA_24_5_4_esk'',
       [SIGALG ''snova2454esk'' ''128'' ''oqs_snova2454esk_keymgmt_functions'',
        SIGALG ''p256_snova2454esk'' ''128'' ''oqs_p256_snova2454esk_keymgmt_functions'']),
      (''OQS_ENABLE_SIG_snova_SNOVA_37_17_2'',
       [SIGALG ''snova37172'' ''128'' ''oqs_snova37172_keymgmt_functions'',
        SIGALG ''p256_snova37172'' ''128'' ''oqs_p256_snova37172_keymgmt_functions'']),
      (''OQS_ENABLE_SIG_snova_SNOVA_24_5_5'',
       [SIGALG ''snova2455'' ''192'' ''oqs_snova2455_keymgmt_functions'',
        SIGALG ''p384_snova2455'' ''192'' ''oqs_p384_snova2455_keymgmt_functions'']),
      (''OQS_ENABLE_SIG_snova_SNOVA_29_6_5'',
       [SIGALG ''snova2965'' ''256'' ''oqs_snova2965_keymgmt_functions'',
        SIGALG ''p521_snova2965'' ''256'' ''oqs_p521_snova2965_keymgmt_functions'']),
      (''OQS_ENABLE_SIG_slh_dsa_pure_sha2_128s'',
       [SIGALG ''slhdsasha2128s'' ''128'' ''oqs_slhdsasha2128s_keymgmt_functions'']),
      (''OQS_ENABLE_SIG_slh_dsa_pure_sha2_128f'',
       [SIGALG ''slhdsasha2128f'' ''128'' ''oqs_slhdsasha2128f_keymgmt_functions'']),
      (''OQS_ENABLE_SIG_slh_dsa_pure_sha2_192s'',
       [SIGALG ''slhdsasha2192s'' ''192'' ''oqs_slhdsasha2192s_keymgmt_functions'']),
      (''OQS_ENABLE_SIG_slh_dsa_pure_sha2_192f'',
       [SIGALG ''slhdsasha2192f'' ''192'' ''oqs_slhdsasha2192f_keymgmt_functions'']),
      (''OQS_ENABLE_SIG_slh_dsa_pure_sha2_256s'',
       [SIGALG ''slhdsasha2256s'' ''256'' ''oqs_slhdsasha2256s_keymgmt_functions'']),
      (''OQS_ENABLE_SIG_slh_dsa_pure_sha2_256f'',
       [SIGALG ''slhdsasha2256f'' ''256'' ''oqs_slhdsasha2256f_keymgmt_functions'']),
      (''OQS_ENABLE_SIG_slh_dsa_pure_shake_128s'',
       [SIGALG ''slhdsashake128s'' ''128'' ''oqs_slhdsashake128s_keymgmt_functions'']),
      (''OQS_ENABLE_SIG_slh_dsa_pure_shake_128f'',
       [SIGALG ''slhdsashake128f'' ''128'' ''oqs_slhdsashake128f_keymgmt_functions'']),
      (''OQS_ENABLE_SIG_slh_dsa_pure_shake_192s'',
       [SIGALG ''slhdsashake192s'' ''192'' ''oqs_slhdsashake192s_keymgmt_functions'']),
      (''OQS_ENABLE_SIG_slh_dsa_pure_shake_192f'',
       [SIGALG ''slhdsashake192f'' ''192'' ''oqs_slhdsashake192f_keymgmt_functions'']),
      (''OQS_ENABLE_SIG_slh_dsa_pure_shake_256s'',
       [SIGALG ''slhdsashake256s'' ''256'' ''oqs_slhdsashake256s_keymgmt_functions'']),
      (''OQS_ENABLE_SIG_slh_dsa_pure_shake_256f'',
       [SIGALG ''slhdsashake256f'' ''256'' ''oqs_slhdsashake256f_keymgmt_functions''])]"

definition keymgmt_kem_algs :: "(string \<times> ossl_algorithm list) list" where
  "keymgmt_kem_algs =
     [(''OQS_ENABLE_KEM_efrodokem_640_aes'',
       [KEMKMALG ''efrodo640aes'' ''128'',
        KEMKMHYBALG ''p256_efrodo640aes'' ''128'' ''ecp'',
        KEMKMHYBALG ''x25519_efrodo640aes'' ''128'' ''ecx'']),
      (''OQS_ENABLE_KEM_efrodokem_640_shake'',
       [KEMKMALG ''efrodo640shake'' ''128'',
        KEMKMHYBALG ''p256_efrodo640shake'' ''128'' ''ecp'',
        KEMKMHYBALG ''x25519_efrodo640shake'' ''128'' ''ecx'']),
      (''OQS_ENABLE_KEM_efrodokem_976_aes'',
       [KEMKMALG ''efrodo976aes'' ''192'',
        KEMKMHYBALG ''p384_efrodo976aes'' ''192'' ''ecp'',
        KEMKMHYBALG ''x448_efrodo976aes'' ''192'' ''ecx'']),
      (''OQS_ENABLE_KEM_efrodokem_976_shake'',
       [KEMKMALG ''efrodo976shake'' ''192'',
        KEMKMHYBALG ''p384_efrodo976shake'' ''192'' ''ecp'',
        KEMKMHYBALG ''x448_efrodo976shake'' ''192'' ''ecx'']),
      (''OQS_ENABLE_KEM_efrodokem_1344_aes'',
       [KEMKMALG ''efrodo1344aes'' ''256'',
        KEMKMHYBALG ''p521_efrodo1344aes'' ''256'' ''ecp'']),
      (''OQS_ENABLE_KEM_efrodokem_1344_shake'',
       [KEMKMALG ''efrodo1344shake'' ''256'',
        KEMKMHYBALG ''p521_efrodo1344shake'' ''256'' ''ecp'']),
      (''OQS_ENABLE_KEM_frodokem_640_aes'',
       [KEMKMALG ''frodo640aes'' ''128'',
        KEMKMHYBALG ''p256_frodo640aes'' ''128'' ''ecp'',
        KEMKMHYBALG ''x25519_frodo640aes'' ''128'' ''ecx'']),
      (''OQS_ENABLE_KEM_frodokem_640_shake'',
       [KEMKMALG ''frodo640shake'' ''128'',
        KEMKMHYBALG ''p256_frodo640shake'' ''128'' ''ecp'',
        KEMKMHYBALG ''x25519_frodo640shake'' ''128'' ''ecx'']),
      (''OQS_ENABLE_KEM_frodokem_976_aes'',
       [KEMKMALG ''frodo976aes'' ''192'',
        KEMKMHYBALG ''p384_frodo976aes'' ''192'' ''ecp'',
        KEMKMHYBALG ''x448_frodo976aes'' ''192'' ''ecx'']),
      (''OQS_ENABLE_KEM_frodokem_976_shake'',
       [KEMKMALG ''frodo976shake'' ''192'',
        KEMKMHYBALG ''p384_frodo976shake'' ''192'' ''ecp'',
        KEMKMHYBALG ''x448_frodo976shake'' ''192'' ''ecx'']),
      (''OQS_ENABLE_KEM_frodokem_1344_aes'',
       [KEMKMALG ''frodo1344aes'' ''256'',
        KEMKMHYBALG ''p521_frodo1344aes'' ''256'' ''ecp'']),
      (''OQS_ENABLE_KEM_frodokem_1344_shake'',
       [KEMKMALG ''frodo1344shake'' ''256'',
        KEMKMHYBALG ''p521_frodo1344shake'' ''256'' ''ecp'']),
      (''OQS_ENABLE_KEM_ml_kem_512'',
       [KEMKMALG ''mlkem512'' ''128'',
        KEMKMHYBALG ''p256_mlkem512'' ''128'' ''ecp'',
        KEMKMHYBALG ''x25519_mlkem512'' ''128'' ''ecx'',
        KEMKMHYBALG ''bp256_mlkem512'' ''128'' ''ecbp'']),
      (''OQS_ENABLE_KEM_ml_kem_768'',
       [KEMKMALG ''mlkem768'' ''192'',
        KEMKMHYBALG ''p384_mlkem768'' ''192'' ''ecp'',
        KEMKMHYBALG ''x448_mlkem768'' ''192'' ''ecx'',
        KEMKMHYBALG ''bp384_mlkem768'' ''192'' ''ecbp'',
        KEMKMHYBALG ''X25519MLKEM768'' ''128'' ''ecx'',
        KEMKMHYBALG ''SecP256r1MLKEM768'' ''128'' ''ecp'']),
      (''OQS_ENABLE_KEM_ml_kem_1024'',
       [KEMKMALG ''mlkem1024'' ''256'',
        KEMKMHYBALG ''p521_mlkem1024'' ''256'' ''ecp'',
        KEMKMHYBALG ''SecP384r1MLKEM1024'' ''192'' ''ecp'',
        KEMKMHYBALG ''bp512_mlkem1024'' ''256'' ''ecbp'']),
      (''OQS_ENABLE_KEM_bike_l1'',
       [KEMKMALG ''bikel1'' ''128'',
        KEMKMHYBALG ''p256_bikel1'' ''128'' ''ecp'',
        KEMKMHYBALG ''x25519_bikel1'' ''128'' ''ecx'']),
      (''OQS_ENABLE_KEM_bike_l3'',
       [KEMKMALG ''bikel3'' ''192'',
        KEMKMHYBALG ''p384_bikel3'' ''192'' ''ecp'',
        KEMKMHYBALG ''x448_bikel3'' ''192'' ''ecx'']),
      (''OQS_ENABLE_KEM_bike_l5'',
       [KEMKMALG ''bikel5'' ''256'',
        KEMKMHYBALG ''p521_bikel5'' ''256'' ''ecp''])]"

definition oqsprovider_keymgmt :: "(string \<times> ossl_algorithm list) list" where
  "oqsprovider_keymgmt = keymgmt_sig_algs @ keymgmt_kem_algs"

subsection \<open>The state of the provider\<close>

text \<open>The build: the encoders of KEM keys, the enabled liboqs macros, the two generated tables.\<close>

record prov_build =
  pb_kem_encoders :: bool
  pb_enabled :: "string \<Rightarrow> bool"
  pb_encoders :: "ossl_algorithm list"
  pb_decoders :: "ossl_algorithm list"

datatype prov_op = OP_SIGNATURE | OP_KEM | OP_KEYMGMT | OP_ENCODER | OP_DECODER | OP_OTHER int

definition algorithm_table :: "prov_build \<Rightarrow> prov_op \<Rightarrow> ossl_algorithm list option" where
  "algorithm_table B op =
     (case op of
       OP_SIGNATURE \<Rightarrow> Some (compiled (pb_enabled B) oqsprovider_signatures @ [end_of_algs])
     | OP_KEM \<Rightarrow> Some (compiled (pb_enabled B) oqsprovider_asym_kems @ [end_of_algs])
     | OP_KEYMGMT \<Rightarrow> Some (compiled (pb_enabled B) oqsprovider_keymgmt @ [end_of_algs])
     | OP_ENCODER \<Rightarrow> Some (pb_encoders B @ [end_of_algs])
     | OP_DECODER \<Rightarrow> Some (pb_decoders B @ [end_of_algs])
     | OP_OTHER _ \<Rightarrow> None)"

text \<open>The static variables, and the allocated library contexts and method tables.\<close>

record prov_state =
  rt_algo_filter_enabled :: bool
  rt_disabled_algs :: "string list option"
  ps_rt :: "prov_op \<Rightarrow> ossl_algorithm list option"
  ps_nids :: "nid_entry list"
  ps_oids :: "string option list"
  ps_groups :: "group_const list"
  ps_sigalgs :: "sigalg_const list"
  ps_bio :: bio_fns
  c_gettable_params :: "nat option"
  c_get_params :: "nat option"
  ps_message_api :: bool
  ps_live :: live_objs

definition prov_start :: "prov_build \<Rightarrow> prov_state" where
  "prov_start B =
     \<lparr>rt_algo_filter_enabled = False, rt_disabled_algs = None, ps_rt = (\<lambda>_. None),
      ps_nids = nid_names (pb_kem_encoders B), ps_oids = oqs_oid_alg_list (pb_kem_encoders B),
      ps_groups = oqs_group_list, ps_sigalgs = oqs_sigalg_list, ps_bio = (\<lambda>_. None),
      c_gettable_params = None, c_get_params = None, ps_message_api = False,
      ps_live = \<lparr>live_libctx = 0, live_meth = 0\<rparr>\<rparr>"

text \<open>
  What the core and OpenSSL do: the dispatch table, the version string \<^verbatim>\<open>c_get_params\<close> gives (NULL when it
  fails), the registration of an object and of a signature algorithm, the NID of a short name
  after that, and the allocations of the initialisation.
\<close>

record core_env =
  ce_handle :: nat
  ce_dispatch :: core_dispatch
  ce_version :: "string option"
  ce_obj_create :: "string \<Rightarrow> string \<Rightarrow> bool"
  ce_add_sigid :: "string \<Rightarrow> bool"
  ce_sn2nid :: "string \<Rightarrow> int"
  ce_getenv :: environ
  ce_bio :: bio_calls
  ce_stack_ok :: bool
  ce_child :: "nat option"
  ce_ctx_ok :: bool

subsection \<open>Initialisation\<close>

fun strcmp :: "string \<Rightarrow> string \<Rightarrow> int" where
  "strcmp [] [] = 0"
| "strcmp [] (_ # _) = -1"
| "strcmp (_ # _) [] = 1"
| "strcmp (a # as) (b # bs) =
     (if a = b then strcmp as bs else if (of_char a :: nat) < of_char b then -1 else 1)"

text \<open>\<^verbatim>\<open>strcmp(v, ossl_versionp)\<close> follows the pointer, NULL or not.\<close>

definition version_cmp :: "string \<Rightarrow> string option \<Rightarrow> int res" where
  "version_cmp v versionp = bindR (of_option UB versionp) (\<lambda>p. Inr (strcmp v p))"

record core_fns =
  cf_gettable_params :: "nat option"
  cf_get_params :: "nat option"
  cf_obj_create :: "nat option"
  cf_obj_add_sigid :: "nat option"

fun scan_core :: "core_dispatch \<Rightarrow> core_fns \<Rightarrow> core_fns" where
  "scan_core [] c = c"
| "scan_core ((f, a) # d) c =
     scan_core d
       (case f of
          CORE_GETTABLE_PARAMS \<Rightarrow> c\<lparr>cf_gettable_params := Some a\<rparr>
        | CORE_GET_PARAMS \<Rightarrow> c\<lparr>cf_get_params := Some a\<rparr>
        | CORE_OBJ_CREATE \<Rightarrow> c\<lparr>cf_obj_create := Some a\<rparr>
        | CORE_OBJ_ADD_SIGID \<Rightarrow> c\<lparr>cf_obj_add_sigid := Some a\<rparr>
        | _ \<Rightarrow> c)"

text \<open>Pushing on a NULL stack does nothing.\<close>

definition sk_push :: "string \<Rightarrow> (prov_state, unit) st" where
  "sk_push name = modS (\<lambda>s. s\<lparr>rt_disabled_algs := map_option (\<lambda>l. l @ [name]) (rt_disabled_algs s)\<rparr>)"

text \<open>
  One turn of the registration loop. The second creation of the object, skipped for version
  3.1.0, is not tested for errors; the comparison that decides about it reads the version.
\<close>

definition register_algorithm ::
    "core_env \<Rightarrow> string option \<Rightarrow> string option \<Rightarrow> string \<Rightarrow> (prov_state, unit) st" where
  "register_algorithm C ver oid name =
     (case oid of
       None \<Rightarrow> retS ()
     | Some oid \<Rightarrow>
         if \<not> ce_obj_create C oid name then sk_push name
         else bindS (liftS (version_cmp ''3.1.0'' ver)) (\<lambda>_.
           bindS (getS (\<lambda>s. oqs_set_nid (ps_nids s) name (ce_sn2nid C name))) (\<lambda>(found, tbl).
           thenS (modS (\<lambda>s. s\<lparr>ps_nids := tbl\<rparr>))
           (thenS (ensureS (found \<noteq> 0) (Raise OBJ_CREATE_ERR))
           (if \<not> ce_add_sigid C name then sk_push name
            else ensureS (ce_sn2nid C name \<noteq> 0) (Raise OBJ_CREATE_ERR))))))"

fun register_algorithms ::
    "core_env \<Rightarrow> string option \<Rightarrow> string option list \<Rightarrow> (prov_state, unit) st" where
  "register_algorithms C ver [] = retS ()"
| "register_algorithms C ver [_] = failS UB"
| "register_algorithms C ver (oid # name # rest) =
     bindS (liftS (of_option UB name)) (\<lambda>n.
     thenS (register_algorithm C ver oid n) (register_algorithms C ver rest))"

definition ossl_algs :: "string list" where
  "ossl_algs =
     [''mldsa44'', ''mldsa65'', ''mldsa87'', ''slhdsasha2128s'', ''slhdsasha2128f'',
      ''slhdsasha2192s'', ''slhdsasha2192f'', ''slhdsasha2256s'', ''slhdsasha2256f'',
      ''slhdsashake128s'', ''slhdsashake128f'', ''slhdsashake192s'', ''slhdsashake192f'',
      ''slhdsashake256s'', ''slhdsashake256f'', ''mlkem512'', ''mlkem768'', ''X25519MLKEM768'',
      ''SecP256r1MLKEM768'', ''mlkem1024'', ''SecP384r1MLKEM1024'']"

fun disable_algs :: "string option \<Rightarrow> string list \<Rightarrow> (prov_state, unit) st" where
  "disable_algs ver [] = retS ()"
| "disable_algs ver (name # names) =
     bindS (liftS (version_cmp ''3.5.0'' ver)) (\<lambda>r.
     thenS (if r \<le> 0
            then thenS (modS (\<lambda>s. s\<lparr>rt_algo_filter_enabled := True\<rparr>)) (sk_push name)
            else retS ())
     (disable_algs ver names))"

text \<open>
  The method table, the child library context and the provider context. After a failure the
  library context is freed, the method table is not; \<^verbatim>\<open>*provctx\<close> is NULL on entry, so there is
  no teardown.
\<close>

definition live :: "(live_objs \<Rightarrow> live_objs) \<Rightarrow> (prov_state, unit) st" where
  "live f = modS (\<lambda>s. s\<lparr>ps_live := f (ps_live s)\<rparr>)"

definition new_provider_context :: "core_env \<Rightarrow> (prov_state, provctx) st" where
  "new_provider_context C =
     thenS (ensureS (oqs_bio_prov_init_bio_method (ce_bio C)) (Raise LIB_CREATE_ERR))
     (thenS (live (\<lambda>l. l\<lparr>live_meth := live_meth l + 1\<rparr>))
     (bindS (liftS (of_option (Raise LIB_CREATE_ERR) (ce_child C))) (\<lambda>lc.
      thenS (live (\<lambda>l. l\<lparr>live_libctx := live_libctx l + 1\<rparr>))
      (case oqsx_newprovctx (ce_ctx_ok C) lc (ce_handle C) True of
         Some pc \<Rightarrow> retS pc
       | None \<Rightarrow> thenS (live (\<lambda>l. l\<lparr>live_libctx := live_libctx l - 1\<rparr>)) (failS (Raise LIB_CREATE_ERR))))))"

definition scan_dispatch :: "core_env \<Rightarrow> (prov_state, core_fns) st" where
  "scan_dispatch C =
     bindS (getS (\<lambda>s. scan_core (ce_dispatch C)
       \<lparr>cf_gettable_params = c_gettable_params s, cf_get_params = c_get_params s,
        cf_obj_create = None, cf_obj_add_sigid = None\<rparr>)) (\<lambda>c.
     thenS (modS (\<lambda>s. s\<lparr>c_gettable_params := cf_gettable_params c, c_get_params := cf_get_params c\<rparr>))
     (retS c))"

definition OSSL_provider_init :: "prov_build \<Rightarrow> core_env \<Rightarrow> (prov_state, provctx) st" where
  "OSSL_provider_init B C =
     thenS (modS (\<lambda>s. if rt_disabled_algs s = None \<and> ce_stack_ok C then s\<lparr>rt_disabled_algs := Some []\<rparr> else s))
     (thenS (modS (\<lambda>s. s\<lparr>ps_bio := oqs_prov_bio_from_dispatch (ce_dispatch C) (ps_bio s)\<rparr>))
     (bindS (readS (\<lambda>s. oqs_patch_codepoints (ce_getenv C) (ps_groups s) (ps_sigalgs s))) (\<lambda>(gs, ss).
      thenS (modS (\<lambda>s. s\<lparr>ps_groups := gs, ps_sigalgs := ss\<rparr>))
      (bindS (readS (\<lambda>s. oqs_patch_oids (pb_kem_encoders B) (ce_getenv C) (ps_oids s))) (\<lambda>oids.
       thenS (modS (\<lambda>s. s\<lparr>ps_oids := oids\<rparr>))
       (bindS (scan_dispatch C) (\<lambda>c.
        thenS (ensureS (cf_obj_create c \<noteq> None \<and> cf_obj_add_sigid c \<noteq> None \<and> cf_get_params c \<noteq> None) Quiet)
        (thenS (register_algorithms C (ce_version C) oids)
        (bindS (liftS (version_cmp ''3.4.0'' (ce_version C))) (\<lambda>r.
         thenS (if r \<le> 0 then modS (\<lambda>s. s\<lparr>ps_message_api := True\<rparr>) else retS ())
         (thenS (disable_algs (ce_version C) ossl_algs)
         (new_provider_context C))))))))))))"

definition oqsprovider_teardown :: "provctx \<Rightarrow> prov_state \<Rightarrow> prov_state" where
  "oqsprovider_teardown pc s =
     s\<lparr>ps_live := oqsx_freeprovctx pc (ps_live s), ps_rt := (\<lambda>_. None), rt_disabled_algs := None\<rparr>"

subsection \<open>Queries\<close>

text \<open>
  The search in OpenSSL's sorted stack is a parameter: what the code relies on is that the
  result is negative exactly when the string is not in the stack, a NULL stack or a NULL
  string included.
\<close>

type_synonym sk_find = "string list option \<Rightarrow> string option \<Rightarrow> int"

definition sk_find_ok :: "sk_find \<Rightarrow> bool" where
  "sk_find_ok fnd \<longleftrightarrow> (\<forall>sk name. fnd sk name < 0 \<longleftrightarrow>
     (case (sk, name) of (Some l, Some n) \<Rightarrow> n \<notin> set l | _ \<Rightarrow> True))"

definition cnt_rt_disabled :: "sk_find \<Rightarrow> string list option \<Rightarrow> ossl_algorithm list \<Rightarrow> nat \<Rightarrow> nat" where
  "cnt_rt_disabled fnd sk orig len =
     foldl (\<lambda>dcnt i. if fnd sk (algorithm_names (orig ! i)) \<ge> 0 then dcnt + 1 else dcnt) 0 [0..<len - 1]"

text \<open>The copy into the new table of \<open>cap\<close> rows: writing past its end is undefined.\<close>

fun copy_algs ::
    "sk_find \<Rightarrow> string list option \<Rightarrow> nat \<Rightarrow> ossl_algorithm list \<Rightarrow> ossl_algorithm list
      \<Rightarrow> ossl_algorithm list res" where
  "copy_algs fnd sk cap [] rt = Inr rt"
| "copy_algs fnd sk cap (a # as) rt =
     (if fnd sk (algorithm_names a) < 0 then
        bindR (ensure (length rt < cap) UB) (\<lambda>_. copy_algs fnd sk cap as (rt @ [a]))
      else copy_algs fnd sk cap as rt)"

text \<open>\<open>ok\<close> is the outcome of the allocation, which the code does not test before it writes.\<close>

definition FILTERED_ALGS ::
    "sk_find \<Rightarrow> bool \<Rightarrow> prov_op \<Rightarrow> ossl_algorithm list \<Rightarrow> (prov_state, ossl_algorithm list) st" where
  "FILTERED_ALGS fnd ok op algs =
     bindS (getS (\<lambda>s. s)) (\<lambda>s.
     if \<not> rt_algo_filter_enabled s then retS algs
     else
       let d_algs = cnt_rt_disabled fnd (rt_disabled_algs s) algs (length algs) in
       case ps_rt s op of
         Some rt \<Rightarrow> retS rt
       | None \<Rightarrow>
           thenS (ensureS ok UB)
           (bindS (liftS (copy_algs fnd (rt_disabled_algs s) (length algs - d_algs) algs [])) (\<lambda>rt.
            thenS (modS (\<lambda>s. s\<lparr>ps_rt := (ps_rt s)(op := Some rt)\<rparr>)) (retS rt))))"

definition oqsprovider_query ::
    "sk_find \<Rightarrow> bool \<Rightarrow> prov_build \<Rightarrow> prov_op \<Rightarrow> (prov_state, ossl_algorithm list option \<times> bool) st" where
  "oqsprovider_query fnd ok B op =
     bindS (getS rt_algo_filter_enabled) (\<lambda>no_cache.
     case algorithm_table B op of
       None \<Rightarrow> retS (None, no_cache)
     | Some algs \<Rightarrow> bindS (FILTERED_ALGS fnd ok op algs) (\<lambda>rt. retS (Some rt, no_cache)))"

text \<open>\<^verbatim>\<open>oqsprovider_get_params\<close>: each parameter the core asks for is answered, a refused answer fails.\<close>

datatype prov_value = PV_str string | PV_int int

definition answer_param ::
    "(string \<Rightarrow> bool) \<Rightarrow> (string \<Rightarrow> bool) \<Rightarrow> string \<Rightarrow> prov_value \<Rightarrow> ((string \<times> prov_value) list, unit) st" where
  "answer_param asked takes key v =
     (if asked key then thenS (ensureS (takes key) Quiet) (modS (\<lambda>l. l @ [(key, v)])) else retS ())"

definition oqsprovider_get_params ::
    "string \<Rightarrow> string \<Rightarrow> (string \<Rightarrow> bool) \<Rightarrow> (string \<Rightarrow> bool) \<Rightarrow> ((string \<times> prov_value) list, unit) st" where
  "oqsprovider_get_params version buildinfo asked takes =
     thenS (answer_param asked takes ''name'' (PV_str ''OpenSSL OQS Provider''))
     (thenS (answer_param asked takes ''version'' (PV_str version))
     (thenS (answer_param asked takes ''buildinfo'' (PV_str buildinfo))
     (answer_param asked takes ''status'' (PV_int 1))))"

end
