(* ===== verification/Provider_Correct.thy ===== *)
theory Provider_Correct
  imports Provider
begin

text \<open>
  Correctness of the provider: what a query for algorithms returns, what initialisation
  registers and disables, how the version of the core gates it, the identifiers TLS announces,
  and the objects that initialisation and teardown allocate and free.
\<close>

subsection \<open>Queries\<close>

definition keeps :: "string list option \<Rightarrow> ossl_algorithm \<Rightarrow> bool" where
  "keeps sk a = (case (sk, algorithm_names a) of (Some l, Some n) \<Rightarrow> n \<notin> set l | _ \<Rightarrow> True)"

lemma sk_find_keeps:
  assumes "sk_find_ok fnd"
  shows "fnd sk (algorithm_names a) < 0 \<longleftrightarrow> keeps sk a"
    and "fnd sk (algorithm_names a) \<ge> 0 \<longleftrightarrow> \<not> keeps sk a"
  using assms by (simp_all add: sk_find_ok_def keeps_def not_less [symmetric])

lemma foldl_count:
  "foldl (\<lambda>d i. if P (xs ! i) then d + 1 else d) n [k..<k + m] =
     n + length (filter P (map ((!) xs) [k..<k + m]))" for n :: nat
  by (induction m arbitrary: n) simp_all

lemma cnt_rt_disabled_rows:
  assumes "sk_find_ok fnd"
  shows "cnt_rt_disabled fnd sk (rows @ [end_of_algs]) (Suc (length rows)) =
     length (filter (\<lambda>a. \<not> keeps sk a) rows)"
proof -
  have "map ((!) (rows @ [end_of_algs])) [0..<length rows] = rows"
    by (rule nth_equalityI) (simp_all add: nth_append)
  then show ?thesis
    using foldl_count [of "\<lambda>a. \<not> keeps sk a" "rows @ [end_of_algs]" 0 0 "length rows"]
    by (simp add: cnt_rt_disabled_def sk_find_keeps(2) [OF assms])
qed

lemma copy_algs_rows:
  assumes "sk_find_ok fnd" and "length rt + length (filter (keeps sk) algs) \<le> cap"
  shows "copy_algs fnd sk cap algs rt = Inr (rt @ filter (keeps sk) algs)"
  using assms(2) by (induction algs arbitrary: rt) (auto simp: sk_find_keeps(1) [OF assms(1)])

lemma keeps_end [simp]: "keeps sk end_of_algs"
  by (simp add: keeps_def end_of_algs_def split: option.splits)

lemma algorithm_table_rows: "algorithm_table B op = Some algs \<Longrightarrow> \<exists>rows. algs = rows @ [end_of_algs]"
  by (auto simp: algorithm_table_def split: prov_op.splits)

text \<open>The tables already made are the filtered ones.\<close>

definition tables_current :: "prov_build \<Rightarrow> prov_state \<Rightarrow> bool" where
  "tables_current B s \<longleftrightarrow>
     (\<forall>op rt. ps_rt s op = Some rt \<longrightarrow>
        map_option (filter (keeps (rt_disabled_algs s))) (algorithm_table B op) = Some rt)"

definition visible_algs :: "prov_build \<Rightarrow> prov_state \<Rightarrow> prov_op \<Rightarrow> ossl_algorithm list option" where
  "visible_algs B s op =
     map_option (\<lambda>algs. if rt_algo_filter_enabled s then filter (keeps (rt_disabled_algs s)) algs else algs)
       (algorithm_table B op)"

lemma FILTERED_ALGS_fresh:
  assumes "sk_find_ok fnd" and "algorithm_table B op = Some algs" and "rt_algo_filter_enabled s"
    and "ps_rt s op = None"
  shows "FILTERED_ALGS fnd True op algs s =
     (Inr (filter (keeps (rt_disabled_algs s)) algs),
      s\<lparr>ps_rt := (ps_rt s)(op := Some (filter (keeps (rt_disabled_algs s)) algs))\<rparr>)"
proof -
  let ?k = "keeps (rt_disabled_algs s)"
  obtain rows where rows: "algs = rows @ [end_of_algs]"
    using algorithm_table_rows [OF assms(2)] by blast
  have "length (filter ?k algs) \<le> length algs - cnt_rt_disabled fnd (rt_disabled_algs s) algs (length algs)"
    using sum_length_filter_compl [of ?k rows] by (simp add: rows cnt_rt_disabled_rows [OF assms(1)])
  then have "copy_algs fnd (rt_disabled_algs s)
      (length algs - cnt_rt_disabled fnd (rt_disabled_algs s) algs (length algs)) algs [] = Inr (filter ?k algs)"
    using copy_algs_rows [OF assms(1), of "[]"] by simp
  with assms(3,4) show ?thesis
    by (simp add: FILTERED_ALGS_def st_simps Let_def)
qed

text \<open>
  C34: a query returns the table of the operation with its terminating row, less the disabled rows when the
  filter is on. The copy never leaves its allocation, it is made once, and nothing else changes. The
  only way to undefined behaviour is the allocation of the copy, whose failure the code does not test.
\<close>

theorem query_filtered:
  assumes "sk_find_ok fnd" and "tables_current B s"
  shows "(\<exists>s'. oqsprovider_query fnd True B op s =
       (Inr (visible_algs B s op, rt_algo_filter_enabled s), s')
     \<and> tables_current B s' \<and> s' = s\<lparr>ps_rt := ps_rt s'\<rparr>
     \<and> oqsprovider_query fnd ok B op s' = (Inr (visible_algs B s op, rt_algo_filter_enabled s), s'))
     \<and> (fst (oqsprovider_query fnd False B op s) = Inl UB \<longleftrightarrow>
       rt_algo_filter_enabled s \<and> algorithm_table B op \<noteq> None \<and> ps_rt s op = None)"
proof (cases "rt_algo_filter_enabled s \<and> algorithm_table B op \<noteq> None \<and> ps_rt s op = None")
  case True
  then obtain algs where a: "algorithm_table B op = Some algs"
    by blast
  let ?rt = "filter (keeps (rt_disabled_algs s)) algs"
  let ?s = "s\<lparr>ps_rt := (ps_rt s)(op := Some ?rt)\<rparr>"
  have "oqsprovider_query fnd True B op s = (Inr (visible_algs B s op, rt_algo_filter_enabled s), ?s)"
    using True FILTERED_ALGS_fresh [OF assms(1) a]
    by (simp add: oqsprovider_query_def a visible_algs_def bindS_def getS_def retS_def)
  moreover have "tables_current B ?s"
    using assms(2) a by (simp add: tables_current_def)
  moreover have "oqsprovider_query fnd ok B op ?s = (Inr (visible_algs B s op, rt_algo_filter_enabled s), ?s)"
    using True by (simp add: oqsprovider_query_def a visible_algs_def FILTERED_ALGS_def bindS_def getS_def
        retS_def Let_def)
  moreover have "fst (oqsprovider_query fnd False B op s) = Inl UB"
    using True by (simp add: oqsprovider_query_def a FILTERED_ALGS_def st_simps Let_def bindS_def)
  ultimately show ?thesis
    using True by (intro conjI exI [of _ ?s]) simp_all
next
  case False
  have "oqsprovider_query fnd k B op s = (Inr (visible_algs B s op, rt_algo_filter_enabled s), s)" for k
  proof (cases "algorithm_table B op")
    case None
    then show ?thesis
      by (simp add: oqsprovider_query_def visible_algs_def st_simps)
  next
    case (Some algs)
    then have "ps_rt s op = Some rt \<Longrightarrow> rt = filter (keeps (rt_disabled_algs s)) algs" for rt
      using assms(2) unfolding tables_current_def by (metis option.inject option.map(2))
    with Some False show ?thesis
      by (cases "ps_rt s op") (auto simp: oqsprovider_query_def visible_algs_def FILTERED_ALGS_def
          bindS_def getS_def retS_def Let_def)
  qed
  with False assms(2) show ?thesis
    by simp
qed

definition sample_find :: sk_find where
  "sample_find sk name =
     (case (sk, name) of (Some l, Some n) \<Rightarrow> if n \<in> set l then 0 else -1 | _ \<Rightarrow> -1)"

lemma sample_find_ok: "sk_find_ok sample_find"
  by (simp add: sk_find_ok_def sample_find_def split: option.splits)

definition sample_build :: prov_build where
  "sample_build =
     \<lparr>pb_kem_encoders = True, pb_enabled = (\<lambda>m. m = ''OQS_ENABLE_SIG_ml_dsa_44''),
      pb_encoders = [], pb_decoders = []\<rparr>"

definition sample_filtering :: prov_state where
  "sample_filtering =
     (prov_start sample_build)\<lparr>rt_algo_filter_enabled := True, rt_disabled_algs := Some [''mldsa44'']\<rparr>"

theorem query_filtered_witness:
  "\<exists>s'. oqsprovider_query sample_find True sample_build OP_SIGNATURE sample_filtering =
     (Inr (Some [SIGALG ''p256_mldsa44'' ''128'' ''oqs_signature_functions'',
        SIGALG ''rsa3072_mldsa44'' ''128'' ''oqs_signature_functions'', end_of_algs], True), s')"
proof -
  have "tables_current sample_build sample_filtering"
    by (simp add: tables_current_def sample_filtering_def prov_start_def)
  moreover have "visible_algs sample_build sample_filtering OP_SIGNATURE =
      Some [SIGALG ''p256_mldsa44'' ''128'' ''oqs_signature_functions'',
        SIGALG ''rsa3072_mldsa44'' ''128'' ''oqs_signature_functions'', end_of_algs]"
    by code_simp
  moreover have "rt_algo_filter_enabled sample_filtering"
    by (simp add: sample_filtering_def)
  ultimately show ?thesis
    using query_filtered [OF sample_find_ok, of sample_build sample_filtering OP_SIGNATURE] by auto
qed

subsection \<open>Registration\<close>

text \<open>The list as pairs, and the names that are created and rejected in it.\<close>

definition flat :: "(string option \<times> string) list \<Rightarrow> string option list" where
  "flat ps = concat (map (\<lambda>(oid, n). [oid, Some n]) ps)"

definition created :: "core_env \<Rightarrow> (string option \<times> string) list \<Rightarrow> string list" where
  "created C ps = [n. (Some oid, n) \<leftarrow> ps, ce_obj_create C oid n]"

definition rejected :: "core_env \<Rightarrow> (string option \<times> string) list \<Rightarrow> string list" where
  "rejected C ps = [n. (Some oid, n) \<leftarrow> ps, \<not> (ce_obj_create C oid n \<and> ce_add_sigid C n)]"

definition with_nids :: "(string \<Rightarrow> int) \<Rightarrow> string set \<Rightarrow> nid_entry list \<Rightarrow> nid_entry list" where
  "with_nids nid names tbl = map (\<lambda>e. if tlsname e \<in> names then e\<lparr>ne_nid := nid (tlsname e)\<rparr> else e) tbl"

definition registered_state :: "core_env \<Rightarrow> (string option \<times> string) list \<Rightarrow> prov_state \<Rightarrow> prov_state" where
  "registered_state C ps s =
     s\<lparr>ps_nids := with_nids (ce_sn2nid C) (set (created C ps)) (ps_nids s),
       rt_disabled_algs := map_option (\<lambda>l. l @ rejected C ps) (rt_disabled_algs s)\<rparr>"

lemma flat_simps [simp]: "flat [] = []" "flat ((oid, n) # ps) = oid # Some n # flat ps"
  by (simp_all add: flat_def)

lemma created_simps [simp]:
  "created C [] = []" "created C ((None, n) # ps) = created C ps"
  "created C ((Some oid, n) # ps) = (if ce_obj_create C oid n then [n] else []) @ created C ps"
  by (simp_all add: created_def)

lemma rejected_simps [simp]:
  "rejected C [] = []" "rejected C ((None, n) # ps) = rejected C ps"
  "rejected C ((Some oid, n) # ps) =
     (if ce_obj_create C oid n \<and> ce_add_sigid C n then [] else [n]) @ rejected C ps"
  by (simp_all add: rejected_def)

lemma with_nids_simps [simp]:
  "with_nids f {} tbl = tbl" "map tlsname (with_nids f N tbl) = map tlsname tbl"
  "with_nids f N (with_nids f M tbl) = with_nids f (M \<union> N) tbl"
  by (auto simp: with_nids_def)

lemma oqs_set_nid_with_nids:
  "distinct (map tlsname tbl) \<Longrightarrow> snd (oqs_set_nid tbl name (nid name)) = with_nids nid {name} tbl"
proof (induction tbl)
  case (Cons e es)
  have "with_nids nid {tlsname e} es = es" if "tlsname e \<notin> tlsname ` set es"
  proof -
    have "\<forall>x \<in> set es. tlsname x \<noteq> tlsname e"
      using that by (metis image_eqI)
    then show ?thesis
      by (simp add: with_nids_def map_idI)
  qed
  with Cons show ?case
    by (auto simp: with_nids_def split: prod.splits)
qed (simp add: with_nids_def)

lemma oqs_set_nid_found: "name \<in> tlsname ` set tbl \<Longrightarrow> fst (oqs_set_nid tbl name nid) = 1"
  by (auto simp: oqs_set_nid_ret named_def find_None_iff)

lemma register_algorithm_ok:
  assumes "distinct (map tlsname (ps_nids s))" and "n \<in> tlsname ` set (ps_nids s)" and "ce_sn2nid C n \<noteq> 0"
  shows "register_algorithm C (Some v) oid n s = (Inr (), registered_state C [(oid, n)] s)"
proof -
  obtain tbl where tbl: "oqs_set_nid (ps_nids s) n (ce_sn2nid C n) = (1, tbl)"
      "tbl = with_nids (ce_sn2nid C) {n} (ps_nids s)"
    using oqs_set_nid_found [OF assms(2)] oqs_set_nid_with_nids [OF assms(1)]
    by (metis prod.collapse)
  show ?thesis
    using assms(3) tbl
    by (cases oid; cases "rt_disabled_algs s")
      (auto simp: register_algorithm_def version_cmp_def st_simps sk_push_def registered_state_def
        intro!: prov_state.equality)
qed

lemma registered_state_append:
  "registered_state C ps (registered_state C [x] s) = registered_state C (x # ps) s"
  by (cases x; cases "fst x")
    (auto simp: registered_state_def Un_commute option.map_comp comp_def intro!: prov_state.equality)

lemma registered_state_nids [simp]: "map tlsname (ps_nids (registered_state C ps s)) = map tlsname (ps_nids s)"
  by (simp add: registered_state_def)

lemma register_algorithms_ok:
  assumes "distinct (map tlsname (ps_nids s))" and "snd ` set ps \<subseteq> set (map tlsname (ps_nids s))"
    and "\<forall>n \<in> snd ` set ps. ce_sn2nid C n \<noteq> 0"
  shows "register_algorithms C (Some v) (flat ps) s = (Inr (), registered_state C ps s)"
  using assms
proof (induction ps arbitrary: s)
  case Nil
  then show ?case
    by (cases "rt_disabled_algs s") (simp_all add: registered_state_def st_simps)
next
  case (Cons x ps)
  obtain oid n where x: "x = (oid, n)"
    by (cases x)
  have one: "register_algorithm C (Some v) oid n s = (Inr (), registered_state C [x] s)"
    using register_algorithm_ok [of s n C v oid] Cons.prems x by auto
  have "register_algorithms C (Some v) (flat ps) (registered_state C [x] s) =
      (Inr (), registered_state C ps (registered_state C [x] s))"
    using Cons.prems x by (intro Cons.IH) (simp_all only: registered_state_nids, auto)
  then show ?case
    using one by (simp add: x st_simps thenS_def bindS_def registered_state_append [unfolded x])
qed

text \<open>Fresh, distinct NIDs make every look-up find the entry that was registered under the NID.\<close>

lemma with_nids_lookup:
  assumes "distinct (map tlsname tbl)" and "e \<in> set tbl" and "tlsname e \<in> names"
    and "inj_on nid (tlsname ` set tbl)" and "nid (tlsname e) \<notin> ne_nid ` set tbl"
  shows "List.find (\<lambda>e'. ne_nid e' = nid (tlsname e)) (with_nids nid names tbl) =
     Some (e\<lparr>ne_nid := nid (tlsname e)\<rparr>)"
  using assms
proof (induction tbl)
  case (Cons x tbl)
  show ?case
  proof (cases "x = e")
    case True
    with Cons.prems(3) show ?thesis
      by (simp add: with_nids_def)
  next
    case False
    with Cons.prems have e: "e \<in> set tbl" "tlsname x \<noteq> tlsname e"
      by auto
    then have "nid (tlsname x) \<noteq> nid (tlsname e)"
      using Cons.prems(2,4) by (auto simp: inj_on_def)
    moreover have "ne_nid x \<noteq> nid (tlsname e)"
      using Cons.prems(5) by auto
    moreover have "List.find (\<lambda>e'. ne_nid e' = nid (tlsname e)) (with_nids nid names tbl) =
        Some (e\<lparr>ne_nid := nid (tlsname e)\<rparr>)"
      using Cons.prems e by (intro Cons.IH) (auto simp: inj_on_def)
    ultimately show ?thesis
      by (simp add: with_nids_def)
  qed
qed simp

subsection \<open>The list of identifiers\<close>

fun pairs_of :: "string option list \<Rightarrow> (string option \<times> string) list" where
  "pairs_of (oid # Some n # rest) = (oid, n) # pairs_of rest"
| "pairs_of _ = []"

definition oid_var :: "string \<Rightarrow> string" where
  "oid_var n = ''OQS_OID_'' @ map toupper_char n"

definition patched_pair :: "environ \<Rightarrow> string option \<times> string \<Rightarrow> string option \<times> string" where
  "patched_pair getenv = (\<lambda>(oid, n). (case getenv (oid_var n) of None \<Rightarrow> oid | Some s \<Rightarrow> Some s, n))"

definition patched_pairs :: "bool \<Rightarrow> environ \<Rightarrow> (string option \<times> string) list" where
  "patched_pairs kem_encoders getenv = map (patched_pair getenv) (pairs_of (oqs_oid_alg_list kem_encoders))"

lemma oid_lists_flat:
  "flat (pairs_of oid_alg_list_kem) = oid_alg_list_kem" "flat (pairs_of oid_alg_list_sig) = oid_alg_list_sig"
  by code_simp+

lemma oid_lists_names:
  "map snd (pairs_of oid_alg_list_kem) = map tlsname nid_names_kem"
  "map snd (pairs_of oid_alg_list_sig) = map tlsname nid_names_sig"
  by code_simp+

lemma oid_vars_agree:
  "map fst oid_vars_kem = map (\<lambda>p. oid_var (snd p)) (pairs_of oid_alg_list_kem)"
  "map fst oid_vars_sig = map (\<lambda>p. oid_var (snd p)) (pairs_of oid_alg_list_sig)"
  by (simp_all add: oid_vars_kem_def oid_vars_sig_def oid_alg_list_kem_def oid_alg_list_sig_def oid_var_def
      toupper_lits)

lemma oid_vars_indices:
  "map snd oid_vars_kem = map ((*) 2) [0..<54]" "map snd oid_vars_sig = map ((*) 2) [0..<56]"
  by code_simp+

lemma flat_append [simp]: "flat (ps @ ps2) = flat ps @ flat ps2"
  by (simp add: flat_def)

lemma length_flat: "length (flat ps) = 2 * length ps"
  by (induction ps) (auto simp: flat_def)

lemma pairs_of_flat [simp]: "pairs_of (flat ps) = ps"
  by (induction ps) auto

lemma pairs_of_list:
  "pairs_of (oqs_oid_alg_list kem) =
     (if kem then pairs_of oid_alg_list_kem else []) @ pairs_of oid_alg_list_sig"
  "flat (pairs_of (oqs_oid_alg_list kem)) = oqs_oid_alg_list kem"
  using pairs_of_flat [of "pairs_of oid_alg_list_kem @ pairs_of oid_alg_list_sig"]
  by (simp_all add: oqs_oid_alg_list_def oid_lists_flat)

lemma patch_flat:
  "map fst vs = map (\<lambda>p. oid_var (snd p)) ps \<Longrightarrow>
   map snd vs = map (\<lambda>i. 2 * (length pre + i)) [0..<length ps] \<Longrightarrow>
   patch_table (\<lambda>_ s. Inr (Some s)) getenv (vs @ ws) (flat pre @ flat ps @ post) =
     patch_table (\<lambda>_ s. Inr (Some s)) getenv ws (flat pre @ flat (map (patched_pair getenv) ps) @ post)"
proof (induction ps arbitrary: pre vs)
  case (Cons p ps)
  obtain oid n where p: "p = (oid, n)"
    by (cases p)
  from Cons.prems(1) obtain i vs' where vs: "vs = (oid_var n, i) # vs'"
      "map fst vs' = map (\<lambda>p. oid_var (snd p)) ps"
    by (auto simp: p Cons_eq_map_conv)
  have i: "i = 2 * length pre" and vs': "map snd vs' = map (\<lambda>i. 2 * (length (pre @ [q]) + i)) [0..<length ps]" for q
    using Cons.prems(2)
    by (simp_all add: vs upt_conv_Cons del: upt_Suc flip: map_Suc_upt)
  have "patch_table (\<lambda>_ s. Inr (Some s)) getenv (vs' @ ws) (flat (pre @ [q]) @ flat ps @ post) =
      patch_table (\<lambda>_ s. Inr (Some s)) getenv ws
        (flat (pre @ [q]) @ flat (map (patched_pair getenv) ps) @ post)" for q
    by (intro Cons.IH vs(2) vs')
  from this [of "patched_pair getenv p"] show ?case
    by (cases "getenv (oid_var n)")
      (simp_all add: vs i p patched_pair_def length_flat list_update_append)
qed simp

lemma oids_patched:
  "oqs_patch_oids kem getenv (oqs_oid_alg_list kem) = Inr (flat (patched_pairs kem getenv))"
proof -
  have k: "length (pairs_of oid_alg_list_kem) = 54" and s: "length (pairs_of oid_alg_list_sig) = 56"
    using arg_cong [OF oid_lists_names(1), of length] arg_cong [OF oid_lists_names(2), of length] by simp_all
  let ?P = "\<lambda>vs. patch_table (\<lambda>_ s. Inr (Some s)) getenv vs"
  let ?f = "\<lambda>ps. flat (map (patched_pair getenv) ps)"
  have sig: "?P (map (\<lambda>(v, i). (v, i + 2 * length pre)) oid_vars_sig) (flat pre @ oid_alg_list_sig) =
      Inr (flat pre @ ?f (pairs_of oid_alg_list_sig))" for pre
    using patch_flat [of "map (\<lambda>(v, i). (v, i + 2 * length pre)) oid_vars_sig" "pairs_of oid_alg_list_sig" pre
        getenv "[]" "[]"] oid_vars_agree(2) arg_cong [OF oid_vars_indices(2), of "map (\<lambda>i. i + 2 * length pre)"] s
    by (simp add: oid_lists_flat comp_def case_prod_beta algebra_simps)
  have kem: "?P (oid_vars_kem @ ws) (oid_alg_list_kem @ post) = ?P ws (?f (pairs_of oid_alg_list_kem) @ post)" for ws post
    using patch_flat [of oid_vars_kem "pairs_of oid_alg_list_kem" "[]" getenv ws post] oid_vars_agree(1) oid_vars_indices(1) k
    by (simp add: oid_lists_flat)
  have "flat (patched_pairs kem getenv) =
      (if kem then ?f (pairs_of oid_alg_list_kem) else []) @ ?f (pairs_of oid_alg_list_sig)"
    by (simp add: patched_pairs_def pairs_of_list(1))
  then show ?thesis
    using sig [of "[]"] sig [of "map (patched_pair getenv) (pairs_of oid_alg_list_kem)"]
      kem [of "map (\<lambda>(v, i). (v, i + 108)) oid_vars_sig" oid_alg_list_sig]
    by (simp add: oqs_patch_oids_def oid_vars_def OQS_KEMOID_CNT_def oqs_oid_alg_list_def k)
qed

subsection \<open>Initialisation\<close>

text \<open>
  A core of version \<open>v\<close> with which the provider can register: it gives the functions, code point
  variables hold integers, and the names get distinct, defined NIDs. On a good core the
  provider context can be made too.
\<close>

definition able_core :: "core_env \<Rightarrow> string \<Rightarrow> bool" where
  "able_core C v \<longleftrightarrow>
     ce_version C = Some v \<and>
     {CORE_GET_PARAMS, CORE_OBJ_CREATE, CORE_OBJ_ADD_SIGID} \<subseteq> fst ` set (ce_dispatch C) \<and>
     (\<forall>n s. ce_getenv C (codepoint_var n) = Some s \<longrightarrow> (\<exists>i. atoi s = Inr i)) \<and>
     inj_on (ce_sn2nid C) (tlsname ` set (nid_names True)) \<and>
     0 \<notin> ce_sn2nid C ` tlsname ` set (nid_names True) \<and>
     ce_stack_ok C"

definition good_core :: "core_env \<Rightarrow> string \<Rightarrow> bool" where
  "good_core C v \<longleftrightarrow>
     able_core C v \<and> oqs_bio_prov_init_bio_method (ce_bio C) \<and> ce_child C \<noteq> None \<and> ce_ctx_ok C"

lemma scan_core_present:
  "cf_obj_create (scan_core d c) \<noteq> None \<longleftrightarrow> CORE_OBJ_CREATE \<in> fst ` set d \<or> cf_obj_create c \<noteq> None"
  "cf_obj_add_sigid (scan_core d c) \<noteq> None \<longleftrightarrow> CORE_OBJ_ADD_SIGID \<in> fst ` set d \<or> cf_obj_add_sigid c \<noteq> None"
  "cf_get_params (scan_core d c) \<noteq> None \<longleftrightarrow> CORE_GET_PARAMS \<in> fst ` set d \<or> cf_get_params c \<noteq> None"
  by (induction d c rule: scan_core.induct) (auto split: core_fn.splits)

lemma disable_algs_run:
  "disable_algs (Some v) names s =
     (Inr (), if strcmp ''3.5.0'' v \<le> 0 \<and> names \<noteq> []
        then s\<lparr>rt_algo_filter_enabled := True,
               rt_disabled_algs := map_option (\<lambda>l. l @ names) (rt_disabled_algs s)\<rparr>
        else s)"
proof (induction names arbitrary: s)
  case (Cons n names)
  show ?case
    by (cases "rt_disabled_algs s"; cases "names = []")
      (auto simp: version_cmp_def st_simps sk_push_def Cons thenS_def bindS_def modS_def retS_def liftS_def
        intro!: prov_state.equality)
qed (simp add: st_simps)

text \<open>The state before the registration loop, and after the whole initialisation.\<close>

definition prepared :: "prov_build \<Rightarrow> core_env \<Rightarrow> group_const list \<Rightarrow> sigalg_const list \<Rightarrow> prov_state" where
  "prepared B C gs ss =
     (let c = scan_core (ce_dispatch C)
        \<lparr>cf_gettable_params = None, cf_get_params = None, cf_obj_create = None, cf_obj_add_sigid = None\<rparr>
      in (prov_start B)
        \<lparr>rt_disabled_algs := Some [], ps_bio := oqs_prov_bio_from_dispatch (ce_dispatch C) (\<lambda>_. None),
         ps_groups := gs, ps_sigalgs := ss,
         ps_oids := flat (patched_pairs (pb_kem_encoders B) (ce_getenv C)),
         c_gettable_params := cf_gettable_params c, c_get_params := cf_get_params c\<rparr>)"

lemma scan_dispatch_run:
  "bindS (scan_dispatch C) f s =
     (let c = scan_core (ce_dispatch C)
        \<lparr>cf_gettable_params = c_gettable_params s, cf_get_params = c_get_params s,
         cf_obj_create = None, cf_obj_add_sigid = None\<rparr>
      in f c (s\<lparr>c_gettable_params := cf_gettable_params c, c_get_params := cf_get_params c\<rparr>))"
  by (simp add: scan_dispatch_def Let_def bindS_def thenS_def getS_def modS_def retS_def)

lemma init_prepared:
  assumes "oqs_patch_codepoints (ce_getenv C) oqs_group_list oqs_sigalg_list = Inr (gs, ss)" and "ce_stack_ok C"
    and "{CORE_GET_PARAMS, CORE_OBJ_CREATE, CORE_OBJ_ADD_SIGID} \<subseteq> fst ` set (ce_dispatch C)"
  shows "OSSL_provider_init B C (prov_start B) =
     thenS (register_algorithms C (ce_version C) (flat (patched_pairs (pb_kem_encoders B) (ce_getenv C))))
     (bindS (liftS (version_cmp ''3.4.0'' (ce_version C))) (\<lambda>r.
      thenS (if r \<le> 0 then modS (\<lambda>s. s\<lparr>ps_message_api := True\<rparr>) else retS ())
      (thenS (disable_algs (ce_version C) ossl_algs) (new_provider_context C)))) (prepared B C gs ss)"
proof -
  have p: "cf_obj_create (scan_core (ce_dispatch C) c) \<noteq> None" "cf_obj_add_sigid (scan_core (ce_dispatch C) c) \<noteq> None"
    "cf_get_params (scan_core (ce_dispatch C) c) \<noteq> None" for c
    using assms(3) by (simp_all only: scan_core_present) simp_all
  show ?thesis
    unfolding OSSL_provider_init_def
    using assms(1,2) p
    by (simp add: st_simps prov_start_def bindS_readS oids_patched prepared_def scan_dispatch_run Let_def)
qed

text \<open>The state when the contexts are made.\<close>

definition initialised :: "prov_build \<Rightarrow> core_env \<Rightarrow> string \<Rightarrow> group_const list \<Rightarrow> sigalg_const list \<Rightarrow> prov_state" where
  "initialised B C v gs ss =
     (let s = registered_state C (patched_pairs (pb_kem_encoders B) (ce_getenv C)) (prepared B C gs ss)
      in s\<lparr>rt_algo_filter_enabled := strcmp ''3.5.0'' v \<le> 0,
           rt_disabled_algs := Some (the (rt_disabled_algs s) @ (if strcmp ''3.5.0'' v \<le> 0 then ossl_algs else [])),
           ps_message_api := strcmp ''3.4.0'' v \<le> 0\<rparr>)"

lemma nid_names_facts:
  "distinct (map tlsname (nid_names kem))" "set (nid_names kem) \<subseteq> set (nid_names True)"
  "\<forall>e \<in> set (nid_names kem). ne_nid e = 0"
  "map snd (patched_pairs kem getenv) = map tlsname (nid_names kem)"
proof -
  show "distinct (map tlsname (nid_names kem))"
    by (rule distinct_tlsnames)
  show "set (nid_names kem) \<subseteq> set (nid_names True)"
    by (auto simp: nid_names_def)
  show "\<forall>e \<in> set (nid_names kem). ne_nid e = 0"
    using nid_names_unregistered by auto
  show "map snd (patched_pairs kem getenv) = map tlsname (nid_names kem)"
    by (simp add: patched_pairs_def pairs_of_list(1) oid_lists_names nid_names_def comp_def patched_pair_def
        case_prod_beta)
qed

lemma prepared_simps [simp]:
  "ps_nids (prepared B C gs ss) = nid_names (pb_kem_encoders B)"
  "rt_disabled_algs (prepared B C gs ss) = Some []" "rt_algo_filter_enabled (prepared B C gs ss) = False"
  "ps_message_api (prepared B C gs ss) = False" "ps_rt (prepared B C gs ss) = (\<lambda>_. None)"
  "ps_oids (prepared B C gs ss) = flat (patched_pairs (pb_kem_encoders B) (ce_getenv C))"
  "ps_groups (prepared B C gs ss) = gs" "ps_sigalgs (prepared B C gs ss) = ss"
  "ps_live (prepared B C gs ss) = \<lparr>live_libctx = 0, live_meth = 0\<rparr>"
  by (simp_all add: prepared_def prov_start_def Let_def)

lemma able_core_fields:
  assumes "able_core C v"
  shows "ce_version C = Some v" "ce_stack_ok C"
    "{CORE_GET_PARAMS, CORE_OBJ_CREATE, CORE_OBJ_ADD_SIGID} \<subseteq> fst ` set (ce_dispatch C)"
    "\<And>n s. ce_getenv C (codepoint_var n) = Some s \<Longrightarrow> \<exists>i. atoi s = Inr i"
    "e \<in> set (nid_names kem) \<Longrightarrow> ce_sn2nid C (tlsname e) \<noteq> 0"
    "inj_on (ce_sn2nid C) (tlsname ` set (nid_names kem))"
proof -
  have "tlsname ` set (nid_names kem) \<subseteq> tlsname ` set (nid_names True)"
    using nid_names_facts(2) by (rule image_mono)
  with assms show "e \<in> set (nid_names kem) \<Longrightarrow> ce_sn2nid C (tlsname e) \<noteq> 0"
    "inj_on (ce_sn2nid C) (tlsname ` set (nid_names kem))"
    unfolding able_core_def by (metis imageI subset_eq, blast intro: inj_on_subset)
qed (use assms in \<open>auto simp: able_core_def\<close>)

lemma codepoints_patched_ex:
  assumes "\<And>n s. getenv (codepoint_var n) = Some s \<Longrightarrow> \<exists>i. atoi s = Inr i"
  obtains gs ss where "oqs_patch_codepoints getenv oqs_group_list oqs_sigalg_list = Inr (gs, ss)"
proof -
  obtain gs where "patch_table set_group_id getenv group_codepoint_vars oqs_group_list = Inr gs"
    using patch_table_rows [OF group_tables_agree length_const_tables(1) set_code_total(1)] assms by blast
  moreover obtain ss where "patch_table set_code_point getenv sigalg_codepoint_vars oqs_sigalg_list = Inr ss"
    using patch_table_rows [OF sigalg_tables_agree length_const_tables(2) set_code_total(2)] assms by blast
  ultimately show ?thesis
    using that by (simp add: oqs_patch_codepoints_def)
qed

lemma registered_run:
  assumes "able_core C v"
  shows "register_algorithms C (Some w) (flat (patched_pairs (pb_kem_encoders B) (ce_getenv C))) (prepared B C gs ss) =
     (Inr (), registered_state C (patched_pairs (pb_kem_encoders B) (ce_getenv C)) (prepared B C gs ss))"
proof (rule register_algorithms_ok)
  have n: "snd ` set (patched_pairs (pb_kem_encoders B) (ce_getenv C)) = tlsname ` set (nid_names (pb_kem_encoders B))"
    using arg_cong [OF nid_names_facts(4), of set] by simp
  show "snd ` set (patched_pairs (pb_kem_encoders B) (ce_getenv C)) \<subseteq> set (map tlsname (ps_nids (prepared B C gs ss)))"
    by (simp add: n)
  show "\<forall>n \<in> snd ` set (patched_pairs (pb_kem_encoders B) (ce_getenv C)). ce_sn2nid C n \<noteq> 0"
    unfolding n using able_core_fields(5) [OF assms] by auto
qed (simp add: nid_names_facts)

lemma init_able:
  assumes "able_core C v"
    and "oqs_patch_codepoints (ce_getenv C) oqs_group_list oqs_sigalg_list = Inr (gs, ss)"
  shows "OSSL_provider_init B C (prov_start B) = new_provider_context C (initialised B C v gs ss)"
proof -
  note g = able_core_fields [OF assms(1)]
  let ?s = "registered_state C (patched_pairs (pb_kem_encoders B) (ce_getenv C)) (prepared B C gs ss)"
  have d: "rt_disabled_algs ?s = Some (rejected C (patched_pairs (pb_kem_encoders B) (ce_getenv C)))"
    "rt_algo_filter_enabled ?s = False" "ps_message_api ?s = False"
    by (simp_all add: registered_state_def)
  have "ossl_algs \<noteq> []"
    by (simp add: ossl_algs_def)
  then have "snd (disable_algs (Some v) ossl_algs
      (snd ((if strcmp ''3.4.0'' v \<le> 0 then modS (\<lambda>s. s\<lparr>ps_message_api := True\<rparr>) else retS ()) ?s))) =
      initialised B C v gs ss"
    using d by (auto simp: disable_algs_run st_simps initialised_def Let_def intro!: prov_state.equality)
  moreover have "thenS (register_algorithms C (Some v) (flat (patched_pairs (pb_kem_encoders B) (ce_getenv C)))) n
      (prepared B C gs ss) = n ?s" for n :: "(prov_state, provctx) st"
    by (rule thenS_Inr) (rule registered_run [OF assms(1)])
  moreover have "thenS (disable_algs (Some v) ossl_algs) n t = n (snd (disable_algs (Some v) ossl_algs t))"
    for n :: "(prov_state, provctx) st" and t
    by (rule thenS_Inr) (simp add: disable_algs_run)
  ultimately show ?thesis
    by (auto simp: init_prepared [OF assms(2) g(2,3)] g(1) version_cmp_def st_simps)
qed

lemma init_run:
  assumes "good_core C v"
    and "oqs_patch_codepoints (ce_getenv C) oqs_group_list oqs_sigalg_list = Inr (gs, ss)"
  shows "\<exists>pc. pc_meth pc \<and> OSSL_provider_init B C (prov_start B) =
     (Inr pc, (initialised B C v gs ss)\<lparr>ps_live := \<lparr>live_libctx = 1, live_meth = 1\<rparr>\<rparr>)"
proof -
  have "ps_live (initialised B C v gs ss) = \<lparr>live_libctx = 0, live_meth = 0\<rparr>"
    by (simp add: initialised_def registered_state_def Let_def)
  then show ?thesis
    using assms
    by (auto simp: good_core_def init_able new_provider_context_def live_def st_simps oqsx_newprovctx_def
        intro!: prov_state.equality)
qed

end
