(* ===== verification/Provider_Init.thy ===== *)
theory Provider_Init
  imports Provider_Correct Registration
begin

text \<open>
  What the initialisation of the provider achieves, stated for the functions around it: the keys
  that can be made from the registered NIDs, the algorithms that stay visible, the identifiers
  announced to TLS, and the objects allocated and freed.
\<close>

subsection \<open>A complete initialisation\<close>

lemma initialised_nids:
  "ps_nids (initialised B C v gs ss) =
     with_nids (ce_sn2nid C) (set (created C (patched_pairs (pb_kem_encoders B) (ce_getenv C))))
       (nid_names (pb_kem_encoders B))"
  by (simp add: initialised_def registered_state_def Let_def)

lemma created_names: "set (created C ps) \<subseteq> snd ` set ps"
  by (force simp: created_def)

lemma initialised_lookup:
  assumes "able_core C v" and "n \<in> set (created C (patched_pairs (pb_kem_encoders B) (ce_getenv C)))"
  shows "\<exists>e \<in> set (nid_names (pb_kem_encoders B)). tlsname e = n \<and>
     List.find (\<lambda>e'. ne_nid e' = ce_sn2nid C n) (ps_nids (initialised B C v gs ss)) =
       Some (e\<lparr>ne_nid := ce_sn2nid C n\<rparr>)"
proof -
  have "n \<in> tlsname ` set (nid_names (pb_kem_encoders B))"
    using subsetD [OF created_names assms(2)] arg_cong [OF nid_names_facts(4), of set "pb_kem_encoders B" "ce_getenv C"]
    by simp
  then obtain e where e: "e \<in> set (nid_names (pb_kem_encoders B))" "tlsname e = n"
    by blast
  have "ce_sn2nid C (tlsname e) \<notin> ne_nid ` set (nid_names (pb_kem_encoders B))"
    using able_core_fields(5) [OF assms(1) e(1)] nid_names_facts(3) by auto
  with with_nids_lookup [OF nid_names_facts(1) e(1) _ able_core_fields(6) [OF assms(1)]] e assms(2)
  show ?thesis
    by (intro bexI [of _ e]) (simp_all add: initialised_nids)
qed

text \<open>
  C33: on such a core initialisation succeeds. Every algorithm whose object the core created is found under
  its NID with the data of its table entry; the disabled algorithms are those the core rejected and, from
  version 3.5.0 on, the ones OpenSSL implements itself; the filter is on, and the message interface
  active, exactly from the versions the code names, in the order of strings.
\<close>

theorem init_complete:
  assumes "good_core C v"
  shows "\<exists>pc s. OSSL_provider_init B C (prov_start B) = (Inr pc, s)
     \<and> ps_oids s = flat (patched_pairs (pb_kem_encoders B) (ce_getenv C))
     \<and> (\<forall>n \<in> set (created C (patched_pairs (pb_kem_encoders B) (ce_getenv C))).
          \<exists>e \<in> set (nid_names (pb_kem_encoders B)). tlsname e = n
          \<and> get_oqsname (ps_nids s) (ce_sn2nid C n) = Some (oqsname e)
          \<and> get_keytype (ps_nids s) (ce_sn2nid C n) = ne_keytype e
          \<and> get_secbits (ps_nids s) (ce_sn2nid C n) = secbits e
          \<and> get_reverseshare (ps_nids s) (ce_sn2nid C n) = reverseshare e)
     \<and> rt_disabled_algs s = Some (rejected C (patched_pairs (pb_kem_encoders B) (ce_getenv C)) @
          (if strcmp ''3.5.0'' v \<le> 0 then ossl_algs else []))
     \<and> (rt_algo_filter_enabled s \<longleftrightarrow> strcmp ''3.5.0'' v \<le> 0)
     \<and> (ps_message_api s \<longleftrightarrow> strcmp ''3.4.0'' v \<le> 0)"
proof -
  let ?ps = "patched_pairs (pb_kem_encoders B) (ce_getenv C)"
  have a: "able_core C v"
    using assms by (simp add: good_core_def)
  obtain gs ss where c: "oqs_patch_codepoints (ce_getenv C) oqs_group_list oqs_sigalg_list = Inr (gs, ss)"
    using codepoints_patched_ex [OF able_core_fields(4) [OF a]] .
  let ?s = "(initialised B C v gs ss)\<lparr>ps_live := \<lparr>live_libctx = 1, live_meth = 1\<rparr>\<rparr>"
  obtain pc where "OSSL_provider_init B C (prov_start B) = (Inr pc, ?s)"
    using init_run [OF assms c] by blast
  moreover have "\<exists>e \<in> set (nid_names (pb_kem_encoders B)). tlsname e = n
      \<and> get_oqsname (ps_nids ?s) (ce_sn2nid C n) = Some (oqsname e)
      \<and> get_keytype (ps_nids ?s) (ce_sn2nid C n) = ne_keytype e
      \<and> get_secbits (ps_nids ?s) (ce_sn2nid C n) = secbits e
      \<and> get_reverseshare (ps_nids ?s) (ce_sn2nid C n) = reverseshare e" if "n \<in> set (created C ?ps)" for n
    using initialised_lookup [OF a that, of gs ss]
    by (auto simp: oqsname.look_find keytype.look_find secbits.look_find reverseshare.look_find)
  ultimately show ?thesis
    by (intro exI [of _ pc] exI [of _ ?s]) (simp add: initialised_def registered_state_def Let_def)
qed

text \<open>
  The table that initialisation leaves is one of \<open>table_of\<close>: on a core that names the objects it created
  as it looks them up, no key creation of the provider is undefined.
\<close>

lemma with_nids_table_of:
  "with_nids f (set ns) (nid_names b) = table_of b (map (\<lambda>n. (n, f n)) ns)"
proof (induction ns rule: rev_induct)
  case Nil
  then show ?case by (simp add: table_of_def)
next
  case (snoc n ns)
  have d: "distinct (map tlsname (table_of b (map (\<lambda>n. (n, f n)) ns)))"
    unfolding snoc.IH [symmetric] by (simp add: distinct_tlsnames)
  have "table_of b (map (\<lambda>n. (n, f n)) (ns @ [n])) = with_nids f {n} (table_of b (map (\<lambda>n. (n, f n)) ns))"
    using oqs_set_nid_with_nids [OF d, of n f] by (simp add: table_of_snoc)
  also have "\<dots> = with_nids f (set (ns @ [n])) (nid_names b)"
    unfolding snoc.IH [symmetric] by simp
  finally show ?case by simp
qed

lemma init_registered:
  assumes "good_core C v" and "OSSL_provider_init B C (prov_start B) = (Inr pc, s)"
    and "\<And>n. n \<in> tlsname ` set (nid_names (pb_kem_encoders B)) \<Longrightarrow> sn (ce_sn2nid C n) = Some n"
  shows "registered (ps_nids s) sn"
proof -
  let ?ps = "patched_pairs (pb_kem_encoders B) (ce_getenv C)"
  have a: "able_core C v"
    using assms(1) by (simp add: good_core_def)
  obtain gs ss where c: "oqs_patch_codepoints (ce_getenv C) oqs_group_list oqs_sigalg_list = Inr (gs, ss)"
    using codepoints_patched_ex [OF able_core_fields(4) [OF a]] .
  from init_run [OF assms(1) c, of B] assms(2) have "ps_nids s = ps_nids (initialised B C v gs ss)"
    by auto
  also have "\<dots> = table_of (pb_kem_encoders B) (map (\<lambda>n. (n, ce_sn2nid C n)) (created C ?ps))"
    by (simp only: initialised_nids with_nids_table_of)
  finally have "ps_nids s = table_of (pb_kem_encoders B) (map (\<lambda>n. (n, ce_sn2nid C n)) (created C ?ps))" .
  moreover have "set (created C ?ps) \<subseteq> tlsname ` set (nid_names (pb_kem_encoders B))"
    using created_names [of C ?ps] arg_cong [OF nid_names_facts(4), of set "pb_kem_encoders B" "ce_getenv C"] by simp
  ultimately show ?thesis
    unfolding registered_def using assms(3)
    by (intro exI [of _ "pb_kem_encoders B"] exI [of _ "map (\<lambda>n. (n, ce_sn2nid C n)) (created C ?ps)"]) auto
qed

text \<open>The position of a name in a list without repetitions identifies it.\<close>

lemma inj_on_position: "inj_on (\<lambda>n. length (takeWhile (\<lambda>m. m \<noteq> n) xs)) (set xs)"
proof (rule inj_onI)
  fix a b assume ab: "a \<in> set xs" "b \<in> set xs"
    and eq: "length (takeWhile (\<lambda>m. m \<noteq> a) xs) = length (takeWhile (\<lambda>m. m \<noteq> b) xs)"
  have "xs ! length (takeWhile (\<lambda>m. m \<noteq> c) xs) = c" if "c \<in> set xs" for c
    using that nth_length_takeWhile [of "\<lambda>m. m \<noteq> c" xs]
    by (metis (mono_tags, lifting) length_takeWhile_le order_le_imp_less_or_eq takeWhile_eq_all_conv
        takeWhile_eq_take take_all_iff order_refl)
  with ab eq show "a = b"
    by metis
qed

definition sample_core :: core_env where
  "sample_core =
     \<lparr>ce_handle = 7, ce_dispatch = [(CORE_GET_PARAMS, 1), (CORE_OBJ_CREATE, 2), (CORE_OBJ_ADD_SIGID, 3)],
      ce_version = Some ''3.4.1'', ce_obj_create = (\<lambda>_ n. n \<noteq> ''mldsa65''), ce_add_sigid = (\<lambda>_. True),
      ce_sn2nid = (\<lambda>n. 1200 + int (length (takeWhile (\<lambda>m. m \<noteq> n) (map tlsname (nid_names True))))),
      ce_getenv = (\<lambda>_. None),
      ce_bio = \<lparr>up_ref_ok = (\<lambda>_. True), bio_new_ok = True, meth_new_ok = True, meth_set_ok = (\<lambda>_. True)\<rparr>,
      ce_stack_ok = True, ce_child = Some 1, ce_ctx_ok = True\<rparr>"

lemma sample_core_good: "good_core sample_core ''3.4.1''"
proof -
  have "inj_on (ce_sn2nid sample_core) (tlsname ` set (nid_names True))"
    using inj_on_position [of "map tlsname (nid_names True)"]
    by (simp add: sample_core_def inj_on_def)
  moreover have "0 \<notin> ce_sn2nid sample_core ` tlsname ` set (nid_names True)"
    by (auto simp: sample_core_def)
  ultimately show ?thesis
    by (simp add: good_core_def able_core_def)
      (simp add: sample_core_def oqs_bio_prov_init_bio_method_def list_all_iff)
qed

lemma sample_core_pairs: "patched_pairs kem (ce_getenv sample_core) = pairs_of (oqs_oid_alg_list kem)"
  by (simp add: patched_pairs_def patched_pair_def sample_core_def)

lemma sample_core_rejected: "rejected sample_core (pairs_of (oqs_oid_alg_list True)) = [''mldsa65'']"
  by code_simp

theorem init_complete_witness:
  "\<exists>pc s. OSSL_provider_init sample_build sample_core (prov_start sample_build) = (Inr pc, s) \<and>
     rt_disabled_algs s = Some [''mldsa65''] \<and> \<not> rt_algo_filter_enabled s \<and> ps_message_api s"
proof -
  have "strcmp ''3.5.0'' ''3.4.1'' = 1" "strcmp ''3.4.0'' ''3.4.1'' = -1"
    by code_simp+
  then show ?thesis
    using init_complete [OF sample_core_good, of sample_build]
    by (auto simp: sample_build_def sample_core_pairs sample_core_rejected)
qed

subsection \<open>The version of the core\<close>

lemma register_algorithms_null:
  "fst (register_algorithms C None (flat ps) s) = Inl UB \<or>
   (\<exists>s'. register_algorithms C None (flat ps) s = (Inr (), s'))"
proof (induction ps arbitrary: s)
  case (Cons p ps)
  obtain oid n where p: "p = (oid, n)"
    by (cases p)
  have "fst (register_algorithm C None oid n s) = Inl UB \<or> (\<exists>s'. register_algorithm C None oid n s = (Inr (), s'))"
    by (auto simp: register_algorithm_def version_cmp_def st_simps sk_push_def split: option.splits)
  then show ?case
  proof
    assume "fst (register_algorithm C None oid n s) = Inl UB"
    then show ?thesis
      by (cases "register_algorithm C None oid n s") (simp add: p st_simps thenS_def bindS_def)
  next
    assume "\<exists>s'. register_algorithm C None oid n s = (Inr (), s')"
    then obtain s1 where "register_algorithm C None oid n s = (Inr (), s1)"
      by blast
    with Cons.IH [of s1] show ?thesis
      by (simp add: p st_simps thenS_def bindS_def)
  qed
qed (simp add: st_simps)

text \<open>
  C36: the comparison of versions is one of strings, so a core of version 3.10.0 counts as older than 3.4.0:
  initialisation succeeds without the filter and without the message interface. A core that does not
  give its version makes initialisation follow a NULL pointer.
\<close>

theorem version_order:
  assumes "good_core C v"
  shows "(\<exists>pc s. OSSL_provider_init B (C\<lparr>ce_version := Some ''3.10.0''\<rparr>) (prov_start B) = (Inr pc, s)
     \<and> \<not> rt_algo_filter_enabled s \<and> \<not> ps_message_api s)
     \<and> fst (OSSL_provider_init B (C\<lparr>ce_version := None\<rparr>) (prov_start B)) = Inl UB"
proof
  have a: "able_core C v"
    using assms by (simp add: good_core_def)
  obtain gs ss where c: "oqs_patch_codepoints (ce_getenv C) oqs_group_list oqs_sigalg_list = Inr (gs, ss)"
    using codepoints_patched_ex [OF able_core_fields(4) [OF a]] .
  let ?C = "C\<lparr>ce_version := Some ''3.10.0''\<rparr>"
  have "good_core ?C ''3.10.0''"
    using assms by (simp add: good_core_def able_core_def)
  from init_run [OF this] c obtain pc where "OSSL_provider_init B ?C (prov_start B) =
      (Inr pc, (initialised B ?C ''3.10.0'' gs ss)\<lparr>ps_live := \<lparr>live_libctx = 1, live_meth = 1\<rparr>\<rparr>)"
    by auto
  moreover have "strcmp ''3.5.0'' ''3.10.0'' = 1" "strcmp ''3.4.0'' ''3.10.0'' = 1"
    by code_simp+
  ultimately show "\<exists>pc s. OSSL_provider_init B ?C (prov_start B) = (Inr pc, s)
      \<and> \<not> rt_algo_filter_enabled s \<and> \<not> ps_message_api s"
    by (simp add: initialised_def Let_def)
  let ?N = "C\<lparr>ce_version := None\<rparr>"
  let ?ps = "flat (patched_pairs (pb_kem_encoders B) (ce_getenv C))"
  have "OSSL_provider_init B ?N (prov_start B) =
      thenS (register_algorithms ?N None ?ps) (failS UB) (prepared B ?N gs ss)"
    using init_prepared [of ?N gs ss B] c able_core_fields(2,3) [OF a]
    by (simp add: version_cmp_def) (simp add: bindS_def liftS_def failS_def)
  then show "fst (OSSL_provider_init B ?N (prov_start B)) = Inl UB"
    using register_algorithms_null [of ?N "patched_pairs (pb_kem_encoders B) (ce_getenv C)" "prepared B ?N gs ss"]
    by (cases "register_algorithms ?N None ?ps (prepared B ?N gs ss)")
      (auto simp: thenS_def bindS_def failS_def)
qed

theorem version_order_witness:
  "fst (OSSL_provider_init sample_build (sample_core\<lparr>ce_version := None\<rparr>) (prov_start sample_build)) = Inl UB"
  using version_order [OF sample_core_good] by simp

subsection \<open>Algorithms the core rejects\<close>

definition capability_name :: "capability \<Rightarrow> string" where
  "capability_name c = (case c of TlsGroup _ _ a _ \<Rightarrow> a | TlsSigalg _ n _ _ \<Rightarrow> n)"

text \<open>
  C35: an algorithm the core did not register is not announced to TLS, but with a core before version 3.5.0
  the queries still return every table in full, that algorithm included.
\<close>

theorem rejected_still_offered:
  assumes "good_core C v" and "0 < strcmp ''3.5.0'' v" and "sk_find_ok fnd"
    and "n \<in> set (rejected C (patched_pairs (pb_kem_encoders B) (ce_getenv C)))"
  shows "\<exists>pc s. OSSL_provider_init B C (prov_start B) = (Inr pc, s)
     \<and> oqsprovider_query fnd True B op s = (Inr (algorithm_table B op, False), s)
     \<and> n \<notin> capability_name ` set (snd (oqs_provider_get_capabilities (pb_enabled B)
          (\<lambda>a. fnd (rt_disabled_algs s) (Some a) \<ge> 0) (ps_groups s) (ps_sigalgs s) cap cb))"
proof -
  have a: "able_core C v"
    using assms(1) by (simp add: good_core_def)
  obtain gs ss where c: "oqs_patch_codepoints (ce_getenv C) oqs_group_list oqs_sigalg_list = Inr (gs, ss)"
    using codepoints_patched_ex [OF able_core_fields(4) [OF a]] .
  let ?s = "(initialised B C v gs ss)\<lparr>ps_live := \<lparr>live_libctx = 1, live_meth = 1\<rparr>\<rparr>"
  obtain pc where "OSSL_provider_init B C (prov_start B) = (Inr pc, ?s)"
    using init_run [OF assms(1) c] by blast
  moreover have "\<not> rt_algo_filter_enabled ?s"
    using assms(2) by (simp add: initialised_def Let_def)
  then have "oqsprovider_query fnd True B op ?s = (Inr (algorithm_table B op, False), ?s)"
    by (simp add: oqsprovider_query_def FILTERED_ALGS_def bindS_def getS_def retS_def split: option.splits)
  moreover have "n \<in> set (the (rt_disabled_algs ?s))" "rt_disabled_algs ?s \<noteq> None"
    using assms(4) by (simp_all add: initialised_def registered_state_def Let_def)
  then have "\<not> fnd (rt_disabled_algs ?s) (Some n) < 0"
    using assms(3) by (auto simp: sk_find_ok_def)
  then have "n \<notin> capability_name ` set (snd (oqs_provider_get_capabilities (pb_enabled B)
      (\<lambda>a. fnd (rt_disabled_algs ?s) (Some a) \<ge> 0) (ps_groups ?s) (ps_sigalgs ?s) cap cb))"
    by (auto simp: get_capabilities_offered capability_name_def group_capability_def sigalg_capability_def
        dest!: subsetD [OF offered_subset])
  ultimately show ?thesis
    by blast
qed

theorem rejected_still_offered_witness:
  "\<exists>pc s. OSSL_provider_init sample_build sample_core (prov_start sample_build) = (Inr pc, s)
     \<and> oqsprovider_query sample_find True sample_build OP_KEYMGMT s =
         (Inr (algorithm_table sample_build OP_KEYMGMT, False), s)"
proof -
  have "0 < strcmp ''3.5.0'' ''3.4.1''"
    by code_simp
  moreover have "''mldsa65'' \<in> set (rejected sample_core (patched_pairs (pb_kem_encoders sample_build) (ce_getenv sample_core)))"
    by (simp add: sample_build_def sample_core_pairs sample_core_rejected)
  ultimately show ?thesis
    using rejected_still_offered [OF sample_core_good _ sample_find_ok] by blast
qed

subsection \<open>Identifiers announced to TLS\<close>

text \<open>
  C40: the object identifier announced to TLS for a signature algorithm is the registered one between
  quotation marks, for every algorithm, and so never the registered identifier.
\<close>

theorem sigalg_oid_quoted:
  "map sp_name all_sigalgs = map snd (pairs_of oid_alg_list_sig)
   \<and> map sp_oid all_sigalgs = map (stringify_literal \<circ> the \<circ> fst) (pairs_of oid_alg_list_sig)
   \<and> list_all2 (\<lambda>p q. Some (sp_oid p) \<noteq> fst q) all_sigalgs (pairs_of oid_alg_list_sig)"
  by code_simp

subsection \<open>Allocated objects\<close>

text \<open>
  C37: initialisation followed by teardown frees the library context and the method table, forgets the
  disabled algorithms and the filtered tables, and keeps the filter flag. When the child library context
  or the provider context cannot be made, initialisation fails with no library context left and
  with the method table allocated and unreachable.
\<close>

theorem init_live_objects:
  assumes "good_core C v"
  shows "(\<exists>pc s. OSSL_provider_init B C (prov_start B) = (Inr pc, s)
     \<and> ps_live (oqsprovider_teardown pc s) = \<lparr>live_libctx = 0, live_meth = 0\<rparr>
     \<and> rt_disabled_algs (oqsprovider_teardown pc s) = None \<and> ps_rt (oqsprovider_teardown pc s) = (\<lambda>_. None)
     \<and> rt_algo_filter_enabled (oqsprovider_teardown pc s) = rt_algo_filter_enabled s)
   \<and> (\<exists>s. OSSL_provider_init B (C\<lparr>ce_child := None\<rparr>) (prov_start B) = (Inl (Raise LIB_CREATE_ERR), s)
     \<and> ps_live s = \<lparr>live_libctx = 0, live_meth = 1\<rparr>)
   \<and> (\<exists>s. OSSL_provider_init B (C\<lparr>ce_ctx_ok := False\<rparr>) (prov_start B) = (Inl (Raise LIB_CREATE_ERR), s)
     \<and> ps_live s = \<lparr>live_libctx = 0, live_meth = 1\<rparr>)"
proof -
  have a: "able_core C v"
    using assms by (simp add: good_core_def)
  obtain gs ss where c: "oqs_patch_codepoints (ce_getenv C) oqs_group_list oqs_sigalg_list = Inr (gs, ss)"
    using codepoints_patched_ex [OF able_core_fields(4) [OF a]] .
  have z: "ps_live (initialised B D v gs ss) = \<lparr>live_libctx = 0, live_meth = 0\<rparr>" for D
    by (simp add: initialised_def registered_state_def Let_def)
  obtain pc where "pc_meth pc" "OSSL_provider_init B C (prov_start B) =
      (Inr pc, (initialised B C v gs ss)\<lparr>ps_live := \<lparr>live_libctx = 1, live_meth = 1\<rparr>\<rparr>)"
    using init_run [OF assms c] by blast
  moreover have "able_core (C\<lparr>ce_child := None\<rparr>) v" "able_core (C\<lparr>ce_ctx_ok := False\<rparr>) v"
    using a by (simp_all add: able_core_def)
  then have "OSSL_provider_init B (C\<lparr>ce_child := None\<rparr>) (prov_start B) =
      new_provider_context (C\<lparr>ce_child := None\<rparr>) (initialised B (C\<lparr>ce_child := None\<rparr>) v gs ss)"
    "OSSL_provider_init B (C\<lparr>ce_ctx_ok := False\<rparr>) (prov_start B) =
      new_provider_context (C\<lparr>ce_ctx_ok := False\<rparr>) (initialised B (C\<lparr>ce_ctx_ok := False\<rparr>) v gs ss)"
    using init_able c by auto
  ultimately show ?thesis
    using assms by (auto simp: oqsprovider_teardown_def oqsx_freeprovctx_def good_core_def new_provider_context_def
        live_def st_simps oqsx_newprovctx_def z)
qed

theorem init_live_objects_witness:
  "\<exists>s. OSSL_provider_init sample_build (sample_core\<lparr>ce_child := None\<rparr>) (prov_start sample_build) =
     (Inl (Raise LIB_CREATE_ERR), s) \<and> ps_live s = \<lparr>live_libctx = 0, live_meth = 1\<rparr>"
  using init_live_objects [OF sample_core_good] by simp

end
