(* ===== verification/Encoder.thy ===== *)
theory Encoder
  imports Keymgmt Core_Bio
begin

text \<open>
  The encoders of \<^verbatim>\<open>oqs_encode_key2any.c\<close> and the helpers of \<^verbatim>\<open>oqs_endecoder_common.c\<close>: the structures
  around the bytes of a key (PKCS#8, encrypted PKCS#8, SubjectPublicKeyInfo), their context, the
  handler that the macros generate for every algorithm, kind and output, and the text output.
  OpenSSL's ASN.1 and PEM functions are the parameter \<open>A\<close>.
\<close>

subsection \<open>Functions taken out of a key management table\<close>

text \<open>
  A dispatch table's entries before the terminating one: the function by its identifier, over
  the state \<open>'s\<close> of the process; keys are addresses.
\<close>

datatype 's km_fun =
    KM_NEW "('s, nat option) st" | KM_FREE "nat option \<Rightarrow> ('s, unit) st"
  | KM_IMPORT "nat \<Rightarrow> selection \<Rightarrow> ('s, bool) st"
  | KM_EXPORT "nat \<Rightarrow> selection \<Rightarrow> ('s, bool) st"
  | KM_OTHER int

fun oqs_prov_get_keymgmt_new :: "'s km_fun list \<Rightarrow> ('s, nat option) st option" where
  "oqs_prov_get_keymgmt_new [] = None"
| "oqs_prov_get_keymgmt_new (f # fns) =
     (case f of KM_NEW g \<Rightarrow> Some g | _ \<Rightarrow> oqs_prov_get_keymgmt_new fns)"

fun oqs_prov_get_keymgmt_free :: "'s km_fun list \<Rightarrow> (nat option \<Rightarrow> ('s, unit) st) option" where
  "oqs_prov_get_keymgmt_free [] = None"
| "oqs_prov_get_keymgmt_free (f # fns) =
     (case f of KM_FREE g \<Rightarrow> Some g | _ \<Rightarrow> oqs_prov_get_keymgmt_free fns)"

fun oqs_prov_get_keymgmt_import :: "'s km_fun list \<Rightarrow> (nat \<Rightarrow> selection \<Rightarrow> ('s, bool) st) option" where
  "oqs_prov_get_keymgmt_import [] = None"
| "oqs_prov_get_keymgmt_import (f # fns) =
     (case f of KM_IMPORT g \<Rightarrow> Some g | _ \<Rightarrow> oqs_prov_get_keymgmt_import fns)"

fun oqs_prov_get_keymgmt_export :: "'s km_fun list \<Rightarrow> (nat \<Rightarrow> selection \<Rightarrow> ('s, bool) st) option" where
  "oqs_prov_get_keymgmt_export [] = None"
| "oqs_prov_get_keymgmt_export (f # fns) =
     (case f of KM_EXPORT g \<Rightarrow> Some g | _ \<Rightarrow> oqs_prov_get_keymgmt_export fns)"

definition oqs_prov_import_key :: "'s km_fun list \<Rightarrow> selection \<Rightarrow> ('s, nat option) st" where
  "oqs_prov_import_key fns sel =
     (case (oqs_prov_get_keymgmt_new fns, oqs_prov_get_keymgmt_import fns, oqs_prov_get_keymgmt_free fns) of
       (Some new, Some import, Some free) \<Rightarrow>
         bindS new (\<lambda>key. case key of
           None \<Rightarrow> thenS (free None) (retS None)
         | Some k \<Rightarrow> bindS (import k sel) (\<lambda>r.
             if r then retS (Some k) else thenS (free (Some k)) (retS None)))
     | _ \<Rightarrow> retS None)"

definition oqs_prov_free_key :: "'s km_fun list \<Rightarrow> nat option \<Rightarrow> ('s, unit) st" where
  "oqs_prov_free_key fns key =
     (case oqs_prov_get_keymgmt_free fns of None \<Rightarrow> retS () | Some free \<Rightarrow> free key)"

subsection \<open>The structures\<close>

text \<open>
  OpenSSL: whether the allocations and setters succeed, the writers in DER and PEM (the bytes written, or
  None), encryption under a pass phrase, short names and objects, the fetching of a cipher, and
  the parsers the decoders use. \<open>'c\<close> are ciphers, \<open>'e\<close> encrypted structures.
\<close>

record ('c, 'e) asn1_lib =
  PKCS8_PRIV_KEY_INFO_new :: bool
  PKCS8_pkey_set0 :: bool
  i2d_PKCS8_PRIV_KEY_INFO_bio :: "asn1_key \<Rightarrow> bytes option"
  PEM_write_bio_PKCS8_PRIV_KEY_INFO :: "asn1_key \<Rightarrow> bytes option"
  PKCS8_encrypt_ex :: "'c \<Rightarrow> bytes \<Rightarrow> asn1_key \<Rightarrow> 'e option"
  i2d_PKCS8_bio :: "'e \<Rightarrow> bytes option"
  PEM_write_bio_PKCS8 :: "'e \<Rightarrow> bytes option"
  X509_PUBKEY_new :: bool
  X509_PUBKEY_set0_param :: bool
  i2d_X509_PUBKEY_bio :: "asn1_key \<Rightarrow> bytes option"
  PEM_write_bio_X509_PUBKEY :: "asn1_key \<Rightarrow> bytes option"
  OBJ_sn2nid :: "string \<Rightarrow> int"
  OBJ_nid2obj_length :: "int \<Rightarrow> nat option"
  EVP_CIPHER_fetch :: "string \<Rightarrow> string option \<Rightarrow> 'c option"
  d2i_PKCS8_PRIV_KEY_INFO :: "bytes \<Rightarrow> asn1_key option"
  d2i_X509_PUBKEY_INTERNAL :: "bytes \<Rightarrow> asn1_key option"

text \<open>The context; a pass phrase callback is its result, a pass phrase or a failure.\<close>

record 'c key2any_ctx =
  k2a_provctx :: provctx
  save_parameters :: int
  cipher_intent :: bool
  k2a_cipher :: "'c option"
  pwcb :: "bytes option option"

text \<open>The bytes \<open>k2d\<close> makes of a key: every failure, and an empty encoding, is a malloc failure.\<close>

definition der_of :: "bytes res \<Rightarrow> bytes res" where
  "der_of k2d =
     (case k2d of
       Inl UB \<Rightarrow> Inl UB
     | Inl _ \<Rightarrow> Inl (Raise MALLOC_FAILURE)
     | Inr d \<Rightarrow> if d = [] then Inl (Raise MALLOC_FAILURE) else Inr d)"

definition key_to_p8info :: "('c, 'e) asn1_lib \<Rightarrow> int \<Rightarrow> bytes res \<Rightarrow> asn1_key res" where
  "key_to_p8info A nid k2d =
     bindR (ensure (PKCS8_PRIV_KEY_INFO_new A) (Raise MALLOC_FAILURE)) (\<lambda>_.
     bindR (der_of k2d) (\<lambda>der.
     bindR (ensure (PKCS8_pkey_set0 A) (Raise MALLOC_FAILURE)) (\<lambda>_. Inr (pkcs8_of nid der))))"

definition p8info_to_encp8 :: "('c, 'e) asn1_lib \<Rightarrow> 'c key2any_ctx \<Rightarrow> asn1_key \<Rightarrow> 'e res" where
  "p8info_to_encp8 A cx p8info =
     bindR (of_option Quiet (k2a_cipher cx)) (\<lambda>c.
     bindR (of_option Quiet (pwcb cx)) (\<lambda>cb.
     bindR (of_option (Raise UNABLE_TO_GET_PASSPHRASE) cb) (\<lambda>pass.
     of_option Quiet (PKCS8_encrypt_ex A c pass p8info))))"

definition key_to_encp8 :: "('c, 'e) asn1_lib \<Rightarrow> 'c key2any_ctx \<Rightarrow> int \<Rightarrow> bytes res \<Rightarrow> 'e res" where
  "key_to_encp8 A cx nid k2d = bindR (key_to_p8info A nid k2d) (p8info_to_encp8 A cx)"

definition oqsx_key_to_pubkey :: "('c, 'e) asn1_lib \<Rightarrow> int \<Rightarrow> bytes res \<Rightarrow> asn1_key res" where
  "oqsx_key_to_pubkey A nid k2d =
     bindR (ensure (X509_PUBKEY_new A) (Raise MALLOC_FAILURE)) (\<lambda>_.
     bindR (der_of k2d) (\<lambda>der.
     bindR (ensure (X509_PUBKEY_set0_param A) (Raise MALLOC_FAILURE)) (\<lambda>_. Inr (spki_of nid der))))"

definition prepare_oqsx_params :: "('c, 'e) asn1_lib \<Rightarrow> 'p oqsx_key \<Rightarrow> int \<Rightarrow> unit res" where
  "prepare_oqsx_params A k nid =
     bindR (ensure (OBJ_sn2nid A (tls_name k) = nid) (Raise INVALID_KEY)) (\<lambda>_.
     bindR (ensure (nid \<noteq> 0) (Raise MISSING_OID)) (\<lambda>_.
     bindR (of_option Quiet (OBJ_nid2obj_length A nid)) (\<lambda>n. ensure (n \<noteq> 0) (Raise MISSING_OID))))"

subsection \<open>The writers\<close>

text \<open>A writer's arguments: the NID, the outcome of \<open>p2s\<close>, the bytes of the key, the context.\<close>

type_synonym 'c writer = "int \<Rightarrow> unit res \<Rightarrow> bytes res \<Rightarrow> 'c key2any_ctx \<Rightarrow> bytes res"

definition key_to_epki_priv_bio :: "('c, 'e) asn1_lib \<Rightarrow> ('e \<Rightarrow> bytes option) \<Rightarrow> 'c writer" where
  "key_to_epki_priv_bio A put nid p2s k2d cx =
     bindR (ensure (cipher_intent cx) Quiet) (\<lambda>_.
     bindR p2s (\<lambda>_.
     bindR (key_to_encp8 A cx nid k2d) (\<lambda>p8. of_option Quiet (put p8))))"

definition key_to_epki_der_priv_bio :: "('c, 'e) asn1_lib \<Rightarrow> 'c writer" where
  "key_to_epki_der_priv_bio A = key_to_epki_priv_bio A (i2d_PKCS8_bio A)"

definition key_to_epki_pem_priv_bio :: "('c, 'e) asn1_lib \<Rightarrow> 'c writer" where
  "key_to_epki_pem_priv_bio A = key_to_epki_priv_bio A (PEM_write_bio_PKCS8 A)"

definition key_to_pki_der_priv_bio :: "('c, 'e) asn1_lib \<Rightarrow> 'c writer" where
  "key_to_pki_der_priv_bio A nid p2s k2d cx =
     (if cipher_intent cx then key_to_epki_der_priv_bio A nid p2s k2d cx
      else bindR p2s (\<lambda>_.
        bindR (key_to_p8info A nid k2d) (\<lambda>p. of_option Quiet (i2d_PKCS8_PRIV_KEY_INFO_bio A p))))"

definition key_to_pki_pem_priv_bio :: "('c, 'e) asn1_lib \<Rightarrow> 'c writer" where
  "key_to_pki_pem_priv_bio A nid p2s k2d cx =
     (if cipher_intent cx then key_to_epki_pem_priv_bio A nid p2s k2d cx
      else bindR p2s (\<lambda>_.
        bindR (key_to_p8info A nid k2d) (\<lambda>p. of_option Quiet (PEM_write_bio_PKCS8_PRIV_KEY_INFO A p))))"

definition key_to_spki_der_pub_bio :: "('c, 'e) asn1_lib \<Rightarrow> 'c writer" where
  "key_to_spki_der_pub_bio A nid p2s k2d cx =
     bindR p2s (\<lambda>_.
     bindR (oqsx_key_to_pubkey A nid k2d) (\<lambda>p. of_option Quiet (i2d_X509_PUBKEY_bio A p)))"

definition key_to_spki_pem_pub_bio :: "('c, 'e) asn1_lib \<Rightarrow> 'c writer" where
  "key_to_spki_pem_pub_bio A nid p2s k2d cx =
     bindR p2s (\<lambda>_.
     bindR (oqsx_key_to_pubkey A nid k2d) (\<lambda>p. of_option Quiet (PEM_write_bio_X509_PUBKEY A p)))"

subsection \<open>The context\<close>

definition key2any_newctx :: "bool \<Rightarrow> provctx \<Rightarrow> 'c key2any_ctx option" where
  "key2any_newctx ok pc =
     (if ok then Some \<lparr>k2a_provctx = pc, save_parameters = 1, cipher_intent = False, k2a_cipher = None,
        pwcb = None\<rparr> else None)"

text \<open>
  The parameters given: a string parameter is \<open>Inl ()\<close> when it is not a string, else the string or NULL;
  an integer parameter is \<open>None\<close> when it is not an integer.
\<close>

definition get_utf8_string_ptr :: "(unit + string option) \<Rightarrow> string option res" where
  "get_utf8_string_ptr p = (case p of Inl _ \<Rightarrow> Inl Quiet | Inr s \<Rightarrow> Inr s)"

definition key2any_set_ctx_params ::
    "('c, 'e) asn1_lib \<Rightarrow> (unit + string option) option \<Rightarrow> (unit + string option) option \<Rightarrow> int option option
      \<Rightarrow> ('c key2any_ctx, unit) st" where
  "key2any_set_ctx_params A cipherp propsp save =
     thenS (case cipherp of
         None \<Rightarrow> retS ()
       | Some c \<Rightarrow>
           bindS (liftS (get_utf8_string_ptr c)) (\<lambda>name.
           bindS (liftS (case propsp of None \<Rightarrow> Inr None | Some p \<Rightarrow> get_utf8_string_ptr p)) (\<lambda>props.
           thenS (modS (\<lambda>x. x\<lparr>k2a_cipher := None, cipher_intent := name \<noteq> None\<rparr>))
           (case name of
              None \<Rightarrow> retS ()
            | Some n \<Rightarrow> bindS (liftS (of_option Quiet (EVP_CIPHER_fetch A n props)))
                (\<lambda>c. modS (\<lambda>x. x\<lparr>k2a_cipher := Some c\<rparr>))))))
     (case save of
        None \<Rightarrow> retS ()
      | Some i \<Rightarrow> bindS (liftS (of_option Quiet i)) (\<lambda>i. modS (\<lambda>x. x\<lparr>save_parameters := i\<rparr>)))"

definition SELECT_ALL_PARAMETERS :: selection where
  "SELECT_ALL_PARAMETERS = 0x84"

fun check_levels :: "selection \<Rightarrow> selection \<Rightarrow> selection list \<Rightarrow> bool" where
  "check_levels sel allowed [] = False"
| "check_levels sel allowed (c # cs) = (if selects sel c then selects allowed c else check_levels sel allowed cs)"

definition key2any_check_selection :: "selection \<Rightarrow> selection \<Rightarrow> bool" where
  "key2any_check_selection sel allowed =
     (if sel = 0 then True
      else check_levels sel allowed [SELECT_PRIVATE_KEY, SELECT_PUBLIC_KEY, SELECT_ALL_PARAMETERS])"

subsection \<open>The handlers of an algorithm\<close>

text \<open>
  \<^verbatim>\<open>key2any_encode\<close>: the bytes written to the core's object, or the failure; the references to the core's
  objects are the state. A UB of the writer is one of the call.
\<close>

definition key2any_encode ::
    "('c, 'e) asn1_lib \<Rightarrow> bio_calls \<Rightarrow> bio_fns \<Rightarrow> 'c key2any_ctx \<Rightarrow> nat \<Rightarrow> 'p oqsx_key option \<Rightarrow> string
      \<Rightarrow> 'c writer option \<Rightarrow> bytes option option \<Rightarrow> ('p oqsx_key \<Rightarrow> bytes res)
      \<Rightarrow> (core_refs, bytes res \<times> 'c key2any_ctx) st" where
  "key2any_encode A B fs cx cout key typestr put cb k2d =
     (let nid = OBJ_sn2nid A typestr in
      case key of
        None \<Rightarrow> retS (Inl (Raise PASSED_NULL_PARAMETER), cx)
      | Some k \<Rightarrow>
          if nid \<le> 0 then retS (Inl (Raise PASSED_NULL_PARAMETER), cx)
          else (case put of
            None \<Rightarrow> retS (Inl (Raise PASSED_INVALID_ARGUMENT), cx)
          | Some put \<Rightarrow>
              bindS (oqs_bio_new_from_core_bio B fs (pc_meth (k2a_provctx cx)) cout) (\<lambda>out.
              let cx' = (if out = None then cx else cx\<lparr>pwcb := cb\<rparr>);
                  r = (if out = None then Inl Quiet
                       else put nid (prepare_oqsx_params A k nid) (k2d k) cx') in
              if r = Inl UB then failS UB
              else thenS (BIO_free fs out) (retS (r, cx')))))"

datatype enc_kind = EncryptedPrivateKeyInfo | PrivateKeyInfo | SubjectPublicKeyInfo
datatype enc_output = DER | PEM

definition kind_mask :: "enc_kind \<Rightarrow> selection" where
  "kind_mask kind = (case kind of SubjectPublicKeyInfo \<Rightarrow> SELECT_PUBLIC_KEY | _ \<Rightarrow> SELECT_PRIVATE_KEY)"

definition writer_of :: "('c, 'e) asn1_lib \<Rightarrow> enc_kind \<Rightarrow> enc_output \<Rightarrow> 'c writer" where
  "writer_of A kind out =
     (case (kind, out) of
       (EncryptedPrivateKeyInfo, DER) \<Rightarrow> key_to_epki_der_priv_bio A
     | (EncryptedPrivateKeyInfo, PEM) \<Rightarrow> key_to_epki_pem_priv_bio A
     | (PrivateKeyInfo, DER) \<Rightarrow> key_to_pki_der_priv_bio A
     | (PrivateKeyInfo, PEM) \<Rightarrow> key_to_pki_pem_priv_bio A
     | (SubjectPublicKeyInfo, DER) \<Rightarrow> key_to_spki_der_pub_bio A
     | (SubjectPublicKeyInfo, PEM) \<Rightarrow> key_to_spki_pem_pub_bio A)"

definition der_maker :: "'p openssl \<Rightarrow> bool \<Rightarrow> enc_kind \<Rightarrow> 'p oqsx_key \<Rightarrow> bytes res" where
  "der_maker E ok kind k =
     (case kind of SubjectPublicKeyInfo \<Rightarrow> oqsx_spki_pub_to_der ok (Some k) | _ \<Rightarrow> oqsx_pki_priv_to_der E ok (Some k))"

definition encoder_does_selection :: "enc_kind \<Rightarrow> selection \<Rightarrow> bool" where
  "encoder_does_selection kind sel = key2any_check_selection sel (kind_mask kind)"

definition encoder_encode ::
    "('c, 'e) asn1_lib \<Rightarrow> 'p openssl \<Rightarrow> bio_calls \<Rightarrow> bio_fns \<Rightarrow> bool \<Rightarrow> string \<Rightarrow> enc_kind \<Rightarrow> enc_output
      \<Rightarrow> 'c key2any_ctx \<Rightarrow> nat \<Rightarrow> 'p oqsx_key option \<Rightarrow> bool \<Rightarrow> selection \<Rightarrow> bytes option option
      \<Rightarrow> (core_refs, bytes res \<times> 'c key2any_ctx) st" where
  "encoder_encode A E B fs ok pem_type kind out cx cout key abstract sel cb =
     (if abstract then retS (Inl (Raise PASSED_INVALID_ARGUMENT), cx)
      else if selects sel (kind_mask kind) then
        key2any_encode A B fs cx cout key pem_type (Some (writer_of A kind out)) cb (der_maker E ok kind)
      else retS (Inl (Raise PASSED_INVALID_ARGUMENT), cx))"

subsection \<open>What an encoder writes\<close>

lemma der_of_Inr [simp]: "der_of r = Inr d \<longleftrightarrow> r = Inr d \<and> d \<noteq> []"
  by (auto simp: der_of_def split: sum.splits failure.splits)

lemma prepare_Inr: "prepare_oqsx_params A k nid = Inr u \<Longrightarrow> OBJ_sn2nid A (tls_name k) = nid"
  by (auto simp: prepare_oqsx_params_def bindR_eq_Inr)

lemma key_to_p8info_Inr: "key_to_p8info A nid r = Inr p \<Longrightarrow> \<exists>d. r = Inr d \<and> d \<noteq> [] \<and> p = pkcs8_of nid d"
  by (auto simp: key_to_p8info_def bindR_eq_Inr)

lemma oqsx_key_to_pubkey_Inr: "oqsx_key_to_pubkey A nid r = Inr p \<Longrightarrow> \<exists>d. r = Inr d \<and> d \<noteq> [] \<and> p = spki_of nid d"
  by (auto simp: oqsx_key_to_pubkey_def bindR_eq_Inr)

text \<open>The bytes that an encrypted structure, a plain one and a public one are written as.\<close>

definition put_encrypted :: "('c, 'e) asn1_lib \<Rightarrow> enc_output \<Rightarrow> 'e \<Rightarrow> bytes option" where
  "put_encrypted A out = (case out of DER \<Rightarrow> i2d_PKCS8_bio A | PEM \<Rightarrow> PEM_write_bio_PKCS8 A)"

definition put_plain :: "('c, 'e) asn1_lib \<Rightarrow> enc_output \<Rightarrow> asn1_key \<Rightarrow> bytes option" where
  "put_plain A out = (case out of DER \<Rightarrow> i2d_PKCS8_PRIV_KEY_INFO_bio A | PEM \<Rightarrow> PEM_write_bio_PKCS8_PRIV_KEY_INFO A)"

definition put_public :: "('c, 'e) asn1_lib \<Rightarrow> enc_output \<Rightarrow> asn1_key \<Rightarrow> bytes option" where
  "put_public A out = (case out of DER \<Rightarrow> i2d_X509_PUBKEY_bio A | PEM \<Rightarrow> PEM_write_bio_X509_PUBKEY A)"

text \<open>
  What may be written for a key \<open>k\<close> under the NID \<open>nid\<close>: a private key encrypted under the context's
  cipher and the caller's pass phrase when there is an intent to encrypt, and otherwise, unless
  encryption was asked for by the kind, in the clear; or the public key.
\<close>

definition may_write ::
    "('c, 'e) asn1_lib \<Rightarrow> 'p openssl \<Rightarrow> bool \<Rightarrow> enc_kind \<Rightarrow> enc_output \<Rightarrow> 'c key2any_ctx \<Rightarrow> bytes option option
      \<Rightarrow> int \<Rightarrow> 'p oqsx_key \<Rightarrow> bytes \<Rightarrow> bool" where
  "may_write A E ok kind out cx cb nid k w \<longleftrightarrow>
     (if kind = SubjectPublicKeyInfo then
        \<exists>d. oqsx_spki_pub_to_der ok (Some k) = Inr d \<and> put_public A out (spki_of nid d) = Some w
      else if cipher_intent cx then
        \<exists>c pass d e. k2a_cipher cx = Some c \<and> cb = Some (Some pass) \<and>
          oqsx_pki_priv_to_der E ok (Some k) = Inr d \<and>
          PKCS8_encrypt_ex A c pass (pkcs8_of nid d) = Some e \<and> put_encrypted A out e = Some w
      else
        kind = PrivateKeyInfo \<and>
        (\<exists>d. oqsx_pki_priv_to_der E ok (Some k) = Inr d \<and> put_plain A out (pkcs8_of nid d) = Some w))"

lemma epki_writer_Inr:
  assumes "key_to_epki_priv_bio A put nid (prepare_oqsx_params A k nid) r (cx\<lparr>pwcb := cb\<rparr>) = Inr w"
  shows "cipher_intent cx \<and> OBJ_sn2nid A (tls_name k) = nid \<and>
    (\<exists>c pass d e. k2a_cipher cx = Some c \<and> cb = Some (Some pass) \<and> r = Inr d \<and>
      PKCS8_encrypt_ex A c pass (pkcs8_of nid d) = Some e \<and> put e = Some w)"
  using assms
  by (fastforce simp: key_to_epki_priv_bio_def key_to_encp8_def p8info_to_encp8_def bindR_eq_Inr
      dest!: key_to_p8info_Inr prepare_Inr)

lemmas writer_defs = writer_of_def key_to_epki_der_priv_bio_def key_to_epki_pem_priv_bio_def
  key_to_pki_der_priv_bio_def key_to_pki_pem_priv_bio_def key_to_spki_der_pub_bio_def
  key_to_spki_pem_pub_bio_def put_encrypted_def put_plain_def put_public_def

lemma writer_may_write:
  assumes "writer_of A kind out nid (prepare_oqsx_params A k nid) (der_maker E ok kind k) (cx\<lparr>pwcb := cb\<rparr>) = Inr w"
  shows "OBJ_sn2nid A (tls_name k) = nid \<and> may_write A E ok kind out cx cb nid k w"
  using assms
  by (cases kind; cases out; cases "cipher_intent cx")
    (auto simp: writer_defs may_write_def der_maker_def bindR_eq_Inr
      dest!: epki_writer_Inr key_to_p8info_Inr oqsx_key_to_pubkey_Inr prepare_Inr)

lemma key2any_encode_Inr:
  assumes "fs BIO_FREE \<noteq> None"
    and "key2any_encode A B fs cx cout key ty (Some put) cb k2d refs = (Inr (res, cx'), refs')"
  shows "refs' = refs \<and> (res = Inr w \<longrightarrow> (\<exists>k. key = Some k \<and> 0 < OBJ_sn2nid A ty \<and>
    put (OBJ_sn2nid A ty) (prepare_oqsx_params A k (OBJ_sn2nid A ty)) (k2d k) (cx\<lparr>pwcb := cb\<rparr>) = Inr w))"
  using assms
  by (auto simp: key2any_encode_def Let_def new_from_core_bio_cases BIO_free_def bio_core_free_def
      oqs_prov_bio_free_def bindS_def thenS_def st_simps ensure_def split: option.splits if_splits)

lemma encode_writes:
  assumes "fs BIO_FREE \<noteq> None"
    and "encoder_encode A E B fs ok name kind out cx cout key abstract sel cb refs = (Inr (res, cx'), refs')"
  shows "refs' = refs \<and> (res = Inr w \<longrightarrow> \<not> abstract \<and> selects sel (kind_mask kind) \<and>
    (\<exists>k. key = Some k \<and> OBJ_sn2nid A (tls_name k) = OBJ_sn2nid A name \<and>
      may_write A E ok kind out cx cb (OBJ_sn2nid A name) k w))"
proof (cases "\<not> abstract \<and> selects sel (kind_mask kind)")
  case True
  with assms(2) have "key2any_encode A B fs cx cout key name (Some (writer_of A kind out)) cb
      (der_maker E ok kind) refs = (Inr (res, cx'), refs')"
    by (simp add: encoder_encode_def)
  from key2any_encode_Inr [where fs = fs, OF assms(1) this, of w] True show ?thesis
    by (auto dest: writer_may_write)
qed (use assms(2) in \<open>auto simp: encoder_encode_def st_simps split: if_splits\<close>)

lemma encode_nid:
  assumes "fs BIO_FREE \<noteq> None"
    and "encoder_encode A E B fs ok name kind out cx cout key abstract sel cb refs = (Inr (Inr w, cx'), refs')"
  shows "0 < OBJ_sn2nid A name"
proof -
  have "\<not> abstract \<and> selects sel (kind_mask kind)"
    using assms(2) by (auto simp: encoder_encode_def st_simps split: if_splits)
  with assms(2) have "key2any_encode A B fs cx cout key name (Some (writer_of A kind out)) cb
      (der_maker E ok kind) refs = (Inr (Inr w, cx'), refs')"
    by (simp add: encoder_encode_def)
  from key2any_encode_Inr [where fs = fs, OF assms(1) this, of w] show ?thesis by auto
qed

text \<open>
  C12: An encoder never writes a private key in the clear when the context intends to encrypt it,
  and never in the clear into an encrypted structure: what it writes is the encryption of the
  key's PKCS#8 structure under the context's cipher and the pass phrase of this call. It writes a
  key only under its own algorithm's NID, only when the selection asks for the part, and not for
  an abstract object. Whatever the outcome, the references to the core's object are as before.
\<close>

theorem encoder_protects:
  assumes "fs BIO_FREE \<noteq> None"
    and "encoder_encode A E B fs ok name kind out cx cout key abstract sel cb refs = (Inr (res, cx'), refs')"
  shows "refs' = refs \<and> (res = Inr w \<longrightarrow> \<not> abstract \<and> selects sel (kind_mask kind) \<and>
    (\<exists>k. key = Some k \<and> OBJ_sn2nid A (tls_name k) = OBJ_sn2nid A name \<and>
      may_write A E ok kind out cx cb (OBJ_sn2nid A name) k w))"
  by (rule encode_writes [where fs = fs, OF assms])

subsection \<open>A sample library\<close>

text \<open>A structure of NID 1200 is written as a byte and the key's bytes; a pass phrase is prepended.\<close>

definition sample_struct :: "asn1_key \<Rightarrow> bytes option" where
  "sample_struct p =
     (if ak_alg p = Some \<lparr>params_undef = True, alg_nid = 1200\<rparr> then map_option (\<lambda>d. 1 # d) (ak_bytes p) else None)"

definition sample_parse :: "(int \<Rightarrow> bytes \<Rightarrow> asn1_key) \<Rightarrow> bytes \<Rightarrow> asn1_key option" where
  "sample_parse mk w = (case w of [] \<Rightarrow> None | x # d \<Rightarrow> if x = 1 then Some (mk 1200 d) else None)"

definition sample_asn1 :: "string \<Rightarrow> (unit, bytes) asn1_lib" where
  "sample_asn1 name = \<lparr>PKCS8_PRIV_KEY_INFO_new = True, PKCS8_pkey_set0 = True,
     i2d_PKCS8_PRIV_KEY_INFO_bio = sample_struct, PEM_write_bio_PKCS8_PRIV_KEY_INFO = sample_struct,
     PKCS8_encrypt_ex = (\<lambda>_ pass p. map_option (\<lambda>w. pass @ w) (sample_struct p)),
     i2d_PKCS8_bio = Some, PEM_write_bio_PKCS8 = Some,
     X509_PUBKEY_new = True, X509_PUBKEY_set0_param = True,
     i2d_X509_PUBKEY_bio = sample_struct, PEM_write_bio_X509_PUBKEY = sample_struct,
     OBJ_sn2nid = (\<lambda>n. if n = name then 1200 else 0), OBJ_nid2obj_length = (\<lambda>_. Some 9),
     EVP_CIPHER_fetch = (\<lambda>_ _. Some ()),
     d2i_PKCS8_PRIV_KEY_INFO = sample_parse pkcs8_of, d2i_X509_PUBKEY_INTERNAL = sample_parse spki_of\<rparr>"

definition sample_bio :: bio_calls where
  "sample_bio = \<lparr>up_ref_ok = (\<lambda>_. True), bio_new_ok = True, meth_new_ok = True, meth_set_ok = (\<lambda>_. True)\<rparr>"

definition sample_provctx :: provctx where
  "sample_provctx = \<lparr>pc_libctx = 0, pc_handle = 0, pc_meth = True\<rparr>"

definition sample_encrypting :: "unit key2any_ctx" where
  "sample_encrypting = \<lparr>k2a_provctx = sample_provctx, save_parameters = 1, cipher_intent = True,
     k2a_cipher = Some (), pwcb = None\<rparr>"

lemma sample_encode:
  assumes "writer_of (sample_asn1 n) kind DER 1200 (prepare_oqsx_params (sample_asn1 n) k 1200)
      (der_maker sample_openssl True kind k) (cx\<lparr>pwcb := cb\<rparr>) = Inr w"
    and "k2a_provctx cx = sample_provctx"
  shows "encoder_encode (sample_asn1 n) sample_openssl sample_bio (\<lambda>_. Some 0) True n kind DER cx 5 (Some k) False
      (kind_mask kind) cb refs = (Inr (Inr w, cx\<lparr>pwcb := cb\<rparr>), refs)"
proof -
  have "OBJ_sn2nid (sample_asn1 n) n = 1200" "pc_meth sample_provctx" "bio_new_ok sample_bio" "up_ref_ok sample_bio 5"
    by (simp_all add: sample_asn1_def sample_provctx_def sample_bio_def)
  moreover have "selects (kind_mask kind) (kind_mask kind)"
    by (cases kind) (simp_all add: selects_def kind_mask_def SELECT_PRIVATE_KEY_def SELECT_PUBLIC_KEY_def)
  ultimately show ?thesis
    using assms
    by (auto simp: encoder_encode_def key2any_encode_def new_from_core_bio_cases BIO_free_def bio_core_free_def
        oqs_prov_bio_free_def bindS_def thenS_def st_simps ensure_def)
qed

lemma sample_encrypts:
  "writer_of (sample_asn1 ''p256_mldsa44'') PrivateKeyInfo DER 1200
     (prepare_oqsx_params (sample_asn1 ''p256_mldsa44'') mldsa_full 1200)
     (der_maker sample_openssl True PrivateKeyInfo mldsa_full) (sample_encrypting\<lparr>pwcb := Some (Some [42])\<rparr>) =
   Inr ([42, 1, 4] @ take 129 (the (privkey mldsa_full)) @ replicate 4 9)"
  by code_simp

lemma encoder_protects_witness:
  "\<exists>k. Some mldsa_full = Some k \<and> may_write (sample_asn1 ''p256_mldsa44'') sample_openssl True PrivateKeyInfo DER
     sample_encrypting (Some (Some [42])) 1200 k ([42, 1, 4] @ take 129 (the (privkey mldsa_full)) @ replicate 4 9)"
proof -
  have "OBJ_sn2nid (sample_asn1 ''p256_mldsa44'') ''p256_mldsa44'' = 1200"
    by (simp add: sample_asn1_def)
  moreover have "k2a_provctx sample_encrypting = sample_provctx" by (simp add: sample_encrypting_def)
  ultimately show ?thesis
    using encoder_protects [OF _ sample_encode [OF sample_encrypts],
        where w = "[42, 1, 4] @ take 129 (the (privkey mldsa_full)) @ replicate 4 9"]
    by auto
qed

definition sample_plain :: "unit key2any_ctx" where
  "sample_plain = \<lparr>k2a_provctx = sample_provctx, save_parameters = 1, cipher_intent = False,
     k2a_cipher = None, pwcb = None\<rparr>"

definition sample_pkcs8 :: bytes where
  "sample_pkcs8 = [1, 4] @ take 129 (the (privkey mldsa_full)) @ replicate 4 9"

definition sample_spki :: bytes where
  "sample_spki = 1 # the (pubkey mldsa_full)"

lemma sample_writes:
  "writer_of (sample_asn1 ''p256_mldsa44'') PrivateKeyInfo DER 1200
     (prepare_oqsx_params (sample_asn1 ''p256_mldsa44'') mldsa_full 1200)
     (der_maker sample_openssl True PrivateKeyInfo mldsa_full) (sample_plain\<lparr>pwcb := None\<rparr>) = Inr sample_pkcs8"
  "writer_of (sample_asn1 ''p256_mldsa44'') SubjectPublicKeyInfo DER 1200
     (prepare_oqsx_params (sample_asn1 ''p256_mldsa44'') mldsa_full 1200)
     (der_maker sample_openssl True SubjectPublicKeyInfo mldsa_full) (sample_plain\<lparr>pwcb := None\<rparr>) = Inr sample_spki"
  by code_simp+

end
