(* ===== verification/Decoder.thy ===== *)
theory Decoder
  imports Encoder
begin

text \<open>
  The decoders of \<^verbatim>\<open>oqs_decode_der2key.c\<close>: a description for each algorithm and structure, whose type
  is filled in from the registered NIDs when the first context is made, and the one function that
  reads the input, makes a key of it and offers it to the caller, who may take it over.
\<close>

subsection \<open>Descriptions and contexts\<close>

text \<open>
  \<^verbatim>\<open>keytype_desc_st\<close>: the functions that may be absent are options. The reader of a PKCS#8 structure takes
  the type the description expects and the library context.
\<close>

record 'p keytype_desc =
  keytype_name :: string
  kd_fns :: string
  structure_name :: string
  kd_evp_type :: int
  selection_mask :: selection
  d2i_private_key :: "(bytes \<Rightarrow> 'p oqsx_key res) option"
  d2i_public_key :: "(bytes \<Rightarrow> 'p oqsx_key res) option"
  d2i_key_params :: "(bytes \<Rightarrow> 'p oqsx_key res) option"
  d2i_PKCS8 :: "(int \<Rightarrow> nat \<Rightarrow> bytes \<Rightarrow> 'p oqsx_key res) option"
  d2i_PUBKEY :: "(bytes \<Rightarrow> 'p oqsx_key res) option"
  check_key :: "('p oqsx_key \<Rightarrow> bool) option"
  adjust_key :: "(nat \<Rightarrow> 'p oqsx_key \<Rightarrow> 'p oqsx_key) option"

record der2key_ctx =
  d2k_provctx :: provctx
  d2k_selection :: selection
  flag_fatal :: bool

definition oqs_der2key_decode_p8 ::
    "('c, 'e) asn1_lib \<Rightarrow> (asn1_key option \<Rightarrow> nat \<Rightarrow> string option \<Rightarrow> 'p oqsx_key res)
      \<Rightarrow> int \<Rightarrow> nat \<Rightarrow> bytes \<Rightarrow> 'p oqsx_key res" where
  "oqs_der2key_decode_p8 A key_from_pkcs8 evp lc der =
     bindR (of_option Quiet (d2i_PKCS8_PRIV_KEY_INFO A der)) (\<lambda>p8.
     bindR (of_option Quiet (ak_alg p8)) (\<lambda>alg.
     bindR (ensure (alg_nid alg = evp) Quiet) (\<lambda>_. key_from_pkcs8 (Some p8) lc None)))"

definition oqsx_d2i_PKCS8 ::
    "('c, 'e) asn1_lib \<Rightarrow> liboqs \<Rightarrow> 'p openssl \<Rightarrow> key_env \<Rightarrow> int \<Rightarrow> nat \<Rightarrow> bytes \<Rightarrow> 'p oqsx_key res" where
  "oqsx_d2i_PKCS8 A L E env = oqs_der2key_decode_p8 A (oqsx_key_from_pkcs8 L E env)"

text \<open>The parser of the structure is OpenSSL's for the item; the key gets no library context.\<close>

definition oqsx_d2i_PUBKEY ::
    "('c, 'e) asn1_lib \<Rightarrow> liboqs \<Rightarrow> 'p openssl \<Rightarrow> key_env \<Rightarrow> bytes \<Rightarrow> 'p oqsx_key res" where
  "oqsx_d2i_PUBKEY A L E env der =
     oqsx_key_from_x509pubkey L E env (d2i_X509_PUBKEY_INTERNAL A der) 0 None"

definition oqsx_key_adjust :: "nat \<Rightarrow> 'p oqsx_key \<Rightarrow> 'p oqsx_key" where
  "oqsx_key_adjust lc k = oqsx_key_set0_libctx lc k"

text \<open>The description that a line of \<^verbatim>\<open>MAKE_DECODER\<close> initialises.\<close>

datatype decoder_row = MAKE_DECODER string string string enc_kind

definition keytype_desc_of ::
    "('c, 'e) asn1_lib \<Rightarrow> liboqs \<Rightarrow> 'p openssl \<Rightarrow> key_env \<Rightarrow> decoder_row \<Rightarrow> 'p keytype_desc" where
  "keytype_desc_of A L E env r = (case r of MAKE_DECODER h name impl kind \<Rightarrow>
     \<lparr>keytype_name = name, kd_fns = ''oqs'' @ h @ ''_'' @ impl @ ''_keymgmt_functions'',
      structure_name = (case kind of PrivateKeyInfo \<Rightarrow> ''PrivateKeyInfo'' | _ \<Rightarrow> ''SubjectPublicKeyInfo''),
      kd_evp_type = 0,
      selection_mask = (case kind of PrivateKeyInfo \<Rightarrow> SELECT_PRIVATE_KEY | _ \<Rightarrow> SELECT_PUBLIC_KEY),
      d2i_private_key = None, d2i_public_key = None, d2i_key_params = None,
      d2i_PKCS8 = (case kind of PrivateKeyInfo \<Rightarrow> Some (oqsx_d2i_PKCS8 A L E env) | _ \<Rightarrow> None),
      d2i_PUBKEY = (case kind of PrivateKeyInfo \<Rightarrow> None | _ \<Rightarrow> Some (oqsx_d2i_PUBKEY A L E env)),
      check_key = None, adjust_key = Some oqsx_key_adjust\<rparr>)"

text \<open>A context is made, and the description completed, with the NIDs known then.\<close>

definition der2key_newctx ::
    "('c, 'e) asn1_lib \<Rightarrow> bool \<Rightarrow> provctx \<Rightarrow> 'p keytype_desc \<Rightarrow> string
      \<Rightarrow> der2key_ctx option \<times> 'p keytype_desc" where
  "der2key_newctx A ok pc d tls =
     (if ok then
        (Some \<lparr>d2k_provctx = pc, d2k_selection = 0, flag_fatal = False\<rparr>,
         if kd_evp_type d = 0 then d\<lparr>kd_evp_type := OBJ_sn2nid A tls\<rparr> else d)
      else (None, d))"

definition der2key_check_selection :: "selection \<Rightarrow> 'p keytype_desc \<Rightarrow> bool" where
  "der2key_check_selection sel d =
     (if sel = 0 then True
      else check_levels sel (selection_mask d) [SELECT_PRIVATE_KEY, SELECT_PUBLIC_KEY, SELECT_ALL_PARAMETERS])"

subsection \<open>Decoding\<close>

definition oqs_read_der ::
    "bio_calls \<Rightarrow> bio_fns \<Rightarrow> provctx \<Rightarrow> nat \<Rightarrow> bytes option \<Rightarrow> (core_refs, bytes option) st" where
  "oqs_read_der B fs pc cin asn1_d2i_read_bio =
     with_core_bio B fs (pc_meth pc) cin (\<lambda>inp. if inp = None then None else asn1_d2i_read_bio)"

text \<open>A function that returns NULL when it fails.\<close>

definition null_of :: "'a res \<Rightarrow> 'a option res" where
  "null_of r = (case r of Inl UB \<Rightarrow> Inl UB | Inl _ \<Rightarrow> Inr None | Inr k \<Rightarrow> Inr (Some k))"

text \<open>
  The part of \<^verbatim>\<open>oqs_der2key_decode\<close> between the reading and the label \<^verbatim>\<open>next\<close>: \<open>sel\<close> is the
  selection in force, \<open>asked\<close> the one the caller gave. \<open>Goto_end\<close> is the jump past the callback.
\<close>

datatype 'k dec_outcome = Goto_end "'k option" | Goto_next "'k option"

definition finish_key :: "'p keytype_desc \<Rightarrow> nat \<Rightarrow> 'p oqsx_key option \<Rightarrow> 'p oqsx_key option" where
  "finish_key d lc key =
     map_option (case adjust_key d of None \<Rightarrow> id | Some f \<Rightarrow> f lc)
       (case (key, check_key d) of (Some k, Some f) \<Rightarrow> if f k then Some k else None | _ \<Rightarrow> key)"

definition decode_params ::
    "'p keytype_desc \<Rightarrow> nat \<Rightarrow> selection \<Rightarrow> selection \<Rightarrow> bytes \<Rightarrow> 'p oqsx_key option
      \<Rightarrow> 'p oqsx_key dec_outcome res" where
  "decode_params d lc sel asked der key =
     (if key = None \<and> selects sel SELECT_ALL_PARAMETERS then
        bindR (case d2i_key_params d of Some f \<Rightarrow> null_of (f der) | None \<Rightarrow> Inr None) (\<lambda>key.
        if key = None \<and> asked \<noteq> 0 then Inr (Goto_next None) else Inr (Goto_next (finish_key d lc key)))
      else Inr (Goto_next (finish_key d lc key)))"

text \<open>Without \<open>d2i_PUBKEY\<close> the public reader is called unchecked.\<close>

definition decode_public ::
    "'p keytype_desc \<Rightarrow> nat \<Rightarrow> selection \<Rightarrow> selection \<Rightarrow> bytes \<Rightarrow> 'p oqsx_key option
      \<Rightarrow> 'p oqsx_key dec_outcome res" where
  "decode_public d lc sel asked der key =
     (if key = None \<and> selects sel SELECT_PUBLIC_KEY then
        bindR (case d2i_PUBKEY d of
            Some f \<Rightarrow> null_of (f der)
          | None \<Rightarrow> (case d2i_public_key d of Some f \<Rightarrow> null_of (f der) | None \<Rightarrow> Inl UB)) (\<lambda>key.
        if key = None \<and> asked \<noteq> 0 then Inr (Goto_next None) else decode_params d lc sel asked der key)
      else decode_params d lc sel asked der key)"

definition decode_key ::
    "'p keytype_desc \<Rightarrow> der2key_ctx \<Rightarrow> selection \<Rightarrow> bytes \<Rightarrow> 'p oqsx_key dec_outcome res" where
  "decode_key d cx sel der =
     (let lc = pc_libctx (d2k_provctx cx); asked = d2k_selection cx in
      if selects sel SELECT_PRIVATE_KEY then
        bindR (case d2i_PKCS8 d of
            Some f \<Rightarrow> null_of (f (kd_evp_type d) lc der)
          | None \<Rightarrow> (case d2i_private_key d of Some f \<Rightarrow> null_of (f der) | None \<Rightarrow> Inr None)) (\<lambda>key.
        if d2i_PKCS8 d \<noteq> None \<and> flag_fatal cx then Inr (Goto_end key)
        else if key = None \<and> asked \<noteq> 0 then Inr (Goto_next None)
        else decode_public d lc sel asked der key)
      else decode_public d lc sel asked der None)"

text \<open>
  The process: the keys, the references to the core's objects and the context. The key, if there
  is one, is at the fresh address \<open>a\<close>.
\<close>

record 'p dec_state =
  dk_keys :: "'p kheap"
  dk_refs :: core_refs
  dk_ctx :: der2key_ctx

definition on_refs :: "(core_refs, 'a) st \<Rightarrow> ('p dec_state, 'a) st" where
  "on_refs m = (\<lambda>s. case m (dk_refs s) of (r, x) \<Rightarrow> (r, s\<lparr>dk_refs := x\<rparr>))"

definition on_keys :: "('p kheap \<Rightarrow> 'p kheap res) \<Rightarrow> ('p dec_state, unit) st" where
  "on_keys f = (\<lambda>s. case f (dk_keys s) of Inl e \<Rightarrow> (Inl e, s) | Inr h \<Rightarrow> (Inr (), s\<lparr>dk_keys := h\<rparr>))"

text \<open>
  The caller's callback gets the data type and the cell with the key's address: whether it
  succeeds, and whether it takes the key out of the cell with \<^verbatim>\<open>oqsx_load\<close>.
\<close>

type_synonym data_cb = "string \<Rightarrow> bool \<times> bool"

definition deliver :: "data_cb \<Rightarrow> string \<Rightarrow> nat \<Rightarrow> bool \<times> nat option" where
  "deliver cb name a = (case cb name of (ok, takes) \<Rightarrow>
     (ok, if takes then snd (oqsx_load True (Some a)) else Some a))"

definition oqs_der2key_decode ::
    "bio_calls \<Rightarrow> bio_fns \<Rightarrow> nat \<Rightarrow> bytes option \<Rightarrow> selection \<Rightarrow> data_cb \<Rightarrow> 'p keytype_desc \<Rightarrow> nat
      \<Rightarrow> ('p dec_state, bool) st" where
  "oqs_der2key_decode B fs cin inp sel0 cb d a =
     thenS (modS (\<lambda>s. s\<lparr>dk_ctx := (dk_ctx s)\<lparr>d2k_selection := sel0\<rparr>\<rparr>))
     (bindS (getS dk_ctx) (\<lambda>cx.
      let sel = (if sel0 = 0 then selection_mask d else sel0) in
      thenS (ensureS (selects sel (selection_mask d)) (Raise PASSED_INVALID_ARGUMENT))
      (bindS (on_refs (oqs_read_der B fs (d2k_provctx cx) cin inp)) (\<lambda>der.
       case der of
         None \<Rightarrow> retS True
       | Some der \<Rightarrow>
           bindS (liftS (decode_key d cx sel der)) (\<lambda>out.
           case out of
             Goto_end key \<Rightarrow> retS False
           | Goto_next None \<Rightarrow> retS True
           | Goto_next (Some k) \<Rightarrow>
               (case deliver cb (keytype_name d) a of (ok, cell) \<Rightarrow>
                thenS (modS (\<lambda>s. s\<lparr>dk_keys := (dk_keys s)(a \<mapsto> k)\<rparr>))
                (thenS (on_keys (oqsx_key_free cell)) (retS ok))))))))"

definition der2key_export_object ::
    "'s km_fun list \<Rightarrow> bool \<Rightarrow> nat \<Rightarrow> selection \<Rightarrow> ('s, bool) st" where
  "der2key_export_object fns size_ok keydata sel =
     (case oqs_prov_get_keymgmt_export fns of
       Some export \<Rightarrow> if size_ok then export keydata sel else retS False
     | None \<Rightarrow> retS False)"

subsection \<open>Calls through absent functions\<close>

lemma null_of_simps [simp]:
  "null_of (Inr k) = Inr (Some k)" "null_of (Inl Quiet) = Inr None" "null_of (Inl UB) = Inl UB"
  "null_of (Inl (Raise x)) = Inr None"
  by (simp_all add: null_of_def)

lemma null_of_UB: "null_of r = Inl e \<longleftrightarrow> r = Inl UB \<and> e = UB"
  by (auto simp: null_of_def split: sum.splits failure.splits)

end
