(* ===== verification/Text_Encoder.thy ===== *)
theory Text_Encoder
  imports Encoder
begin

text \<open>
  The text output of \<^verbatim>\<open>oqs_encode_key2any.c\<close>: a key's components as labelled hexadecimal bytes. The
  printer reads the components byte by byte, so a length that is too large is a read past the
  buffer, which is undefined behaviour here.
\<close>

subsection \<open>Printing\<close>

text \<open>
  The output: the text printed so far and the number of the calls made; \<open>ok\<close> says which calls
  succeed.
\<close>

record text_out =
  tx_text :: string
  tx_calls :: nat

definition bio_printf :: "(nat \<Rightarrow> bool) \<Rightarrow> string \<Rightarrow> (text_out, unit) st" where
  "bio_printf ok s =
     bindS (getS tx_calls) (\<lambda>n.
     thenS (modS (\<lambda>t. t\<lparr>tx_calls := n + 1\<rparr>))
     (thenS (ensureS (ok n) Quiet) (modS (\<lambda>t. t\<lparr>tx_text := tx_text t @ s\<rparr>))))"

definition nl :: string where
  "nl = [CHR 0x0A]"

definition hex_digit :: "nat \<Rightarrow> char" where
  "hex_digit n = ''0123456789abcdef'' ! (n mod 16)"

definition hex2 :: "byte \<Rightarrow> string" where
  "hex2 b = [hex_digit (unat b div 16), hex_digit (unat b)]"

text \<open>The byte \<open>i\<close> behind a pointer into a buffer.\<close>

definition byte_at :: "cptr \<Rightarrow> bytes option \<Rightarrow> nat \<Rightarrow> byte res" where
  "byte_at p buf i =
     (case (p, buf) of
       (Off off, Some b) \<Rightarrow> bindR (rd b (off + i) 1) (\<lambda>bs. Inr (hd bs))
     | _ \<Rightarrow> Inl UB)"

definition LABELED_BUF_PRINT_WIDTH :: nat where
  "LABELED_BUF_PRINT_WIDTH = 15"

text \<open>The loop of \<^verbatim>\<open>print_labeled_buf\<close>: the start of a row, and the loop over the indices that are left.\<close>

definition row_start :: "(nat \<Rightarrow> bool) \<Rightarrow> nat \<Rightarrow> (text_out, unit) st" where
  "row_start ok i =
     (if i mod LABELED_BUF_PRINT_WIDTH = 0 then
        thenS (if i > 0 then bio_printf ok nl else retS ()) (bio_printf ok ''    '')
      else retS ())"

primrec print_bytes :: "(nat \<Rightarrow> bool) \<Rightarrow> (nat \<Rightarrow> byte res) \<Rightarrow> nat \<Rightarrow> nat list \<Rightarrow> (text_out, unit) st" where
  "print_bytes ok byte buflen [] = retS ()"
| "print_bytes ok byte buflen (i # is) =
     thenS (row_start ok i)
     (bindS (liftS (byte i)) (\<lambda>b.
      thenS (bio_printf ok (hex2 b @ (if i = buflen - 1 then [] else '':'')))
            (print_bytes ok byte buflen is)))"

definition print_labeled_buf ::
    "(nat \<Rightarrow> bool) \<Rightarrow> string \<Rightarrow> cptr \<Rightarrow> bytes option \<Rightarrow> nat \<Rightarrow> (text_out, unit) st" where
  "print_labeled_buf ok label p buf buflen =
     thenS (bio_printf ok (label @ nl))
     (thenS (print_bytes ok (byte_at p buf) buflen [0..<buflen])
            (bio_printf ok nl))"

subsection \<open>A key as text\<close>

text \<open>The heading: every key type is one of the two groups, so the default case is not reached.\<close>

definition text_heading :: "(nat \<Rightarrow> bool) \<Rightarrow> string \<Rightarrow> 'p oqsx_key \<Rightarrow> (text_out, unit) st" where
  "text_heading ok part k =
     bio_printf ok (tls_name k @
       (case keytype k of KEY_TYPE_SIG \<Rightarrow> [] | KEY_TYPE_KEM \<Rightarrow> [] | _ \<Rightarrow> '' hybrid'') @
       '' '' @ part @ '' key:'' @ nl)"

text \<open>The pointer passed on; using one that was never set is undefined.\<close>

definition comp_arg :: "cptr list \<Rightarrow> nat \<Rightarrow> cptr res" where
  "comp_arg ps i = bindR (comp_ptr ps i) (\<lambda>p. if p = Uninit then Inl UB else Inr p)"

text \<open>
  \<^verbatim>\<open>sprintf\<close> into \<^verbatim>\<open>classic_label\<close>, 200 characters with the terminating one; \<open>sn\<close> is \<^verbatim>\<open>OBJ_nid2sn\<close> on
  the classical algorithms.
\<close>

definition classic_label :: "(evp_nid \<Rightarrow> string) \<Rightarrow> evp_info \<Rightarrow> string res" where
  "classic_label sn i =
     (let s = sn (ei_nid i) @ '' key material:'' in
      if length s + 1 \<le> 200 then Inr s else Inl UB)"

definition PQ_label :: string where
  "PQ_label = ''PQ key material:''"

text \<open>
  The material of one part: its buffer, pointers, length and the length of the OQS component. The
  subtractions are of \<^verbatim>\<open>size_t\<close>. The label is made before the header's length is checked for the
  private part, and after it for the public one.
\<close>

definition text_part ::
    "(nat \<Rightarrow> bool) \<Rightarrow> (evp_nid \<Rightarrow> string) \<Rightarrow> 'p oqsx_key \<Rightarrow> bool \<Rightarrow> bytes option \<Rightarrow> cptr list \<Rightarrow> nat \<Rightarrow> nat
      \<Rightarrow> (text_out, unit) st" where
  "text_part ok sn k secret buf ps len pqlen =
     (if numkeys k > 1 then
        bindS (liftS (header_of buf)) (\<lambda>n.
        let space = (of_nat len :: 64 word) - of_nat SIZE_OF_UINT32 - of_nat pqlen; fits = of_nat n \<le> space in
        bindS (liftS (if secret \<or> fits then bindR (of_option UB (evp_info k)) (classic_label sn) else Inr [])) (\<lambda>label.
        thenS (ensureS fits (Raise INVALID_ENCODING))
        (bindS (liftS (comp_arg ps 0)) (\<lambda>p0.
        thenS (print_labeled_buf ok label p0 buf n)
        (bindS (liftS (comp_arg ps (numkeys k - 1))) (\<lambda>p1.
         print_labeled_buf ok PQ_label p1 buf
           (unat ((of_nat len :: 64 word) - of_nat n - of_nat SIZE_OF_UINT32))))))))
      else
        bindS (liftS (comp_arg ps (numkeys k - 1))) (\<lambda>p.
        print_labeled_buf ok PQ_label p buf len))"

definition oqsx_to_text ::
    "(nat \<Rightarrow> bool) \<Rightarrow> (evp_nid \<Rightarrow> string) \<Rightarrow> 'p oqsx_key option \<Rightarrow> selection \<Rightarrow> (text_out, unit) st" where
  "oqsx_to_text ok sn key sel = (case key of
       None \<Rightarrow> failS (Raise PASSED_NULL_PARAMETER)
     | Some k \<Rightarrow>
         thenS (if selects sel SELECT_PRIVATE_KEY then
             thenS (ensureS (privkey k \<noteq> None) (Raise NOT_A_PRIVATE_KEY)) (text_heading ok ''private'' k)
           else if selects sel SELECT_PUBLIC_KEY then
             thenS (ensureS (pubkey k \<noteq> None) (Raise NOT_A_PUBLIC_KEY)) (text_heading ok ''public'' k)
           else retS ())
         (thenS (if selects sel SELECT_PRIVATE_KEY \<and> privkey k \<noteq> None then
             text_part ok sn k True (privkey k) (comp_privkey k) (privkeylen k) (qs_length_secret_key (qs k))
           else retS ())
         (if selects sel SELECT_PUBLIC_KEY \<and> pubkey k \<noteq> None then
             text_part ok sn k False (pubkey k) (comp_pubkey k) (pubkeylen k) (qs_length_public_key (qs k))
           else retS ())))"

text \<open>
  The handler of an algorithm: the outcome and the text, with the references to the core's
  objects as the state.
\<close>

definition key2text_encode ::
    "bio_calls \<Rightarrow> bio_fns \<Rightarrow> provctx \<Rightarrow> (nat \<Rightarrow> bool) \<Rightarrow> (evp_nid \<Rightarrow> string) \<Rightarrow> 'p oqsx_key option \<Rightarrow> selection
      \<Rightarrow> nat \<Rightarrow> (core_refs, unit res \<times> string) st" where
  "key2text_encode B fs pc ok sn key sel cout =
     bindS (oqs_bio_new_from_core_bio B fs (pc_meth pc) cout) (\<lambda>out.
     if out = None then retS (Inl Quiet, [])
     else
       let (r, t) = oqsx_to_text ok sn key sel \<lparr>tx_text = [], tx_calls = 0\<rparr> in
       if r = Inl UB then failS UB
       else thenS (BIO_free fs out) (retS (r, tx_text t)))"

definition text_encoder_encode ::
    "bio_calls \<Rightarrow> bio_fns \<Rightarrow> provctx \<Rightarrow> (nat \<Rightarrow> bool) \<Rightarrow> (evp_nid \<Rightarrow> string) \<Rightarrow> 'p oqsx_key option \<Rightarrow> bool
      \<Rightarrow> selection \<Rightarrow> nat \<Rightarrow> (core_refs, unit res \<times> string) st" where
  "text_encoder_encode B fs pc ok sn key abstract sel cout =
     (if abstract then retS (Inl (Raise PASSED_INVALID_ARGUMENT), [])
      else key2text_encode B fs pc ok sn key sel cout)"

subsection \<open>The text and the bytes it is read from\<close>

text \<open>The rows of a component: fifteen bytes each, separated by colons.\<close>

definition row_prefix :: "nat \<Rightarrow> string" where
  "row_prefix i = (if i mod LABELED_BUF_PRINT_WIDTH = 0 then (if i > 0 then nl else []) @ ''    '' else [])"

definition hex_item :: "nat \<Rightarrow> nat \<Rightarrow> byte \<Rightarrow> string" where
  "hex_item n i b = row_prefix i @ hex2 b @ (if i = n - 1 then [] else '':'')"

definition hexdump :: "bytes \<Rightarrow> string" where
  "hexdump bs = concat (map (\<lambda>i. hex_item (length bs) i (bs ! i)) [0..<length bs])"

text \<open>A call prints \<open>s\<close>, whatever the output was before.\<close>

definition prints :: "(text_out, unit) st \<Rightarrow> string \<Rightarrow> bool" where
  "prints m s \<longleftrightarrow> (\<forall>t. fst (m t) = Inr () \<and> tx_text (snd (m t)) = tx_text t @ s)"

lemma printsD: "prints m s \<Longrightarrow> fst (m t) = Inr () \<and> tx_text (snd (m t)) = tx_text t @ s"
  by (simp add: prints_def)

lemma prints_bio_printf: "prints (bio_printf (\<lambda>_. True) s) s"
  by (simp add: prints_def bio_printf_def st_simps)

lemma prints_ret: "prints (retS ()) []"
  by (simp add: prints_def st_simps)

lemma prints_then: "prints m a \<Longrightarrow> prints n b \<Longrightarrow> prints (thenS m n) (a @ b)"
  by (auto simp: prints_def thenS_def bindS_def split: prod.splits sum.splits)
    (metis fst_conv old.sum.exhaust snd_conv append_assoc sum.distinct(1))+

lemma prints_lift: "r = Inr v \<Longrightarrow> prints (f v) s \<Longrightarrow> prints (bindS (liftS r) f) s"
  by (simp add: prints_def st_simps)

lemma thenS_UB: "fst (m t) = Inr () \<Longrightarrow> fst (n (snd (m t))) = Inl UB \<Longrightarrow> fst (thenS m n t) = Inl UB"
  by (cases "m t") (simp add: thenS_def bindS_def)

lemma thenS_fst_UB: "fst (m t) = Inl UB \<Longrightarrow> fst (thenS m n t) = Inl UB"
  by (cases "m t") (simp add: thenS_def bindS_def)

lemma prints_row_start: "prints (row_start (\<lambda>_. True) i) (row_prefix i)"
proof -
  have "prints (if i > 0 then bio_printf (\<lambda>_. True) nl else retS ()) (if i > 0 then nl else [])"
    by (simp add: prints_bio_printf prints_ret)
  from prints_then [OF this prints_bio_printf] show ?thesis
    by (simp only: row_start_def row_prefix_def prints_ret split: if_split) simp
qed

lemma prints_bytes:
  assumes "\<And>i. i \<in> set is \<Longrightarrow> rb i = Inr (f i)"
  shows "prints (print_bytes (\<lambda>_. True) rb n is) (concat (map (\<lambda>i. hex_item n i (f i)) is))"
  using assms
proof (induction "is")
  case (Cons i "is")
  have "prints (bindS (liftS (rb i)) (\<lambda>b.
      thenS (bio_printf (\<lambda>_. True) (hex2 b @ (if i = n - 1 then [] else '':''))) (print_bytes (\<lambda>_. True) rb n is)))
      ((hex2 (f i) @ (if i = n - 1 then [] else '':'')) @ concat (map (\<lambda>i. hex_item n i (f i)) is))"
    by (rule prints_lift [OF Cons.prems prints_then [OF prints_bio_printf Cons.IH]]) (use Cons.prems in simp_all)
  with prints_row_start have "prints (print_bytes (\<lambda>_. True) rb n (i # is))
     (row_prefix i @ (hex2 (f i) @ (if i = n - 1 then [] else '':'')) @ concat (map (\<lambda>i. hex_item n i (f i)) is))"
    unfolding print_bytes.simps by (rule prints_then)
  then show ?case by (simp only: hex_item_def list.map concat.simps append_assoc)
qed (simp add: prints_ret)

lemma print_bytes_UB:
  assumes "\<And>i. i \<in> set is \<Longrightarrow> rb i = Inl UB \<or> (\<exists>b. rb i = Inr b)" and "j \<in> set is" and "rb j = Inl UB"
  shows "fst (print_bytes (\<lambda>_. True) rb n is t) = Inl UB"
  using assms
proof (induction "is" arbitrary: t)
  case (Cons i "is")
  have pre: "fst (row_start (\<lambda>_. True) i u) = Inr ()" for u
    using prints_row_start [of i] by (simp add: prints_def)
  show ?case
  proof (cases "rb i")
    case (Inl e)
    with Cons.prems(1) [of i] have "rb i = Inl UB" by simp
    then show ?thesis unfolding print_bytes.simps by (intro thenS_UB [OF pre]) (simp add: st_simps)
  next
    case (Inr b)
    with Cons.prems(2,3) have "j \<in> set is" by auto
    with Cons.IH Cons.prems have "fst (print_bytes (\<lambda>_. True) rb n is u) = Inl UB" for u by simp
    then have "fst (thenS (bio_printf (\<lambda>_. True) x) (print_bytes (\<lambda>_. True) rb n is) u) = Inl UB" for x u
      by (intro thenS_UB [OF printsD [OF prints_bio_printf, THEN conjunct1]])
    then show ?thesis
      unfolding print_bytes.simps Inr by (intro thenS_UB [OF pre]) (simp only: st_simps)
  qed
qed simp

lemma byte_at_Off: "byte_at (Off off) (Some b) i = (if off + i < length b then Inr (b ! (off + i)) else Inl UB)"
  by (auto simp: byte_at_def rd_def hd_drop_conv_nth)

lemma hexdump_slice:
  assumes "off + n \<le> length b"
  shows "hexdump (slice b off n) = concat (map (\<lambda>i. hex_item n i (b ! (off + i))) [0..<n])"
proof -
  have "length (slice b off n) = n" using assms by (simp add: slice_def)
  moreover have "slice b off n ! i = b ! (off + i)" if "i < n" for i
    using that assms by (simp add: slice_def)
  ultimately show ?thesis
    unfolding hexdump_def by (intro arg_cong [where f = concat] map_cong) simp_all
qed

lemma prints_labeled_buf:
  assumes "off + n \<le> length b"
  shows "prints (print_labeled_buf (\<lambda>_. True) label (Off off) (Some b) n)
    (label @ nl @ hexdump (slice b off n) @ nl)"
proof -
  have "prints (print_bytes (\<lambda>_. True) (byte_at (Off off) (Some b)) n [0..<n]) (hexdump (slice b off n))"
    unfolding hexdump_slice [OF assms] by (rule prints_bytes) (use assms in \<open>simp add: byte_at_Off\<close>)
  then have "prints (print_labeled_buf (\<lambda>_. True) label (Off off) (Some b) n)
      ((label @ nl) @ (hexdump (slice b off n) @ nl))"
    unfolding print_labeled_buf_def by (intro prints_then prints_bio_printf)
  then show ?thesis by simp
qed

lemma print_labeled_buf_UB:
  assumes "length b < off + n" and "0 < n"
  shows "fst (print_labeled_buf (\<lambda>_. True) label (Off off) (Some b) n t) = Inl UB"
proof -
  have "fst (print_bytes (\<lambda>_. True) (byte_at (Off off) (Some b)) n [0..<n] u) = Inl UB" for u
    by (rule print_bytes_UB [where j = "n - 1"]) (use assms in \<open>auto simp: byte_at_Off\<close>)
  then have "fst (thenS (print_bytes (\<lambda>_. True) (byte_at (Off off) (Some b)) n [0..<n])
      (bio_printf (\<lambda>_. True) nl) u) = Inl UB" for u
    by (rule thenS_fst_UB)
  then show ?thesis
    unfolding print_labeled_buf_def by (rule thenS_UB [OF printsD [OF prints_bio_printf, THEN conjunct1]])
qed

subsection \<open>The private key of a hybrid algorithm\<close>

lemma st_unit: "bindS (liftS (Inr x)) f = f x" "thenS (retS ()) m = m" "thenS (ensureS True e) m = m"
  by (intro ext, simp add: st_simps)+

lemma size_t_diff: "a + b \<le> c \<Longrightarrow> (of_nat c :: 64 word) - of_nat a - of_nat b = of_nat (c - a - b)"
  by (simp add: of_nat_diff)

text \<open>The offset at which the second component of the private key lies.\<close>

definition second_priv :: "'p oqsx_key \<Rightarrow> evp_info \<Rightarrow> nat \<Rightarrow> nat" where
  "second_priv k i n = 4 + (if comp_reverse k then qs_length_secret_key (qs k)
     else if is_hyb_kem (keytype k) then length_private_key i else n)"

lemma priv_pointers:
  assumes "wf_key k" and "comps_current k" and "is_hybrid (keytype k)" and "evp_info k = Some i"
    and "privkey k = Some sb" and "dec32 (slice sb 0 4) \<le> length_private_key i"
  shows "comp_privkey k = [Off 4, Off (second_priv k i (dec32 (slice sb 0 4)))]"
proof -
  have "4 \<le> length sb"
    using assms(1,3,5) by (auto simp: wf_key_def wf_buffers_def elim: wf_hybridE)
  with comps_current_hybrid(1) [OF assms(1-4)] assms(6) show ?thesis
    by (auto simp: assms(5) hyb_ptrs_def classic_len_def rd_ok bindR_eq_Inr comp_ptrs_def second_priv_def
        split: if_splits dest: sym)
qed

lemma text_part_hybrid:
  assumes "numkeys k = 2" and "evp_info k = Some i" and "4 \<le> length b" and "n = dec32 (slice b 0 4)"
    and "len = 4 + pqlen + mx" and "n \<le> mx" and "len < 2 ^ 64" and "length (sn (ei_nid i)) \<le> 185"
    and "ps = [Off 4, Off off]"
  shows "text_part (\<lambda>_. True) sn k secret (Some b) ps len pqlen =
     thenS (print_labeled_buf (\<lambda>_. True) (sn (ei_nid i) @ '' key material:'') (Off 4) (Some b) n)
           (print_labeled_buf (\<lambda>_. True) PQ_label (Off off) (Some b) (len - n - 4))"
proof -
  have "(of_nat len :: 64 word) - of_nat SIZE_OF_UINT32 - of_nat pqlen = of_nat mx"
    using assms(5) by (subst size_t_diff) (simp_all add: SIZE_OF_UINT32_def)
  moreover have "(of_nat n :: 64 word) \<le> of_nat mx"
    using assms(5-7) by (simp add: word_le_nat_alt unat_of_nat)
  moreover have "unat ((of_nat len :: 64 word) - of_nat n - of_nat SIZE_OF_UINT32) = len - n - 4"
  proof -
    have "(of_nat len :: 64 word) - of_nat n - of_nat SIZE_OF_UINT32 = of_nat (len - n - SIZE_OF_UINT32)"
      using assms(5,6) by (intro size_t_diff) (simp add: SIZE_OF_UINT32_def)
    moreover have "unat (of_nat (len - n - SIZE_OF_UINT32) :: 64 word) = len - n - SIZE_OF_UINT32"
      using assms(7) by (subst unat_of_nat) simp
    ultimately show ?thesis by (simp only: SIZE_OF_UINT32_def)
  qed
  ultimately show ?thesis
    using assms(1-4,8,9)
    by (simp add: text_part_def header_of_def rd_ok st_unit classic_label_def comp_arg_def comp_ptr_def Let_def)
qed

text \<open>
  C13: The text of a hybrid private key, printed while every call succeeds, on all inputs. The
  classical label is followed by the bytes right behind the header, as many as the header says,
  and the other label by \<open>privkeylen\<close> less those and less four bytes from the second pointer on. The
  pointer is not taken into account, so the call has undefined behaviour exactly when those bytes
  are not all inside the buffer. For a key that reverses its shares, such as \<^verbatim>\<open>X25519MLKEM768\<close>, the
  first pointer is that of the post-quantum component: it is printed under the classical
  label, and the read ends \<open>qs_length_secret_key - n\<close> bytes behind \<open>privkeylen\<close>.
\<close>

theorem text_private_key:
  assumes "wf_key k" and "comps_current k" and "is_hybrid (keytype k)" and "evp_info k = Some i"
    and "privkey k = Some sb" and "n = dec32 (slice sb 0 4)" and "n \<le> length_private_key i"
    and "privkeylen k < 2 ^ 64" and "length (sn (ei_nid i)) \<le> 185"
    and "m = privkeylen k - n - 4" and "off = second_priv k i n"
  shows "(fst (oqsx_to_text (\<lambda>_. True) sn (Some k) SELECT_PRIVATE_KEY t) = Inl UB \<longleftrightarrow>
      0 < m \<and> length sb < off + m) \<and>
    (m = 0 \<or> off + m \<le> length sb \<longrightarrow>
      prints (oqsx_to_text (\<lambda>_. True) sn (Some k) SELECT_PRIVATE_KEY)
       ((tls_name k @ '' hybrid private key:'' @ nl) @
        (sn (ei_nid i) @ '' key material:'' @ nl @ hexdump (slice sb 4 n) @ nl) @
        (PQ_label @ nl @ hexdump (slice sb off m) @ nl)))"
proof -
  from assms(1,3,4) have len: "numkeys k = 2" "privkeylen k = 4 + qs_length_secret_key (qs k) + length_private_key i"
    by (auto simp: wf_key_def elim: wf_hybridE)
  have sb: "privkeylen k \<le> length sb" using assms(1,5) by (simp add: wf_key_def wf_buffers_def)
  have ps: "comp_privkey k = [Off 4, Off off]"
    using priv_pointers [OF assms(1-5)] assms(6,7,11) by simp
  let ?c = "print_labeled_buf (\<lambda>_. True) (sn (ei_nid i) @ '' key material:'') (Off 4) (Some sb) n"
  let ?q = "print_labeled_buf (\<lambda>_. True) PQ_label (Off off) (Some sb) m"
  have part: "text_part (\<lambda>_. True) sn k True (privkey k) (comp_privkey k) (privkeylen k) (qs_length_secret_key (qs k)) =
      thenS ?c ?q"
    unfolding assms(5,10)
    by (rule text_part_hybrid [where mx = "length_private_key i"]) (use assms sb len ps in simp_all)
  have head: "text_heading (\<lambda>_. True) ''private'' k = bio_printf (\<lambda>_. True) (tls_name k @ '' hybrid private key:'' @ nl)"
    using assms(3) by (cases "keytype k") (simp_all add: text_heading_def is_hybrid_def is_hyb_kem_def)
  have sel: "selects SELECT_PRIVATE_KEY SELECT_PRIVATE_KEY" "\<not> selects SELECT_PRIVATE_KEY SELECT_PUBLIC_KEY"
    by (simp_all add: selects_def SELECT_PRIVATE_KEY_def SELECT_PUBLIC_KEY_def)
  have eq: "oqsx_to_text (\<lambda>_. True) sn (Some k) SELECT_PRIVATE_KEY =
      thenS (bio_printf (\<lambda>_. True) (tls_name k @ '' hybrid private key:'' @ nl)) (thenS (thenS ?c ?q) (retS ()))"
    using assms(5) part head by (simp add: oqsx_to_text_def sel st_unit)
  have c: "prints ?c ((sn (ei_nid i) @ '' key material:'') @ nl @ hexdump (slice sb 4 n) @ nl)"
    by (rule prints_labeled_buf) (use sb len assms(7) in simp)
  show ?thesis
  proof (cases "m = 0 \<or> off + m \<le> length sb")
    case True
    have "prints ?q (PQ_label @ nl @ hexdump (slice sb off m) @ nl)"
    proof (cases "m = 0")
      case True
      then show ?thesis
        using prints_labeled_buf [of 0 0 sb PQ_label]
        by (simp add: print_labeled_buf_def slice_def)
    qed (use True in \<open>auto intro: prints_labeled_buf\<close>)
    from prints_then [OF prints_bio_printf [of "tls_name k @ '' hybrid private key:'' @ nl"]
        prints_then [OF prints_then [OF c this] prints_ret]]
    have p: "prints (oqsx_to_text (\<lambda>_. True) sn (Some k) SELECT_PRIVATE_KEY)
        ((tls_name k @ '' hybrid private key:'' @ nl) @
        (sn (ei_nid i) @ '' key material:'' @ nl @ hexdump (slice sb 4 n) @ nl) @
        (PQ_label @ nl @ hexdump (slice sb off m) @ nl))"
      unfolding eq by (simp only: append_assoc append_Nil2)
    with printsD [OF p, of t] True show ?thesis by auto
  next
    case False
    then have "fst (?q u) = Inl UB" for u by (intro print_labeled_buf_UB) auto
    then have "fst (thenS ?c ?q u) = Inl UB" for u by (rule thenS_UB [OF printsD [OF c, THEN conjunct1]])
    then have "fst (thenS (thenS ?c ?q) (retS ()) u) = Inl UB" for u by (rule thenS_fst_UB)
    then have "fst (oqsx_to_text (\<lambda>_. True) sn (Some k) SELECT_PRIVATE_KEY t) = Inl UB"
      unfolding eq by (rule thenS_UB [OF printsD [OF prints_bio_printf, THEN conjunct1]])
    with False show ?thesis by simp
  qed
qed

text \<open>A key that reverses its shares, with a post-quantum secret of 40 bytes.\<close>

definition reversed_key :: "sample_pkey oqsx_key" where
  "reversed_key = x25519_mlkem\<lparr>qs := sample_qs\<lparr>qs_length_secret_key := 40\<rparr>,
     privkeylen := 76, pubkeylen := 40, comp_privkey := comp_ptrs True 40 32, comp_pubkey := comp_ptrs True 4 32,
     privkey := Some (enc32 32 @ replicate 76 7), pubkey := Some (enc32 32 @ replicate 36 1)\<rparr>"

lemma reversed_key_fields:
  "evp_info reversed_key = Some info_x25519" "privkey reversed_key = Some (enc32 32 @ replicate 76 7)"
  "privkeylen reversed_key = 76" "comp_reverse reversed_key" "is_hybrid (keytype reversed_key)"
  "qs_length_secret_key (qs reversed_key) = 40"
  by (simp_all add: reversed_key_def x25519_mlkem_def sample_key_def sample_qs_def is_hybrid_def is_hyb_kem_def
      comp_reverse_def)

lemma reversed_key_ok: "wf_key reversed_key" "comps_current reversed_key"
proof -
  show "wf_key reversed_key"
    by (simp add: reversed_key_def x25519_mlkem_def sample_key_def sample_qs_def wf_key_def wf_shape_def
      wf_buffers_def is_hybrid_def is_hyb_kem_def classic_info_ok_def ok_sizes_def comp_ptrs_def)
  show "comps_current reversed_key"
    unfolding comps_current_def by code_simp
qed

lemma text_private_key_witness:
  "fst (oqsx_to_text (\<lambda>_. True) (\<lambda>_. ''X25519'') (Some reversed_key) SELECT_PRIVATE_KEY
     \<lparr>tx_text = [], tx_calls = 0\<rparr>) = Inl UB"
proof -
  have n: "32 = dec32 (slice (enc32 32 @ replicate 76 7) 0 4)"
    by (simp add: slice_append_whole dec32_enc32)
  have "second_priv reversed_key info_x25519 32 = 44"
    by (simp add: second_priv_def reversed_key_fields)
  with text_private_key [OF reversed_key_ok reversed_key_fields(5,1,2) n _ _ _ refl refl,
      where t = "\<lparr>tx_text = [], tx_calls = 0\<rparr>" and sn = "\<lambda>_. ''X25519''"]
  show ?thesis by (simp add: reversed_key_fields)
qed

end
