(* ===== verification/Coder_Tables.thy ===== *)
theory Coder_Tables
  imports Decoder Text_Encoder Provider
begin

text \<open>
  The instances of the encoder and decoder macros in \<^verbatim>\<open>oqs_encode_key2any.c\<close> and
  \<^verbatim>\<open>oqs_decode_der2key.c\<close>, in the order of the files. Every algorithm has one line for each
  structure and output, which \<open>encoder_rows\<close> and \<open>decoder_rows\<close> stand for; the macro arguments are
  the prefix of its key management table and its name.
\<close>

subsection \<open>The names of the algorithms\<close>

record coder_name =
  cn_impl :: string
  cn_evp_type :: int
  input_type :: string
  pem_type :: string

definition CODER_NAME :: "string \<Rightarrow> int \<Rightarrow> string \<Rightarrow> string \<Rightarrow> coder_name" where
  "CODER_NAME n t i p = \<lparr>cn_impl = n, cn_evp_type = t, input_type = i, pem_type = p\<rparr>"

definition coder_names_1 :: "coder_name list" where
  "coder_names_1 =
    [CODER_NAME ''efrodo640aes'' 0 ''efrodo640aes'' ''efrodo640aes'',
     CODER_NAME ''p256_efrodo640aes'' 0 ''p256_efrodo640aes'' ''p256_efrodo640aes'',
     CODER_NAME ''x25519_efrodo640aes'' 0 ''x25519_efrodo640aes'' ''x25519_efrodo640aes'',
     CODER_NAME ''efrodo640shake'' 0 ''efrodo640shake'' ''efrodo640shake'',
     CODER_NAME ''p256_efrodo640shake'' 0 ''p256_efrodo640shake'' ''p256_efrodo640shake'',
     CODER_NAME ''x25519_efrodo640shake'' 0 ''x25519_efrodo640shake'' ''x25519_efrodo640shake'',
     CODER_NAME ''efrodo976aes'' 0 ''efrodo976aes'' ''efrodo976aes'',
     CODER_NAME ''p384_efrodo976aes'' 0 ''p384_efrodo976aes'' ''p384_efrodo976aes'',
     CODER_NAME ''x448_efrodo976aes'' 0 ''x448_efrodo976aes'' ''x448_efrodo976aes'',
     CODER_NAME ''efrodo976shake'' 0 ''efrodo976shake'' ''efrodo976shake'',
     CODER_NAME ''p384_efrodo976shake'' 0 ''p384_efrodo976shake'' ''p384_efrodo976shake'',
     CODER_NAME ''x448_efrodo976shake'' 0 ''x448_efrodo976shake'' ''x448_efrodo976shake'',
     CODER_NAME ''efrodo1344aes'' 0 ''efrodo1344aes'' ''efrodo1344aes'',
     CODER_NAME ''p521_efrodo1344aes'' 0 ''p521_efrodo1344aes'' ''p521_efrodo1344aes'',
     CODER_NAME ''efrodo1344shake'' 0 ''efrodo1344shake'' ''efrodo1344shake'',
     CODER_NAME ''p521_efrodo1344shake'' 0 ''p521_efrodo1344shake'' ''p521_efrodo1344shake'',
     CODER_NAME ''frodo640aes'' 0 ''frodo640aes'' ''frodo640aes'',
     CODER_NAME ''p256_frodo640aes'' 0 ''p256_frodo640aes'' ''p256_frodo640aes'',
     CODER_NAME ''x25519_frodo640aes'' 0 ''x25519_frodo640aes'' ''x25519_frodo640aes'',
     CODER_NAME ''frodo640shake'' 0 ''frodo640shake'' ''frodo640shake'',
     CODER_NAME ''p256_frodo640shake'' 0 ''p256_frodo640shake'' ''p256_frodo640shake'',
     CODER_NAME ''x25519_frodo640shake'' 0 ''x25519_frodo640shake'' ''x25519_frodo640shake'',
     CODER_NAME ''frodo976aes'' 0 ''frodo976aes'' ''frodo976aes'',
     CODER_NAME ''p384_frodo976aes'' 0 ''p384_frodo976aes'' ''p384_frodo976aes'',
     CODER_NAME ''x448_frodo976aes'' 0 ''x448_frodo976aes'' ''x448_frodo976aes'',
     CODER_NAME ''frodo976shake'' 0 ''frodo976shake'' ''frodo976shake'',
     CODER_NAME ''p384_frodo976shake'' 0 ''p384_frodo976shake'' ''p384_frodo976shake'',
     CODER_NAME ''x448_frodo976shake'' 0 ''x448_frodo976shake'' ''x448_frodo976shake'',
     CODER_NAME ''frodo1344aes'' 0 ''frodo1344aes'' ''frodo1344aes'',
     CODER_NAME ''p521_frodo1344aes'' 0 ''p521_frodo1344aes'' ''p521_frodo1344aes'',
     CODER_NAME ''frodo1344shake'' 0 ''frodo1344shake'' ''frodo1344shake'',
     CODER_NAME ''p521_frodo1344shake'' 0 ''p521_frodo1344shake'' ''p521_frodo1344shake'',
     CODER_NAME ''mlkem512'' 0 ''mlkem512'' ''mlkem512'',
     CODER_NAME ''p256_mlkem512'' 0 ''p256_mlkem512'' ''p256_mlkem512'',
     CODER_NAME ''x25519_mlkem512'' 0 ''x25519_mlkem512'' ''x25519_mlkem512'',
     CODER_NAME ''bp256_mlkem512'' 0 ''bp256_mlkem512'' ''bp256_mlkem512'',
     CODER_NAME ''mlkem768'' 0 ''mlkem768'' ''mlkem768'',
     CODER_NAME ''p384_mlkem768'' 0 ''p384_mlkem768'' ''p384_mlkem768'',
     CODER_NAME ''x448_mlkem768'' 0 ''x448_mlkem768'' ''x448_mlkem768'',
     CODER_NAME ''bp384_mlkem768'' 0 ''bp384_mlkem768'' ''bp384_mlkem768'',
     CODER_NAME ''X25519MLKEM768'' 0 ''X25519MLKEM768'' ''X25519MLKEM768'',
     CODER_NAME ''SecP256r1MLKEM768'' 0 ''SecP256r1MLKEM768'' ''SecP256r1MLKEM768'',
     CODER_NAME ''mlkem1024'' 0 ''mlkem1024'' ''mlkem1024'',
     CODER_NAME ''p521_mlkem1024'' 0 ''p521_mlkem1024'' ''p521_mlkem1024'',
     CODER_NAME ''SecP384r1MLKEM1024'' 0 ''SecP384r1MLKEM1024'' ''SecP384r1MLKEM1024'']"

definition coder_names_2 :: "coder_name list" where
  "coder_names_2 =
    [CODER_NAME ''bp512_mlkem1024'' 0 ''bp512_mlkem1024'' ''bp512_mlkem1024'',
     CODER_NAME ''bikel1'' 0 ''bikel1'' ''bikel1'',
     CODER_NAME ''p256_bikel1'' 0 ''p256_bikel1'' ''p256_bikel1'',
     CODER_NAME ''x25519_bikel1'' 0 ''x25519_bikel1'' ''x25519_bikel1'',
     CODER_NAME ''bikel3'' 0 ''bikel3'' ''bikel3'',
     CODER_NAME ''p384_bikel3'' 0 ''p384_bikel3'' ''p384_bikel3'',
     CODER_NAME ''x448_bikel3'' 0 ''x448_bikel3'' ''x448_bikel3'',
     CODER_NAME ''bikel5'' 0 ''bikel5'' ''bikel5'',
     CODER_NAME ''p521_bikel5'' 0 ''p521_bikel5'' ''p521_bikel5'',
     CODER_NAME ''mldsa44'' 0 ''mldsa44'' ''mldsa44'',
     CODER_NAME ''p256_mldsa44'' 0 ''p256_mldsa44'' ''p256_mldsa44'',
     CODER_NAME ''rsa3072_mldsa44'' 0 ''rsa3072_mldsa44'' ''rsa3072_mldsa44'',
     CODER_NAME ''mldsa65'' 0 ''mldsa65'' ''mldsa65'',
     CODER_NAME ''p384_mldsa65'' 0 ''p384_mldsa65'' ''p384_mldsa65'',
     CODER_NAME ''mldsa87'' 0 ''mldsa87'' ''mldsa87'',
     CODER_NAME ''p521_mldsa87'' 0 ''p521_mldsa87'' ''p521_mldsa87'',
     CODER_NAME ''falcon512'' 0 ''falcon512'' ''falcon512'',
     CODER_NAME ''p256_falcon512'' 0 ''p256_falcon512'' ''p256_falcon512'',
     CODER_NAME ''rsa3072_falcon512'' 0 ''rsa3072_falcon512'' ''rsa3072_falcon512'',
     CODER_NAME ''falconpadded512'' 0 ''falconpadded512'' ''falconpadded512'',
     CODER_NAME ''p256_falconpadded512'' 0 ''p256_falconpadded512'' ''p256_falconpadded512'',
     CODER_NAME ''rsa3072_falconpadded512'' 0 ''rsa3072_falconpadded512'' ''rsa3072_falconpadded512'',
     CODER_NAME ''falcon1024'' 0 ''falcon1024'' ''falcon1024'',
     CODER_NAME ''p521_falcon1024'' 0 ''p521_falcon1024'' ''p521_falcon1024'',
     CODER_NAME ''falconpadded1024'' 0 ''falconpadded1024'' ''falconpadded1024'',
     CODER_NAME ''p521_falconpadded1024'' 0 ''p521_falconpadded1024'' ''p521_falconpadded1024'',
     CODER_NAME ''mayo1'' 0 ''mayo1'' ''mayo1'', CODER_NAME ''p256_mayo1'' 0 ''p256_mayo1'' ''p256_mayo1'',
     CODER_NAME ''mayo2'' 0 ''mayo2'' ''mayo2'', CODER_NAME ''p256_mayo2'' 0 ''p256_mayo2'' ''p256_mayo2'',
     CODER_NAME ''mayo3'' 0 ''mayo3'' ''mayo3'', CODER_NAME ''p384_mayo3'' 0 ''p384_mayo3'' ''p384_mayo3'',
     CODER_NAME ''mayo5'' 0 ''mayo5'' ''mayo5'', CODER_NAME ''p521_mayo5'' 0 ''p521_mayo5'' ''p521_mayo5'',
     CODER_NAME ''CROSSrsdp128balanced'' 0 ''CROSSrsdp128balanced'' ''CROSSrsdp128balanced'',
     CODER_NAME ''OV_Is_pkc'' 0 ''OV_Is_pkc'' ''OV_Is_pkc'',
     CODER_NAME ''p256_OV_Is_pkc'' 0 ''p256_OV_Is_pkc'' ''p256_OV_Is_pkc'',
     CODER_NAME ''OV_Ip_pkc'' 0 ''OV_Ip_pkc'' ''OV_Ip_pkc'',
     CODER_NAME ''p256_OV_Ip_pkc'' 0 ''p256_OV_Ip_pkc'' ''p256_OV_Ip_pkc'',
     CODER_NAME ''OV_Is_pkc_skc'' 0 ''OV_Is_pkc_skc'' ''OV_Is_pkc_skc'',
     CODER_NAME ''p256_OV_Is_pkc_skc'' 0 ''p256_OV_Is_pkc_skc'' ''p256_OV_Is_pkc_skc'',
     CODER_NAME ''OV_Ip_pkc_skc'' 0 ''OV_Ip_pkc_skc'' ''OV_Ip_pkc_skc'',
     CODER_NAME ''p256_OV_Ip_pkc_skc'' 0 ''p256_OV_Ip_pkc_skc'' ''p256_OV_Ip_pkc_skc'',
     CODER_NAME ''snova2454'' 0 ''snova2454'' ''snova2454'',
     CODER_NAME ''p256_snova2454'' 0 ''p256_snova2454'' ''p256_snova2454'',
     CODER_NAME ''snova2454esk'' 0 ''snova2454esk'' ''snova2454esk'',
     CODER_NAME ''p256_snova2454esk'' 0 ''p256_snova2454esk'' ''p256_snova2454esk'',
     CODER_NAME ''snova37172'' 0 ''snova37172'' ''snova37172'']"

definition coder_names_3 :: "coder_name list" where
  "coder_names_3 =
    [CODER_NAME ''p256_snova37172'' 0 ''p256_snova37172'' ''p256_snova37172'',
     CODER_NAME ''snova2455'' 0 ''snova2455'' ''snova2455'',
     CODER_NAME ''p384_snova2455'' 0 ''p384_snova2455'' ''p384_snova2455'',
     CODER_NAME ''snova2965'' 0 ''snova2965'' ''snova2965'',
     CODER_NAME ''p521_snova2965'' 0 ''p521_snova2965'' ''p521_snova2965'',
     CODER_NAME ''slhdsasha2128s'' 0 ''slhdsasha2128s'' ''slhdsasha2128s'',
     CODER_NAME ''slhdsasha2128f'' 0 ''slhdsasha2128f'' ''slhdsasha2128f'',
     CODER_NAME ''slhdsasha2192s'' 0 ''slhdsasha2192s'' ''slhdsasha2192s'',
     CODER_NAME ''slhdsasha2192f'' 0 ''slhdsasha2192f'' ''slhdsasha2192f'',
     CODER_NAME ''slhdsasha2256s'' 0 ''slhdsasha2256s'' ''slhdsasha2256s'',
     CODER_NAME ''slhdsasha2256f'' 0 ''slhdsasha2256f'' ''slhdsasha2256f'',
     CODER_NAME ''slhdsashake128s'' 0 ''slhdsashake128s'' ''slhdsashake128s'',
     CODER_NAME ''slhdsashake128f'' 0 ''slhdsashake128f'' ''slhdsashake128f'',
     CODER_NAME ''slhdsashake192s'' 0 ''slhdsashake192s'' ''slhdsashake192s'',
     CODER_NAME ''slhdsashake192f'' 0 ''slhdsashake192f'' ''slhdsashake192f'',
     CODER_NAME ''slhdsashake256s'' 0 ''slhdsashake256s'' ''slhdsashake256s'',
     CODER_NAME ''slhdsashake256f'' 0 ''slhdsashake256f'' ''slhdsashake256f'']"

definition coder_names :: "coder_name list" where
  "coder_names = coder_names_1 @ coder_names_2 @ coder_names_3"


subsection \<open>The encoders\<close>

datatype encoder_row = MAKE_ENCODER string string enc_kind enc_output | MAKE_TEXT_ENCODER string string

definition encoder_rows :: "string \<times> string \<Rightarrow> encoder_row list" where
  "encoder_rows = (\<lambda>(h, n).
     [MAKE_ENCODER h n EncryptedPrivateKeyInfo DER, MAKE_ENCODER h n EncryptedPrivateKeyInfo PEM,
      MAKE_ENCODER h n PrivateKeyInfo DER, MAKE_ENCODER h n PrivateKeyInfo PEM,
      MAKE_ENCODER h n SubjectPublicKeyInfo DER, MAKE_ENCODER h n SubjectPublicKeyInfo PEM,
      MAKE_TEXT_ENCODER h n])"

definition encoders_kem_1 :: "encoder_row list" where
  "encoders_kem_1 = concat (map encoder_rows
    [('''', ''efrodo640aes''), (''_ecp'', ''p256_efrodo640aes''), (''_ecx'', ''x25519_efrodo640aes''),
     ('''', ''efrodo640shake''), (''_ecp'', ''p256_efrodo640shake''), (''_ecx'', ''x25519_efrodo640shake''),
     ('''', ''efrodo976aes''), (''_ecp'', ''p384_efrodo976aes''), (''_ecx'', ''x448_efrodo976aes''),
     ('''', ''efrodo976shake''), (''_ecp'', ''p384_efrodo976shake''), (''_ecx'', ''x448_efrodo976shake''),
     ('''', ''efrodo1344aes''), (''_ecp'', ''p521_efrodo1344aes''), ('''', ''efrodo1344shake''),
     (''_ecp'', ''p521_efrodo1344shake''), ('''', ''frodo640aes''), (''_ecp'', ''p256_frodo640aes''),
     (''_ecx'', ''x25519_frodo640aes''), ('''', ''frodo640shake'')])"

definition encoders_kem_2 :: "encoder_row list" where
  "encoders_kem_2 = concat (map encoder_rows
    [(''_ecp'', ''p256_frodo640shake''), (''_ecx'', ''x25519_frodo640shake''), ('''', ''frodo976aes''),
     (''_ecp'', ''p384_frodo976aes''), (''_ecx'', ''x448_frodo976aes''), ('''', ''frodo976shake''),
     (''_ecp'', ''p384_frodo976shake''), (''_ecx'', ''x448_frodo976shake''), ('''', ''frodo1344aes''),
     (''_ecp'', ''p521_frodo1344aes''), ('''', ''frodo1344shake''), (''_ecp'', ''p521_frodo1344shake''),
     ('''', ''mlkem512''), (''_ecp'', ''p256_mlkem512''), (''_ecx'', ''x25519_mlkem512''),
     (''_ecbp'', ''bp256_mlkem512''), ('''', ''mlkem768''), (''_ecp'', ''p384_mlkem768''),
     (''_ecx'', ''x448_mlkem768''), (''_ecbp'', ''bp384_mlkem768'')])"

definition encoders_kem_3 :: "encoder_row list" where
  "encoders_kem_3 = concat (map encoder_rows
    [(''_ecx'', ''X25519MLKEM768''), (''_ecp'', ''SecP256r1MLKEM768''), ('''', ''mlkem1024''),
     (''_ecp'', ''p521_mlkem1024''), (''_ecp'', ''SecP384r1MLKEM1024''), (''_ecbp'', ''bp512_mlkem1024''),
     ('''', ''bikel1''), (''_ecp'', ''p256_bikel1''), (''_ecx'', ''x25519_bikel1''), ('''', ''bikel3''),
     (''_ecp'', ''p384_bikel3''), (''_ecx'', ''x448_bikel3''), ('''', ''bikel5''),
     (''_ecp'', ''p521_bikel5'')])"

definition encoders_kem :: "encoder_row list" where
  "encoders_kem = encoders_kem_1 @ encoders_kem_2 @ encoders_kem_3"

definition encoders_sig_1 :: "encoder_row list" where
  "encoders_sig_1 = concat (map encoder_rows
    [('''', ''mldsa44''), ('''', ''p256_mldsa44''), ('''', ''rsa3072_mldsa44''), ('''', ''mldsa65''),
     ('''', ''p384_mldsa65''), ('''', ''mldsa87''), ('''', ''p521_mldsa87''), ('''', ''falcon512''),
     ('''', ''p256_falcon512''), ('''', ''rsa3072_falcon512''), ('''', ''falconpadded512''),
     ('''', ''p256_falconpadded512''), ('''', ''rsa3072_falconpadded512''), ('''', ''falcon1024''),
     ('''', ''p521_falcon1024''), ('''', ''falconpadded1024''), ('''', ''p521_falconpadded1024''),
     ('''', ''mayo1''), ('''', ''p256_mayo1''), ('''', ''mayo2''), ('''', ''p256_mayo2'')])"

definition encoders_sig_2 :: "encoder_row list" where
  "encoders_sig_2 = concat (map encoder_rows
    [('''', ''mayo3''), ('''', ''p384_mayo3''), ('''', ''mayo5''), ('''', ''p521_mayo5''),
     ('''', ''CROSSrsdp128balanced''), ('''', ''OV_Is_pkc''), ('''', ''p256_OV_Is_pkc''),
     ('''', ''OV_Ip_pkc''), ('''', ''p256_OV_Ip_pkc''), ('''', ''OV_Is_pkc_skc''),
     ('''', ''p256_OV_Is_pkc_skc''), ('''', ''OV_Ip_pkc_skc''), ('''', ''p256_OV_Ip_pkc_skc''),
     ('''', ''snova2454''), ('''', ''p256_snova2454''), ('''', ''snova2454esk''),
     ('''', ''p256_snova2454esk''), ('''', ''snova37172''), ('''', ''p256_snova37172''),
     ('''', ''snova2455''), ('''', ''p384_snova2455'')])"

definition encoders_sig_3 :: "encoder_row list" where
  "encoders_sig_3 = concat (map encoder_rows
    [('''', ''snova2965''), ('''', ''p521_snova2965''), ('''', ''slhdsasha2128s''),
     ('''', ''slhdsasha2128f''), ('''', ''slhdsasha2192s''), ('''', ''slhdsasha2192f''),
     ('''', ''slhdsasha2256s''), ('''', ''slhdsasha2256f''), ('''', ''slhdsashake128s''),
     ('''', ''slhdsashake128f''), ('''', ''slhdsashake192s''), ('''', ''slhdsashake192f''),
     ('''', ''slhdsashake256s''), ('''', ''slhdsashake256f'')])"

definition encoders_sig :: "encoder_row list" where
  "encoders_sig = encoders_sig_1 @ encoders_sig_2 @ encoders_sig_3"


text \<open>The tables of a build, with or without the KEM coders.\<close>

definition encoders :: "bool \<Rightarrow> encoder_row list" where
  "encoders kem = (if kem then encoders_kem else []) @ encoders_sig"

subsection \<open>The decoders\<close>

definition decoder_rows :: "string \<times> string \<Rightarrow> decoder_row list" where
  "decoder_rows = (\<lambda>(h, n). [MAKE_DECODER h n n PrivateKeyInfo, MAKE_DECODER h n n SubjectPublicKeyInfo])"

definition decoders_kem_1 :: "decoder_row list" where
  "decoders_kem_1 = concat (map decoder_rows
    [('''', ''efrodo640aes''), (''_ecp'', ''p256_efrodo640aes''), (''_ecx'', ''x25519_efrodo640aes''),
     ('''', ''efrodo640shake''), (''_ecp'', ''p256_efrodo640shake''), (''_ecx'', ''x25519_efrodo640shake''),
     ('''', ''efrodo976aes''), (''_ecp'', ''p384_efrodo976aes''), (''_ecx'', ''x448_efrodo976aes''),
     ('''', ''efrodo976shake''), (''_ecp'', ''p384_efrodo976shake''), (''_ecx'', ''x448_efrodo976shake''),
     ('''', ''efrodo1344aes''), (''_ecp'', ''p521_efrodo1344aes''), ('''', ''efrodo1344shake''),
     (''_ecp'', ''p521_efrodo1344shake''), ('''', ''frodo640aes''), (''_ecp'', ''p256_frodo640aes''),
     (''_ecx'', ''x25519_frodo640aes''), ('''', ''frodo640shake''), (''_ecp'', ''p256_frodo640shake''),
     (''_ecx'', ''x25519_frodo640shake''), ('''', ''frodo976aes''), (''_ecp'', ''p384_frodo976aes''),
     (''_ecx'', ''x448_frodo976aes''), ('''', ''frodo976shake''), (''_ecp'', ''p384_frodo976shake''),
     (''_ecx'', ''x448_frodo976shake''), ('''', ''frodo1344aes''), (''_ecp'', ''p521_frodo1344aes''),
     ('''', ''frodo1344shake''), (''_ecp'', ''p521_frodo1344shake''), ('''', ''mlkem512''),
     (''_ecp'', ''p256_mlkem512''), (''_ecx'', ''x25519_mlkem512''), (''_ecbp'', ''bp256_mlkem512''),
     ('''', ''mlkem768''), (''_ecp'', ''p384_mlkem768''), (''_ecx'', ''x448_mlkem768'')])"

definition decoders_kem_2 :: "decoder_row list" where
  "decoders_kem_2 = concat (map decoder_rows
    [(''_ecbp'', ''bp384_mlkem768''), (''_ecx'', ''X25519MLKEM768''), (''_ecp'', ''SecP256r1MLKEM768''),
     ('''', ''mlkem1024''), (''_ecp'', ''p521_mlkem1024''), (''_ecp'', ''SecP384r1MLKEM1024''),
     (''_ecbp'', ''bp512_mlkem1024''), ('''', ''bikel1''), (''_ecp'', ''p256_bikel1''),
     (''_ecx'', ''x25519_bikel1''), ('''', ''bikel3''), (''_ecp'', ''p384_bikel3''),
     (''_ecx'', ''x448_bikel3''), ('''', ''bikel5''), (''_ecp'', ''p521_bikel5'')])"

definition decoders_kem :: "decoder_row list" where
  "decoders_kem = decoders_kem_1 @ decoders_kem_2"

definition decoders_sig_1 :: "decoder_row list" where
  "decoders_sig_1 = concat (map decoder_rows
    [('''', ''mldsa44''), ('''', ''p256_mldsa44''), ('''', ''rsa3072_mldsa44''), ('''', ''mldsa65''),
     ('''', ''p384_mldsa65''), ('''', ''mldsa87''), ('''', ''p521_mldsa87''), ('''', ''falcon512''),
     ('''', ''p256_falcon512''), ('''', ''rsa3072_falcon512''), ('''', ''falconpadded512''),
     ('''', ''p256_falconpadded512''), ('''', ''rsa3072_falconpadded512''), ('''', ''falcon1024''),
     ('''', ''p521_falcon1024''), ('''', ''falconpadded1024''), ('''', ''p521_falconpadded1024''),
     ('''', ''mayo1''), ('''', ''p256_mayo1''), ('''', ''mayo2''), ('''', ''p256_mayo2''),
     ('''', ''mayo3''), ('''', ''p384_mayo3''), ('''', ''mayo5''), ('''', ''p521_mayo5''),
     ('''', ''CROSSrsdp128balanced''), ('''', ''OV_Is_pkc''), ('''', ''p256_OV_Is_pkc''),
     ('''', ''OV_Ip_pkc''), ('''', ''p256_OV_Ip_pkc''), ('''', ''OV_Is_pkc_skc''),
     ('''', ''p256_OV_Is_pkc_skc''), ('''', ''OV_Ip_pkc_skc''), ('''', ''p256_OV_Ip_pkc_skc''),
     ('''', ''snova2454''), ('''', ''p256_snova2454''), ('''', ''snova2454esk''),
     ('''', ''p256_snova2454esk''), ('''', ''snova37172''), ('''', ''p256_snova37172''),
     ('''', ''snova2455''), ('''', ''p384_snova2455''), ('''', ''snova2965''), ('''', ''p521_snova2965''),
     ('''', ''slhdsasha2128s''), ('''', ''slhdsasha2128f''), ('''', ''slhdsasha2192s''),
     ('''', ''slhdsasha2192f''), ('''', ''slhdsasha2256s''), ('''', ''slhdsasha2256f''),
     ('''', ''slhdsashake128s''), ('''', ''slhdsashake128f''), ('''', ''slhdsashake192s''),
     ('''', ''slhdsashake192f''), ('''', ''slhdsashake256s''), ('''', ''slhdsashake256f'')])"

definition decoders_sig :: "decoder_row list" where
  "decoders_sig = decoders_sig_1"

definition decoders :: "bool \<Rightarrow> decoder_row list" where
  "decoders kem = (if kem then decoders_kem else []) @ decoders_sig"

subsection \<open>Agreement of the tables\<close>

text \<open>The key management table that a macro line names.\<close>

definition keymgmt_table :: "string \<Rightarrow> string \<Rightarrow> string" where
  "keymgmt_table h n = ''oqs'' @ h @ ''_'' @ n @ ''_keymgmt_functions''"

definition hyb_prefix :: "oqsx_key_type \<Rightarrow> string" where
  "hyb_prefix t = (case t of
       KEY_TYPE_ECP_HYB_KEM \<Rightarrow> ''_ecp'' | KEY_TYPE_ECBP_HYB_KEM \<Rightarrow> ''_ecbp''
     | KEY_TYPE_ECX_HYB_KEM \<Rightarrow> ''_ecx'' | _ \<Rightarrow> [])"

definition nid_rows :: "bool \<Rightarrow> (string \<times> string) list" where
  "nid_rows kem = map (\<lambda>e. (hyb_prefix (ne_keytype e), tlsname e)) (nid_names kem)"

definition managed :: "string \<times> string \<Rightarrow> string option \<times> string option" where
  "managed = (\<lambda>(h, n). (Some n, Some (keymgmt_table h n)))"

definition row_ids :: "(string \<times> ossl_algorithm list) list \<Rightarrow> (string option \<times> string option) list" where
  "row_ids t = map (\<lambda>r. (algorithm_names r, implementation r)) (concat (map snd t))"

lemma encoders_from_nids: "encoders kem = concat (map encoder_rows (nid_rows kem))"
proof -
  have "encoders True = concat (map encoder_rows (nid_rows True))" by code_simp
  moreover have "encoders False = concat (map encoder_rows (nid_rows False))" by code_simp
  ultimately show ?thesis by (cases kem) simp_all
qed

lemma decoders_from_nids: "decoders kem = concat (map decoder_rows (nid_rows kem))"
proof -
  have "decoders True = concat (map decoder_rows (nid_rows True))" by code_simp
  moreover have "decoders False = concat (map decoder_rows (nid_rows False))" by code_simp
  ultimately show ?thesis by (cases kem) simp_all
qed

lemma coder_names_from_nids: "coder_names = map (\<lambda>(h, n). CODER_NAME n 0 n n) (nid_rows True)"
  by code_simp

lemma keymgmt_from_nids: "row_ids (keymgmt_kem_algs @ keymgmt_sig_algs) = map managed (nid_rows True)"
  by code_simp

text \<open>
  C14: The tables agree. In both builds the encoders and the decoders are those of the
  algorithms of the NID table, in its order: six structures and the text for each, and a decoder
  for a private and one for a public key. The key management table that a macro line names by the
  prefix of the key type is the one the provider offers for the algorithm, and the name under
  which a key is written is the algorithm's name.
\<close>

theorem coder_tables_agree:
  "encoders kem = concat (map encoder_rows (nid_rows kem)) \<and>
   decoders kem = concat (map decoder_rows (nid_rows kem)) \<and>
   row_ids (keymgmt_kem_algs @ keymgmt_sig_algs) = map managed (nid_rows True) \<and>
   coder_names = map (\<lambda>(h, n). CODER_NAME n 0 n n) (nid_rows True)"
  by (intro conjI encoders_from_nids decoders_from_nids keymgmt_from_nids coder_names_from_nids)

end
