(* ===== verification/Decoder_Correct.thy ===== *)
theory Decoder_Correct
  imports Decoder Registration
begin

text \<open>
  The outcome of a decoder as a whole: no call through an absent function, the ownership of the key it
  makes, and the round trips of a private and of a public key through an encoder and a decoder.
\<close>

subsection \<open>What a description reads\<close>

definition desc_reads ::
    "('c, 'e) asn1_lib \<Rightarrow> liboqs \<Rightarrow> 'p openssl \<Rightarrow> key_env \<Rightarrow> enc_kind \<Rightarrow> int \<Rightarrow> selection \<Rightarrow> nat \<Rightarrow> bytes
      \<Rightarrow> 'p oqsx_key res" where
  "desc_reads A L E env kind t sel lc der =
     (if kind = PrivateKeyInfo then oqsx_d2i_PKCS8 A L E env t lc der
      else if selects sel SELECT_PRIVATE_KEY then Inl Quiet else oqsx_d2i_PUBKEY A L E env der)"

definition typed_desc ::
    "('c, 'e) asn1_lib \<Rightarrow> liboqs \<Rightarrow> 'p openssl \<Rightarrow> key_env \<Rightarrow> string \<Rightarrow> string \<Rightarrow> enc_kind \<Rightarrow> int \<Rightarrow> 'p keytype_desc" where
  "typed_desc A L E env h n kind t = (keytype_desc_of A L E env (MAKE_DECODER h n n kind))\<lparr>kd_evp_type := t\<rparr>"

lemma typed_desc_fields [simp]:
  "keytype_name (typed_desc A L E env h n kind t) = n" "kd_evp_type (typed_desc A L E env h n kind t) = t"
  "selection_mask (typed_desc A L E env h n kind t) =
     (if kind = PrivateKeyInfo then SELECT_PRIVATE_KEY else SELECT_PUBLIC_KEY)"
  "d2i_private_key (typed_desc A L E env h n kind t) = None"
  "d2i_public_key (typed_desc A L E env h n kind t) = None"
  "d2i_key_params (typed_desc A L E env h n kind t) = None"
  "d2i_PKCS8 (typed_desc A L E env h n kind t) = (if kind = PrivateKeyInfo then Some (oqsx_d2i_PKCS8 A L E env) else None)"
  "d2i_PUBKEY (typed_desc A L E env h n kind t) = (if kind = PrivateKeyInfo then None else Some (oqsx_d2i_PUBKEY A L E env))"
  "check_key (typed_desc A L E env h n kind t) = None"
  "adjust_key (typed_desc A L E env h n kind t) = Some oqsx_key_adjust"
  by (cases kind; simp add: typed_desc_def keytype_desc_of_def)+

lemma finish_key_typed: "finish_key (typed_desc A L E env h n kind t) lc = map_option (oqsx_key_adjust lc)"
  by (rule ext) (simp add: finish_key_def split: option.split)

lemma selects_simps [simp]:
  "selects SELECT_PRIVATE_KEY SELECT_PUBLIC_KEY = False" "selects SELECT_PUBLIC_KEY SELECT_PRIVATE_KEY = False"
  "selects SELECT_PRIVATE_KEY SELECT_ALL_PARAMETERS = False" "selects SELECT_PUBLIC_KEY SELECT_ALL_PARAMETERS = False"
  "selects SELECT_PRIVATE_KEY SELECT_PRIVATE_KEY = True" "selects SELECT_PUBLIC_KEY SELECT_PUBLIC_KEY = True"
  by (simp_all add: selects_def SELECT_PRIVATE_KEY_def SELECT_PUBLIC_KEY_def SELECT_ALL_PARAMETERS_def)

text \<open>
  The steps of the decoder come down to one reader, whose failure leaves nothing. The selection in
  force is the one asked for, or the description's when none is asked for.
\<close>

lemma decode_key_typed:
  assumes d_def: "d = typed_desc A L E env h n kind t"
    and "\<not> flag_fatal cx"
    and "sel = (if d2k_selection cx = 0 then selection_mask d else d2k_selection cx)"
    and "selects sel (selection_mask d)"
  shows "decode_key d cx sel der =
    bindR (null_of (desc_reads A L E env kind t sel (pc_libctx (d2k_provctx cx)) der))
      (\<lambda>key. Inr (Goto_next (map_option (oqsx_key_adjust (pc_libctx (d2k_provctx cx))) key)))"
proof (cases "kind = PrivateKeyInfo")
  case True
  then have "selects sel SELECT_PRIVATE_KEY" using assms(4) by (simp add: d_def)
  with True assms(2,3) show ?thesis
    by (auto simp: decode_key_def Let_def desc_reads_def decode_public_def decode_params_def finish_key_typed d_def
        bindR_def split: sum.split option.split)
next
  case False
  then have "selects sel SELECT_PUBLIC_KEY" using assms(4) by (simp add: d_def)
  with False assms(2,3) show ?thesis
    by (auto simp: decode_key_def Let_def desc_reads_def decode_public_def decode_params_def finish_key_typed d_def
        bindR_def split: sum.split option.split)
qed

lemma oqs_read_der_balanced:
  assumes "fs BIO_FREE \<noteq> None"
  shows "on_refs (oqs_read_der B fs pc cin inp) s =
    (Inr (if pc_meth pc \<and> bio_new_ok B \<and> fs BIO_UP_REF \<noteq> None \<and> up_ref_ok B cin then inp else None), s)"
  by (auto simp: on_refs_def oqs_read_der_def with_core_bio_balanced [where fs = fs, OF assms])

text \<open>The state once the selection is stored, and the input when it can be opened.\<close>

definition asked_state :: "selection \<Rightarrow> 'p dec_state \<Rightarrow> 'p dec_state" where
  "asked_state sel s = s\<lparr>dk_ctx := (dk_ctx s)\<lparr>d2k_selection := sel\<rparr>\<rparr>"

definition opened :: "bio_calls \<Rightarrow> bio_fns \<Rightarrow> 'p dec_state \<Rightarrow> nat \<Rightarrow> bytes option \<Rightarrow> bytes option" where
  "opened B fs s cin inp =
     (if pc_meth (d2k_provctx (dk_ctx s)) \<and> bio_new_ok B \<and> fs BIO_UP_REF \<noteq> None \<and> up_ref_ok B cin
      then inp else None)"

lemma decode_typed:
  assumes d_def: "d = typed_desc A L E env h n kind t"
    and "fs BIO_FREE \<noteq> None" and "\<not> flag_fatal (dk_ctx s)"
    and "sel' = (if sel = 0 then selection_mask d else sel)" and "selects sel' (selection_mask d)"
  shows "oqs_der2key_decode B fs cin inp sel cb d a s =
    (case opened B fs s cin inp of
       None \<Rightarrow> (Inr True, asked_state sel s)
     | Some der \<Rightarrow>
         (case null_of (desc_reads A L E env kind t sel' (pc_libctx (d2k_provctx (dk_ctx s))) der) of
            Inl e \<Rightarrow> (Inl e, asked_state sel s)
          | Inr None \<Rightarrow> (Inr True, asked_state sel s)
          | Inr (Some k) \<Rightarrow>
              (case deliver cb n a of (ok, cell) \<Rightarrow>
               thenS (modS (\<lambda>u. u\<lparr>dk_keys := (dk_keys u)(a \<mapsto> oqsx_key_adjust (pc_libctx (d2k_provctx (dk_ctx s))) k)\<rparr>))
                (thenS (on_keys (oqsx_key_free cell)) (retS ok)) (asked_state sel s))))"
proof -
  let ?cx = "(dk_ctx s)\<lparr>d2k_selection := sel\<rparr>"
  have k: "decode_key d ?cx sel' der =
      bindR (null_of (desc_reads A L E env kind t sel' (pc_libctx (d2k_provctx (dk_ctx s))) der))
      (\<lambda>key. Inr (Goto_next (map_option (oqsx_key_adjust (pc_libctx (d2k_provctx (dk_ctx s)))) key)))" for der
    by (subst decode_key_typed [OF d_def, of ?cx sel']) (use assms(3-5) in simp_all)
  have "oqs_der2key_decode B fs cin inp sel cb d a s =
     bindS (on_refs (oqs_read_der B fs (d2k_provctx (dk_ctx s)) cin inp)) (\<lambda>der.
       case der of
         None \<Rightarrow> retS True
       | Some der \<Rightarrow>
           bindS (liftS (decode_key d ?cx sel' der)) (\<lambda>out.
           case out of
             Goto_end key \<Rightarrow> retS False
           | Goto_next None \<Rightarrow> retS True
           | Goto_next (Some k) \<Rightarrow>
               (case deliver cb (keytype_name d) a of (ok, cell) \<Rightarrow>
                thenS (modS (\<lambda>s. s\<lparr>dk_keys := (dk_keys s)(a \<mapsto> k)\<rparr>))
                (thenS (on_keys (oqsx_key_free cell)) (retS ok))))) (asked_state sel s)"
    using assms(5) by (simp add: oqs_der2key_decode_def st_simps asked_state_def Let_def flip: assms(4))
  also have "\<dots> = (case opened B fs s cin inp of
       None \<Rightarrow> (Inr True, asked_state sel s)
     | Some der \<Rightarrow>
           bindS (liftS (decode_key d ?cx sel' der)) (\<lambda>out.
           case out of
             Goto_end key \<Rightarrow> retS False
           | Goto_next None \<Rightarrow> retS True
           | Goto_next (Some k) \<Rightarrow>
               (case deliver cb (keytype_name d) a of (ok, cell) \<Rightarrow>
                thenS (modS (\<lambda>s. s\<lparr>dk_keys := (dk_keys s)(a \<mapsto> k)\<rparr>))
                (thenS (on_keys (oqsx_key_free cell)) (retS ok)))) (asked_state sel s))"
    by (simp add: bindS_def oqs_read_der_balanced [where fs = fs, OF assms(2)] opened_def st_simps split: option.split)
  finally show ?thesis
    unfolding k by (simp add: d_def asked_state_def st_simps split: option.split sum.split prod.split)
qed

subsection \<open>Ownership of the decoded key\<close>

lemma free_single:
  assumes "h a = None" and "references k = 1" and "wf_key k"
  shows "oqsx_key_free (Some a) (h(a \<mapsto> k)) = Inr h"
proof -
  have "clears (privkey k) (privkeylen k)" "clears (pubkey k) (pubkeylen k)"
    using assms(3) by (auto simp: clears_def wf_key_def wf_buffers_def split: option.splits)
  moreover have "h(a := None) = h" using assms(1) by (rule fun_upd_idem)
  ultimately show ?thesis
    by (simp add: oqsx_key_free_def assms(2) wrap_int_small)
qed

lemma deliver_key:
  assumes "dk_keys s a = None" and "references k = 1" and "wf_key k"
  shows "(case deliver cb n a of (ok, cell) \<Rightarrow>
      thenS (modS (\<lambda>s. s\<lparr>dk_keys := (dk_keys s)(a \<mapsto> k)\<rparr>))
       (thenS (on_keys (oqsx_key_free cell)) (retS ok)) s) =
    (Inr (fst (cb n)), s\<lparr>dk_keys := if snd (cb n) then (dk_keys s)(a \<mapsto> k) else dk_keys s\<rparr>)"
proof (cases "cb n")
  case (Pair ok takes)
  have "oqsx_key_free None h = Inr h" for h :: "'a kheap"
    by (simp add: oqsx_key_free_def)
  then show ?thesis
    using free_single [where h = "dk_keys s", OF assms] Pair
    by (simp add: deliver_def oqsx_load_def st_simps thenS_def bindS_def on_keys_def)
qed

lemma new_from_nid_single:
  assumes "oqsx_key_new_from_nid L C ok tbl sn lc pq nid = Inr k"
  shows "references k = 1 \<and> sn nid = Some (tls_name k)"
  using assms by (auto simp: oqsx_key_new_from_nid_def bindR_eq_Inr dest!: oqsx_key_new_wf)

text \<open>
  The inputs whose PKCS#8 structure is for the algorithm \<open>t\<close> and holds a private key that overruns the public
  buffer of the key made of it.
\<close>

definition pkcs8_overruns ::
    "('c, 'e) asn1_lib \<Rightarrow> liboqs \<Rightarrow> 'p openssl \<Rightarrow> key_env \<Rightarrow> int \<Rightarrow> nat \<Rightarrow> bytes \<Rightarrow> bool" where
  "pkcs8_overruns A L E env t lc der \<longleftrightarrow> (case d2i_PKCS8_PRIV_KEY_INFO A der of
       None \<Rightarrow> False
     | Some p8 \<Rightarrow> (case (ak_alg p8, Option.bind (ak_bytes p8) (d2i_ASN1_OCTET_STRING E)) of
         (Some a, Some b) \<Rightarrow> alg_nid a = t \<and> t \<noteq> 0 \<and> params_undef a \<and>
           (case (oqsx_key_new_from_nid L (env_calls env) (env_ok env) (env_tbl env) (env_sn env) lc None t
               :: 'p oqsx_key res) of
              Inl e \<Rightarrow> False
            | Inr k \<Rightarrow> import_overruns E (env_ok env) k b)
       | _ \<Rightarrow> False))"

lemma imported_key:
  fixes E :: "'p openssl"
  assumes reg: "registered (env_tbl env) (env_sn env)" and eq: "oqsx_key_op L E env palg p op lc None = r"
  shows "r = Inl UB \<longleftrightarrow> op = KEY_OP_PRIVATE \<and>
      (\<exists>a b k. palg = Some a \<and> p = Some b \<and> params_undef a \<and> alg_nid a \<noteq> 0 \<and>
        oqsx_key_new_from_nid L (env_calls env) (env_ok env) (env_tbl env) (env_sn env) lc None (alg_nid a)
          = (Inr k :: 'p oqsx_key res) \<and> import_overruns E (env_ok env) k b)" (is ?ub)
    and "r = Inr k' \<Longrightarrow> wf_key k' \<and> references k' = 1 \<and> (\<exists>a. palg = Some a \<and>
        keytype k' = get_keytype (env_tbl env) (alg_nid a) \<and> env_sn env (alg_nid a) = Some (tls_name k'))"
proof -
  let ?new = "\<lambda>a. oqsx_key_new_from_nid L (env_calls env) (env_ok env) (env_tbl env) (env_sn env) lc None (alg_nid a)
    :: 'p oqsx_key res"
  have new: "(case ?new a of Inl e \<Rightarrow> e = UB | Inr k \<Rightarrow> op = KEY_OP_PRIVATE \<and> import_overruns E (env_ok env) k b) \<longleftrightarrow>
      op = KEY_OP_PRIVATE \<and> (\<exists>k. ?new a = Inr k \<and> import_overruns E (env_ok env) k b)" if "alg_nid a \<noteq> 0" for a b
    using registered_creation [OF reg that, of L "env_calls env" "env_ok env" lc None] by (cases "?new a") auto
  show ?ub
    unfolding eq [symmetric] oqsx_key_op_outcome(1) by (auto simp: new cong: conj_cong)
  show "wf_key k' \<and> references k' = 1 \<and> (\<exists>a. palg = Some a \<and>
        keytype k' = get_keytype (env_tbl env) (alg_nid a) \<and> env_sn env (alg_nid a) = Some (tls_name k'))"
    if "r = Inr k'"
  proof -
    from oqsx_key_op_outcome(2) [OF trans [OF eq that]] obtain a k where
      a: "palg = Some a" "?new a = Inr k" "hbc k k'" by blast
    from a(3) have "wf_key k'" "same_key k k'" by (simp_all add: hbc_def hb_def)
    with a(1) new_from_nid_wf [OF a(2)] new_from_nid_single [OF a(2)] same_key_fields(1,9,10) [of k k']
    show ?thesis by auto
  qed
qed

lemma desc_reads_result:
  assumes reg: "registered (env_tbl env) (env_sn env)"
  shows "desc_reads A L E env kind t sel lc der = Inl UB \<longleftrightarrow> kind = PrivateKeyInfo \<and> pkcs8_overruns A L E env t lc der"
    and "desc_reads A L E env kind t sel lc der = Inr k \<Longrightarrow> wf_key k \<and> references k = 1 \<and>
        (kind = PrivateKeyInfo \<longrightarrow> keytype k = get_keytype (env_tbl env) t \<and> env_sn env t = Some (tls_name k))"
proof -
  have "(desc_reads A L E env kind t sel lc der = Inl UB \<longleftrightarrow> kind = PrivateKeyInfo \<and> pkcs8_overruns A L E env t lc der) \<and>
    (desc_reads A L E env kind t sel lc der = Inr k \<longrightarrow> wf_key k \<and> references k = 1 \<and>
        (kind = PrivateKeyInfo \<longrightarrow> keytype k = get_keytype (env_tbl env) t \<and> env_sn env t = Some (tls_name k)))"
  proof (cases "kind = PrivateKeyInfo")
    case True
    show ?thesis
    proof (cases "\<exists>p8 alg. d2i_PKCS8_PRIV_KEY_INFO A der = Some p8 \<and> ak_alg p8 = Some alg \<and> alg_nid alg = t")
      case yes: True
      then obtain p8 alg where p: "d2i_PKCS8_PRIV_KEY_INFO A der = Some p8" "ak_alg p8 = Some alg" "alg_nid alg = t"
        by blast
      note imp = imported_key [OF reg refl, of L E "ak_alg p8" "Option.bind (ak_bytes p8) (d2i_ASN1_OCTET_STRING E)"
          KEY_OP_PRIVATE lc]
      have "desc_reads A L E env kind t sel lc der = oqsx_key_op L E env (ak_alg p8)
          (Option.bind (ak_bytes p8) (d2i_ASN1_OCTET_STRING E)) KEY_OP_PRIVATE lc None"
        using p True by (simp add: desc_reads_def oqsx_d2i_PKCS8_def oqs_der2key_decode_p8_def oqsx_key_from_pkcs8_def)
      with imp p show ?thesis
        by (auto simp: True pkcs8_overruns_def split: option.splits sum.splits)
    next
      case False
      then have "\<not> pkcs8_overruns A L E env t lc der"
        by (auto simp: pkcs8_overruns_def split: option.splits)
      with False True show ?thesis
        by (auto simp: desc_reads_def oqsx_d2i_PKCS8_def oqs_der2key_decode_p8_def bindR_def ensure_def of_option_def
            split: option.splits)
    qed
  next
    case False
    show ?thesis
    proof (cases "d2i_X509_PUBKEY_INTERNAL A der")
      case (Some x)
      from imported_key [OF reg refl, of L E "ak_alg x" "ak_bytes x" KEY_OP_PUBLIC 0] False Some show ?thesis
        by (auto simp: desc_reads_def oqsx_d2i_PUBKEY_def oqsx_key_from_x509pubkey_def)
    qed (use False in \<open>auto simp: desc_reads_def oqsx_d2i_PUBKEY_def oqsx_key_from_x509pubkey_def\<close>)
  qed
  then show "desc_reads A L E env kind t sel lc der = Inl UB \<longleftrightarrow> kind = PrivateKeyInfo \<and> pkcs8_overruns A L E env t lc der"
    and "desc_reads A L E env kind t sel lc der = Inr k \<Longrightarrow> wf_key k \<and> references k = 1 \<and>
        (kind = PrivateKeyInfo \<longrightarrow> keytype k = get_keytype (env_tbl env) t \<and> env_sn env t = Some (tls_name k))"
    by blast+
qed

lemma adjust_fields [simp]:
  "references (oqsx_key_adjust lc k) = references k" "keytype (oqsx_key_adjust lc k) = keytype k"
  "tls_name (oqsx_key_adjust lc k) = tls_name k" "libctx (oqsx_key_adjust lc k) = lc"
  "wf_key (oqsx_key_adjust lc k) = wf_key k"
  by (simp_all add: oqsx_key_adjust_def oqsx_key_set0_libctx_def wf_key_def wf_shape_def wf_buffers_def
      classic_info_ok_def)

lemma asked_state_fields [simp]:
  "dk_keys (asked_state sel s) = dk_keys s" "dk_refs (asked_state sel s) = dk_refs s"
  "d2k_provctx (dk_ctx (asked_state sel s)) = d2k_provctx (dk_ctx s)"
  by (simp_all add: asked_state_def)

text \<open>
  C11: A decoder keeps the count of the key references, on every outcome: the core's object gets back the
  reference that was taken, and the key the decoder makes is at most one, whose only reference the caller
  that takes it holds; a key that is not taken is freed, so the keys are as before. A private key is
  handed over only by the decoder of its own algorithm. No function that is absent is called. For a
  provider that registered its algorithms with OpenSSL, the behaviour is undefined in exactly one
  case: a private key decoder is given a structure of its own algorithm with a classical private key
  whose public encoding is too long for the public buffer.
\<close>

theorem decoder_ownership:
  assumes "fs BIO_FREE \<noteq> None" and "\<not> flag_fatal (dk_ctx s)"
    and "counted_keys (dk_keys s) H" and "dk_keys s a = None"
    and "registered (env_tbl env) (env_sn env)"
    and "oqs_der2key_decode B fs cin inp sel cb (typed_desc A L E env h n kind t) a s = (r, s')"
  shows "(r = Inl UB \<longleftrightarrow> kind = PrivateKeyInfo \<and> (sel = 0 \<or> selects sel SELECT_PRIVATE_KEY) \<and>
      (case opened B fs s cin inp of None \<Rightarrow> False
       | Some der \<Rightarrow> pkcs8_overruns A L E env t (pc_libctx (d2k_provctx (dk_ctx s))) der)) \<and>
    dk_refs s' = dk_refs s \<and>
    (dk_keys s' = dk_keys s \<or>
      (\<exists>k. snd (cb n) \<and> r = Inr (fst (cb n)) \<and> dk_keys s' = (dk_keys s)(a \<mapsto> k) \<and>
        counted_keys (dk_keys s') (add_mset a H) \<and> libctx k = pc_libctx (d2k_provctx (dk_ctx s)) \<and>
        (kind = PrivateKeyInfo \<longrightarrow>
          keytype k = get_keytype (env_tbl env) t \<and> env_sn env t = Some (tls_name k))))"
proof -
  let ?d = "typed_desc A L E env h n kind t" and ?lc = "pc_libctx (d2k_provctx (dk_ctx s))"
  let ?sel = "if sel = 0 then selection_mask ?d else sel"
  have mask: "kind = PrivateKeyInfo \<Longrightarrow> (sel = 0 \<or> selects sel SELECT_PRIVATE_KEY) = selects ?sel (selection_mask ?d)"
    by simp
  note reads = desc_reads_result [OF assms(5), where A = A and L = L and E = E and kind = kind and t = t and sel = ?sel]
  show ?thesis
  proof (cases "selects ?sel (selection_mask ?d)")
    case False
    then have "oqs_der2key_decode B fs cin inp sel cb ?d a s = (Inl (Raise PASSED_INVALID_ARGUMENT), asked_state sel s)"
      by (simp add: oqs_der2key_decode_def st_simps asked_state_def Let_def del: typed_desc_fields)
    with assms(6) False mask show ?thesis by auto
  next
    case True
    note eq = decode_typed [where fs = fs, OF refl assms(1,2) refl True, of B cin inp cb a]
    show ?thesis
    proof (cases "\<exists>der k. opened B fs s cin inp = Some der \<and> desc_reads A L E env kind t ?sel ?lc der = Inr k")
      case False
      show ?thesis
      proof (cases "opened B fs s cin inp")
        case None
        with assms(6) show ?thesis unfolding eq by auto
      next
        case (Some der)
        with False obtain e where e: "desc_reads A L E env kind t ?sel ?lc der = Inl e"
          by (cases "desc_reads A L E env kind t ?sel ?lc der") auto
        with reads(1) [of ?lc der] have "e = UB \<longleftrightarrow> kind = PrivateKeyInfo \<and> pkcs8_overruns A L E env t ?lc der"
          by simp
        moreover have "(r, s') = (if e = UB then Inl UB else Inr True, asked_state sel s)"
          using assms(6) Some e unfolding eq by (cases e) auto
        ultimately show ?thesis using Some True mask by auto
      qed
    next
      case True
      then obtain der k where k: "opened B fs s cin inp = Some der" "desc_reads A L E env kind t ?sel ?lc der = Inr k"
        by blast
      let ?k = "oqsx_key_adjust ?lc k"
      from reads(2) [OF k(2)]
      have ok: "wf_key k" "references k = 1" "kind = PrivateKeyInfo \<longrightarrow> keytype k = get_keytype (env_tbl env) t \<and>
          env_sn env t = Some (tls_name k)"
        by simp_all
      from reads(1) [of ?lc der] k(2) have safe: "\<not> (kind = PrivateKeyInfo \<and> pkcs8_overruns A L E env t ?lc der)"
        by simp
      have "oqs_der2key_decode B fs cin inp sel cb ?d a s = (Inr (fst (cb n)), (asked_state sel s)\<lparr>dk_keys :=
          if snd (cb n) then (dk_keys s)(a \<mapsto> ?k) else dk_keys s\<rparr>)"
        unfolding eq k(1) using k(2) deliver_key [of "asked_state sel s" a ?k cb n] assms(4) ok(1,2) by simp
      moreover have "counted_keys ((dk_keys s)(a \<mapsto> ?k)) (add_mset a H)"
      proof -
        have "count H a = 0"
          using counted_keysD [OF assms(3), of a] assms(4) by (metis not_in_iff option.distinct(1))
        with ok(1,2) show ?thesis by (intro counted_keys_upd [OF assms(3)]) simp_all
      qed
      ultimately show ?thesis using assms(6) ok(3) safe k(1) by auto
    qed
  qed
qed

subsection \<open>From an encoder to a decoder\<close>

text \<open>OpenSSL parses what it has written.\<close>

definition structures_parse :: "('c, 'e) asn1_lib \<Rightarrow> bool" where
  "structures_parse A \<longleftrightarrow>
     (\<forall>p w. i2d_PKCS8_PRIV_KEY_INFO_bio A p = Some w \<longrightarrow> d2i_PKCS8_PRIV_KEY_INFO A w = Some p) \<and>
     (\<forall>p w. i2d_X509_PUBKEY_bio A p = Some w \<longrightarrow> d2i_X509_PUBKEY_INTERNAL A w = Some p)"

lemma adjust_twin [simp]:
  "twin k (oqsx_key_adjust lc k') = twin k k'" "pubkey (oqsx_key_adjust lc k') = pubkey k'"
  "privkey (oqsx_key_adjust lc k') = privkey k'" "comp_pubkey (oqsx_key_adjust lc k') = comp_pubkey k'"
  "comp_privkey (oqsx_key_adjust lc k') = comp_privkey k'" "classical_pkey (oqsx_key_adjust lc k') = classical_pkey k'"
  by (simp_all add: twin_def oqsx_key_adjust_def oqsx_key_set0_libctx_def)

text \<open>A key read back from what a well-formed key was written as can be delivered.\<close>

lemma read_back_ok:
  assumes "wf_key k0" and "same_key k0 k'" and "twin k k'" and "wf_key k" and "comp_pubkey k' = comp_pubkey k"
    and "length (comp_privkey k') = length (comp_privkey k)"
    and "\<And>b. pubkey k' = Some b \<Longrightarrow> length b = pubkeylen k" and "\<And>b. privkey k' = Some b \<Longrightarrow> privkeylen k \<le> length b"
  shows "wf_key k'"
proof -
  note f = same_key_fields [OF assms(2)]
  have t: "twin k k0" using assms(3) f by (simp add: twin_def)
  note e = twin_wf [OF t assms(4,1)]
  have "length (comp_privkey k') = numkeys k0" "length (comp_pubkey k') = numkeys k0"
    using assms(4-6) e(1) by (simp_all add: wf_key_def wf_shape_def)
  with wf_shape_same [OF assms(2)] assms(1) have "wf_shape k'" by (simp add: wf_key_def)
  moreover have "wf_buffers k'" using assms(7,8) e(2,3) f by (simp add: wf_buffers_def)
  ultimately show ?thesis by (simp add: wf_key_def)
qed

lemma decode_delivers:
  assumes "fs BIO_FREE \<noteq> None" and "\<not> flag_fatal (dk_ctx s)" and "dk_keys s a = None"
    and "opened B fs s cin inp = Some w"
    and "sel' = (if sel = 0 then selection_mask d else sel)" and "selects sel' (selection_mask d)"
    and "d = typed_desc A L E env h n kind t"
    and "desc_reads A L E env kind t sel' (pc_libctx (d2k_provctx (dk_ctx s))) w = Inr k"
    and "wf_key k" and "references k = 1"
  shows "oqs_der2key_decode B fs cin inp sel cb d a s = (Inr (fst (cb n)), (asked_state sel s)\<lparr>dk_keys :=
      if snd (cb n) then (dk_keys s)(a \<mapsto> oqsx_key_adjust (pc_libctx (d2k_provctx (dk_ctx s))) k) else dk_keys s\<rparr>)"
  unfolding decode_typed [where fs = fs, OF assms(7,1,2,5,6)] assms(4)
  using deliver_key [of "asked_state sel s" a "oqsx_key_adjust (pc_libctx (d2k_provctx (dk_ctx s))) k" cb n] assms(3,8-10)
  by simp

text \<open>
  C9: A private key survives the provider's encoder and decoder: what the PrivateKeyInfo DER encoder
  writes for a full key without a cipher, the decoder of the algorithm reads, with the selection of
  a private key or none, into a key of the same algorithm with the same public bytes, components
  and classical key object and the same private bytes up to the length they use. The caller gets it
  if it takes it, in the library context of the decoder's provider context.
\<close>

theorem private_encode_decode:
  assumes "encoder_encode A E B fs True name PrivateKeyInfo DER cx cout (Some k) False sel cb0 refs
      = (Inr (Inr w, cx'), refs')" and "\<not> cipher_intent cx"
    and "fs BIO_FREE \<noteq> None" and "\<not> flag_fatal (dk_ctx s)" and "dk_keys s a = None"
    and "structures_parse A" and "octet_string_codec E"
    and "full_key E k b sb" and "twin k k0" and "env_ok env A_PUBKEY" and "env_ok env A_PRIVKEY"
    and "oqsx_key_new_from_nid L (env_calls env) (env_ok env) (env_tbl env) (env_sn env)
      (pc_libctx (d2k_provctx (dk_ctx s))) None (OBJ_sn2nid A name) = Inr k0"
    and "opened B fs s cin (Some w) = Some w" and "selr = 0 \<or> selects selr SELECT_PRIVATE_KEY"
  shows "\<exists>k'. oqs_der2key_decode B fs cin (Some w) selr cb
        (typed_desc A L E env h n PrivateKeyInfo (OBJ_sn2nid A name)) a s =
      (Inr (fst (cb n)), (asked_state selr s)\<lparr>dk_keys := if snd (cb n) then (dk_keys s)(a \<mapsto> k') else dk_keys s\<rparr>) \<and>
    twin k k' \<and> libctx k' = pc_libctx (d2k_provctx (dk_ctx s)) \<and> pubkey k' = pubkey k \<and>
    comp_pubkey k' = comp_pubkey k \<and> comp_privkey k' = comp_privkey k \<and> classical_pkey k' = classical_pkey k \<and>
    privkey k' = Some (take (used_priv k sb) sb @ replicate (privkeylen k + 4 - used_priv k sb) 0)"
proof -
  let ?nid = "OBJ_sn2nid A name" and ?lc = "pc_libctx (d2k_provctx (dk_ctx s))"
  from encode_writes [where fs = fs, OF assms(3,1), of w] assms(2)
  obtain d where d: "oqsx_pki_priv_to_der E True (Some k) = Inr d" "i2d_PKCS8_PRIV_KEY_INFO_bio A (pkcs8_of ?nid d) = Some w"
    by (auto simp: may_write_def put_plain_def)
  have nid: "?nid \<noteq> 0" using encode_nid [where fs = fs, OF assms(3,1)] by simp
  from private_reload [OF assms(8,7,12,9) nid assms(10,11)] d(1)
  obtain k' where k': "oqsx_key_from_pkcs8 L E env (Some (pkcs8_of ?nid d)) ?lc None = Inr k'" "twin k k'"
      "pubkey k' = Some b" "privkey k' = Some (reload_priv k (take (used_priv k sb) sb))"
      "comp_pubkey k' = comp_pubkey k" "comp_privkey k' = comp_privkey k" "classical_pkey k' = classical_pkey k"
      "same_key k0 k'"
    by auto
  have wf: "wf_key k" "pubkey k = Some b" "privkey k = Some sb" using assms(8) by (simp_all add: full_key_def)
  have "wf_key k'"
    by (rule read_back_ok [OF _ k'(8,2) wf(1) k'(5)])
      (use new_from_nid_wf [OF assms(12)] k'(3,4,6) wf in \<open>auto simp: wf_key_def wf_buffers_def reload_priv_def\<close>)
  moreover have "references k' = 1"
    using new_from_nid_single [OF assms(12)] same_key_fields(10) [OF k'(8)] by simp
  moreover have "desc_reads A L E env PrivateKeyInfo ?nid u ?lc w = Inr k'" for u
    using assms(6) d(2) k'(1)
    by (simp add: desc_reads_def oqsx_d2i_PKCS8_def oqs_der2key_decode_p8_def structures_parse_def) 
      (simp add: pkcs8_of_def)
  ultimately have "oqs_der2key_decode B fs cin (Some w) selr cb (typed_desc A L E env h n PrivateKeyInfo ?nid) a s =
      (Inr (fst (cb n)), (asked_state selr s)\<lparr>dk_keys :=
        if snd (cb n) then (dk_keys s)(a \<mapsto> oqsx_key_adjust ?lc k') else dk_keys s\<rparr>)"
    using assms(14) by (intro decode_delivers [where fs = fs, OF assms(3-5,13) refl _ refl]) auto
  moreover have "used_priv k sb \<le> length sb" using used_priv_le [of k sb] wf by (auto simp: wf_key_def wf_buffers_def)
  ultimately show ?thesis
    using k' wf by (intro exI [of _ "oqsx_key_adjust ?lc k'"]) (simp add: reload_priv_def min_absorb2)
qed

text \<open>
  C10: A public key survives the provider's encoder and decoder, and the decoder that reads it need not be
  its own: what the SubjectPublicKeyInfo DER encoder writes for a key is read by the decoder of
  every algorithm \<open>n\<close>, whatever the type in its description, as the key it was. The identifier in the
  structure selects the algorithm and is compared with nothing, so the key is offered to the
  caller under the name \<open>n\<close>. A selection that includes the private part makes the decoder read
  nothing.
\<close>

theorem public_encode_decode:
  assumes "encoder_encode A E B fs True name SubjectPublicKeyInfo DER cx cout (Some k) False sel cb0 refs
      = (Inr (Inr w, cx'), refs')"
    and "fs BIO_FREE \<noteq> None" and "\<not> flag_fatal (dk_ctx s)" and "dk_keys s a = None"
    and "structures_parse A" and "wf_key k" and "comps_current k" and "pubkey k = Some b" and "twin k k0"
    and "env_ok env A_PUBKEY" and "oqsx_key_recreate_classickey E KEY_OP_PUBLIC k = (Inr (), r)"
    and "oqsx_key_new_from_nid L (env_calls env) (env_ok env) (env_tbl env) (env_sn env) 0 None
      (OBJ_sn2nid A name) = Inr k0"
    and "opened B fs s cin (Some w) = Some w"
    and "d = typed_desc A L E env h n SubjectPublicKeyInfo t"
  shows "(selr = 0 \<or> selects selr SELECT_PUBLIC_KEY \<and> \<not> selects selr SELECT_PRIVATE_KEY \<longrightarrow>
     (\<exists>k'. oqs_der2key_decode B fs cin (Some w) selr cb d a s =
        (Inr (fst (cb n)), (asked_state selr s)\<lparr>dk_keys := if snd (cb n) then (dk_keys s)(a \<mapsto> k') else dk_keys s\<rparr>) \<and>
      twin k k' \<and> env_sn env (OBJ_sn2nid A name) = Some (tls_name k') \<and>
      libctx k' = pc_libctx (d2k_provctx (dk_ctx s)) \<and> pubkey k' = pubkey k \<and> comp_pubkey k' = comp_pubkey k \<and>
      privkey k' = None \<and> classical_pkey k' = (if is_hybrid (keytype k) then classical_pkey r else None))) \<and>
    (selects selr SELECT_PUBLIC_KEY \<and> selects selr SELECT_PRIVATE_KEY \<longrightarrow>
      oqs_der2key_decode B fs cin (Some w) selr cb d a s = (Inr True, asked_state selr s))"
proof -
  let ?nid = "OBJ_sn2nid A name" and ?lc = "pc_libctx (d2k_provctx (dk_ctx s))"
  from encode_writes [where fs = fs, OF assms(2,1), of w]
  obtain e where e: "oqsx_spki_pub_to_der True (Some k) = Inr e" "i2d_X509_PUBKEY_bio A (spki_of ?nid e) = Some w"
    by (auto simp: may_write_def put_public_def)
  have nid: "?nid \<noteq> 0" using encode_nid [where fs = fs, OF assms(2,1)] by simp
  from public_reload [OF assms(6-8,12,9) nid assms(10,11)] e(1)
  obtain k' where k': "oqsx_key_from_x509pubkey L E env (Some (spki_of ?nid e)) 0 None = Inr k'" "twin k k'"
      "pubkey k' = Some b" "comp_pubkey k' = comp_pubkey k" "privkey k' = None"
      "classical_pkey k' = (if is_hybrid (keytype k) then classical_pkey r else None)" "same_key k0 k'"
      "length (comp_privkey k') = length (comp_privkey k0)"
    by auto
  from new_from_nid_wf [OF assms(12)] have k0: "wf_key k0" by simp
  have "wf_key k'"
    by (rule read_back_ok [OF k0 k'(7,2) assms(6) k'(4)])
      (use k'(3,5,8) assms(6,8) twin_wf [OF assms(9,6) k0] in \<open>auto simp: wf_key_def wf_buffers_def\<close>)
  moreover have "references k' = 1" "env_sn env ?nid = Some (tls_name k')"
    using new_from_nid_single [OF assms(12)] same_key_fields(9,10) [OF k'(7)] by simp_all
  moreover have reads: "desc_reads A L E env SubjectPublicKeyInfo t u lc w =
      (if selects u SELECT_PRIVATE_KEY then Inl Quiet else Inr k')" for u lc
    using assms(5) e(2) k'(1) by (simp add: desc_reads_def oqsx_d2i_PUBKEY_def structures_parse_def)
  ultimately have "oqs_der2key_decode B fs cin (Some w) selr cb d a s =
      (Inr (fst (cb n)), (asked_state selr s)\<lparr>dk_keys :=
        if snd (cb n) then (dk_keys s)(a \<mapsto> oqsx_key_adjust ?lc k') else dk_keys s\<rparr>)"
    if "selr = 0 \<or> selects selr SELECT_PUBLIC_KEY \<and> \<not> selects selr SELECT_PRIVATE_KEY"
    using that by (intro decode_delivers [where fs = fs, OF assms(2-4,13) refl _ assms(14)]) (auto simp: assms(14))
  moreover have "oqs_der2key_decode B fs cin (Some w) selr cb d a s = (Inr True, asked_state selr s)"
    if "selects selr SELECT_PUBLIC_KEY \<and> selects selr SELECT_PRIVATE_KEY"
  proof -
    have "selr \<noteq> 0" using that by (auto simp: selects_def)
    with that show ?thesis
      by (subst decode_typed [where fs = fs, OF assms(14,2,3) refl]) (simp_all add: assms(13,14) reads)
  qed
  ultimately show ?thesis
    using k' assms(8) \<open>env_sn env ?nid = Some (tls_name k')\<close>
    by (auto intro!: exI [of _ "oqsx_key_adjust ?lc k'"])
qed

subsection \<open>Witnesses\<close>

definition sample_dec_state :: "sample_pkey dec_state" where
  "sample_dec_state = \<lparr>dk_keys = (\<lambda>_. None), dk_refs = (\<lambda>_. 0),
     dk_ctx = \<lparr>d2k_provctx = sample_provctx, d2k_selection = 0, flag_fatal = False\<rparr>\<rparr>"

lemma sample_dec_fields [simp]:
  "dk_keys sample_dec_state = (\<lambda>_. None)" "d2k_provctx (dk_ctx sample_dec_state) = sample_provctx"
  "\<not> flag_fatal (dk_ctx sample_dec_state)" "pc_libctx sample_provctx = 0"
  "opened sample_bio (\<lambda>_. Some 0) sample_dec_state cin inp = inp"
  "OBJ_sn2nid (sample_asn1 name) name = 1200"
  by (simp_all add: sample_dec_state_def sample_provctx_def opened_def sample_bio_def sample_asn1_def)

lemma sample_parses: "structures_parse (sample_asn1 name)"
proof -
  have "sample_parse pkcs8_of w = Some p \<and> sample_parse spki_of w = Some p" if "sample_struct p = Some w" for p w
  proof -
    from that obtain d where "ak_alg p = Some \<lparr>params_undef = True, alg_nid = 1200\<rparr>" "ak_bytes p = Some d" "w = 1 # d"
      by (auto simp: sample_struct_def split: if_splits)
    then show ?thesis
      by (simp add: sample_parse_def pkcs8_of_def spki_of_def)
  qed
  then show ?thesis by (simp add: structures_parse_def sample_asn1_def)
qed

text \<open>The NID table with one algorithm registered.\<close>

definition sample_reg_env :: key_env where
  "sample_reg_env = (sample_env ''p256_mldsa44'')\<lparr>env_tbl := table_of False [(''p256_mldsa44'', 1200)]\<rparr>"

lemma sample_registered: "registered (env_tbl sample_reg_env) (env_sn sample_reg_env)"
  unfolding registered_def
  by (intro exI [of _ False] exI [of _ "[(''p256_mldsa44'', 1200)]"]) (simp add: sample_reg_env_def sample_env_def)

lemma sample_pkcs8_overruns:
  "pkcs8_overruns (sample_asn1 ''p256_mldsa44'') sample_liboqs sample_openssl sample_reg_env 1200 0
     (1 # 4 # sample_private_bytes 200)"
  "\<not> pkcs8_overruns (sample_asn1 ''p256_mldsa44'') sample_liboqs sample_openssl sample_reg_env 1200 0
     (1 # 4 # sample_private_bytes 65)"
  by code_simp+

lemma decoder_ownership_witness:
  "fst (oqs_der2key_decode sample_bio (\<lambda>_. Some 0) 5 (Some (1 # 4 # sample_private_bytes 200)) 0 (\<lambda>_. (True, True))
     (typed_desc (sample_asn1 ''p256_mldsa44'') sample_liboqs sample_openssl sample_reg_env
       [] ''p256_mldsa44'' PrivateKeyInfo 1200) 7 sample_dec_state) = Inl UB \<and>
   fst (oqs_der2key_decode sample_bio (\<lambda>_. Some 0) 5 (Some (1 # 4 # sample_private_bytes 65)) 0 (\<lambda>_. (True, True))
     (typed_desc (sample_asn1 ''p256_mldsa44'') sample_liboqs sample_openssl sample_reg_env
       [] ''p256_mldsa44'' PrivateKeyInfo 1200) 7 sample_dec_state) \<noteq> Inl UB"
proof -
  have c: "counted_keys (dk_keys sample_dec_state) {#}" by (simp add: counted_keys_def)
  have "fst (oqs_der2key_decode sample_bio (\<lambda>_. Some 0) 5 (Some w) 0 (\<lambda>_. (True, True))
     (typed_desc (sample_asn1 ''p256_mldsa44'') sample_liboqs sample_openssl sample_reg_env
       [] ''p256_mldsa44'' PrivateKeyInfo 1200) 7 sample_dec_state) = Inl UB \<longleftrightarrow>
     pkcs8_overruns (sample_asn1 ''p256_mldsa44'') sample_liboqs sample_openssl sample_reg_env 1200 0 w" for w
    by (subst decoder_ownership [where fs = "\<lambda>_. Some 0", OF _ _ c _ sample_registered prod.collapse [symmetric], THEN conjunct1])
      simp_all
  with sample_pkcs8_overruns show ?thesis by blast
qed

lemma private_encode_decode_witness:
  "\<exists>k'. oqs_der2key_decode sample_bio (\<lambda>_. Some 0) 5 (Some sample_pkcs8) 0 (\<lambda>_. (True, True))
     (typed_desc (sample_asn1 ''p256_mldsa44'') sample_liboqs sample_openssl (sample_env ''p256_mldsa44'')
       [] ''p256_mldsa44'' PrivateKeyInfo 1200) 7 sample_dec_state =
     (Inr True, (asked_state 0 sample_dec_state)\<lparr>dk_keys := [7 \<mapsto> k']\<rparr>) \<and> pubkey k' = pubkey mldsa_full"
proof -
  have p: "k2a_provctx sample_plain = sample_provctx" "\<not> cipher_intent sample_plain"
    by (simp_all add: sample_plain_def)
  note e = sample_encode [OF sample_writes(1) p(1)]
  show ?thesis
    using private_encode_decode [OF e p(2) _ _ _ sample_parses sample_octet sample_full_keys(1) sample_full_twins(1),
        where L = sample_liboqs and env = "sample_env ''p256_mldsa44''" and s = sample_dec_state
          and cin = 5 and a = 7 and selr = 0 and cb = "\<lambda>_. (True, True)" and h = "[]" and n = "''p256_mldsa44''"]
      sample_new(1)
    by auto
qed

lemma public_encode_decode_witness:
  "\<exists>k'. oqs_der2key_decode sample_bio (\<lambda>_. Some 0) 5 (Some sample_spki) 0 (\<lambda>_. (True, True))
     (typed_desc (sample_asn1 ''p256_mldsa44'') sample_liboqs sample_openssl (sample_env ''p256_mldsa44'')
       [] ''mlkem512'' SubjectPublicKeyInfo 0) 7 sample_dec_state =
     (Inr True, (asked_state 0 sample_dec_state)\<lparr>dk_keys := [7 \<mapsto> k']\<rparr>) \<and> tls_name k' = ''p256_mldsa44''"
proof -
  have p: "k2a_provctx sample_plain = sample_provctx" by (simp add: sample_plain_def)
  note e = sample_encode [OF sample_writes(2) p]
  have "env_sn (sample_env ''p256_mldsa44'') 1200 = Some ''p256_mldsa44''"
    by (simp add: sample_env_def)
  then show ?thesis
    using public_encode_decode [OF e _ _ _ sample_parses sample_full_wf(1) sample_full_current(1)
        sample_full_fields(3) sample_full_twins(1) _ sample_recreate(3) _ _ refl,
        where L = sample_liboqs and env = "sample_env ''p256_mldsa44''" and s = sample_dec_state
          and cin = 5 and a = 7 and selr = 0 and cb = "\<lambda>_. (True, True)" and h = "[]" and n = "''mlkem512''" and t = 0]
      sample_new(1)
    by auto
qed

end
