(* ===== verification/Spec2Isabelle.thy ===== *)
theory Spec2Isabelle
  imports Registration Keymgmt_Correct Sig_Context Provider_Init Coder_Tables Decoder_Correct
begin

text \<open>
  PKI-PQC: the OpenSSL provider for post-quantum algorithms

  The repository is a laboratory for TLS with post-quantum keys around a copy of oqs-provider, the
  OpenSSL 3 provider that offers the algorithms of liboqs, alone and combined with a classical
  algorithm ("hybrid"). This development models the provider, \<^verbatim>\<open>src/oqs-provider/oqsprov/\<close>, which holds the
  logic; the other C file, \<^verbatim>\<open>src/bench/tls_bench_client.c\<close>, measures handshakes over the network.

  \<^bold>\<open>The program and its theories.\<close> OpenSSL's core loads the provider and asks it for tables of functions.
  \<^item> \<open>Provider\<close>, \<open>Provider_Correct\<close>, \<open>Provider_Init\<close> (\<^verbatim>\<open>oqsprov.c\<close>): \<open>OSSL_provider_init\<close> reads the core's
    dispatch table, lets environment variables override object identifiers, registers every
    algorithm, stores its NID in the table of \<open>Nid_Table\<close> and disables the algorithms the core refuses;
    \<open>oqsprovider_query\<close> hands out the tables, filtered; \<open>oqsprovider_teardown\<close> undoes the rest. The state is
    the record \<open>prov_state\<close>, the static variables of the file.
  \<^item> \<open>Capabilities\<close> (\<^verbatim>\<open>oqsprov_capabilities.c\<close>): the TLS groups and signature algorithms and their code
    points. \<open>Core_Bio\<close> (\<^verbatim>\<open>oqsprov_bio.c\<close>, the context of \<^verbatim>\<open>oqsprov_keys.c\<close>): the bridge to the core's I/O
    objects, whose references are counted.
  \<^item> \<open>Evp_Info\<close>, \<open>Nid_Table\<close>, \<open>Oqsx_Key\<close>, \<open>Key_Gen\<close>, \<open>Key_Codec\<close> (\<^verbatim>\<open>oqsprov_keys.c\<close>, \<^verbatim>\<open>oqs_prov.h\<close>): the tables
    of classical and of provider algorithms, the key object \<^verbatim>\<open>OQSX_KEY\<close> (record \<open>oqsx_key\<close>; its pointers
    into its own buffers are offsets), its generation, and its conversion from and to bytes.
    \<open>Registration\<close> shows that no registration makes the creation of a key leave the tables.
    \<open>Key_Heap\<close> adds the addresses and the reference counts of keys.
  \<^item> \<open>Keymgmt\<close>, \<open>Keymgmt_Correct\<close> (\<^verbatim>\<open>oqs_kmgmt.c\<close>): has, match, import, export, parameters, generation
    contexts, and the constructors of all algorithms.
  \<^item> \<open>Kem\<close> (\<^verbatim>\<open>oqs_kem.c\<close>, \<^verbatim>\<open>oqs_hyb_kem.c\<close>): encapsulation and decapsulation. \<open>Sig\<close>, \<open>Sig_Correct\<close>,
    \<open>Sig_Context\<close> (\<^verbatim>\<open>oqs_sig.c\<close>): signatures, the collection of message pieces, and the contexts with the
    blocks they own.
  \<^item> \<open>Encoder\<close>, \<open>Text_Encoder\<close> (\<^verbatim>\<open>oqs_encode_key2any.c\<close>, \<^verbatim>\<open>oqs_endecoder_common.c\<close>), \<open>Decoder\<close>,
    \<open>Decoder_Correct\<close> (\<^verbatim>\<open>oqs_decode_der2key.c\<close>), \<open>Coder_Tables\<close> (their macro instances): keys to PKCS#8,
    encrypted PKCS#8, SubjectPublicKeyInfo and text, and back.
  \<^item> \<open>Prelude\<close> holds what all share: outcomes, the state functions, buffers, C strings, the 32-bit
    length header. \<open>Sample_Providers\<close> has a small liboqs and OpenSSL for the witnesses.
  Functions and fields carry the names of the code. A function that a macro generates for each
  algorithm is one definition with the macro's arguments.

  \<^bold>\<open>Conventions.\<close> A call is a function on a state that returns \<open>Inr\<close> a result or \<open>Inl\<close> a failure: \<open>Raise\<close> with
  the reason given to \<^verbatim>\<open>ERR_raise\<close>, \<open>Quiet\<close> when nothing is raised, or \<open>UB\<close> when the C program has undefined
  behaviour (an access outside a buffer, through NULL, an indeterminate or a freed pointer, an
  assertion that fails). A statement that a call is not \<open>Inl UB\<close> is memory safety. Lengths are natural
  numbers where the code's widths cannot matter and words where it subtracts or truncates
  (\<open>stored_privkeylen\<close>, \<open>text_part\<close>, the signature lengths, reference counts). Every loop is over a list
  or an index range, so all definitions are total and no fuel is needed.

  \<^bold>\<open>What is assumed.\<close> liboqs and OpenSSL are parameters: records of functions (\<open>liboqs\<close>, \<open>openssl\<close>, \<open>asn1_lib\<close>,
  \<open>evp_calls\<close>, \<open>param_calls\<close>, \<open>bio_calls\<close>, \<open>core_env\<close>), any of which may fail at any call, and the outcomes of the
  allocator. What a property needs of them is a premise of its own: that generated keys have the
  advertised lengths (\<open>keypair_lengths\<close>), that decapsulation inverts encapsulation and key agreement
  commutes, that a signature verifies, that a parser reads what its writer wrote
  (\<open>octet_string_codec\<close>, \<open>structures_parse\<close>), that OpenSSL names a registered NID as the provider registered
  it (\<open>registered\<close>). Nothing bounds what OpenSSL's parsers accept: where the code relies on such a bound
  without a check, the properties state the inputs that break it (\<open>overruns\<close>). An allocation of no
  bytes yields NULL, as \<^verbatim>\<open>OPENSSL_malloc\<close> does.

  \<^bold>\<open>What is shown.\<close> For keys: creation and generation are safe on every failure path and keep \<open>wf_key\<close>; a
  registered NID creates the algorithm of its table entry; the component pointers of a generated
  key delimit the generated material; import is safe but for exactly described inputs; decoding restores
  the public bytes and the used private bytes of an encoding, in one step and through whole encoders
  and decoders, with the exact exceptions. For
  the algorithms: hybrid decapsulation returns the secret of encapsulation and is safe on every
  ciphertext; verification accepts exactly when both parts do; pieces of a message are as good
  as the whole when the first is not empty. For lifetimes: reference counts equal the number of holders over every sequence
  of operations (\<open>kstep\<close>, \<open>kreach\<close>), also for the key that a decoder hands over. For the provider:
  initialisation registers every accepted algorithm and balances its allocations, queries and
  capabilities list exactly what is enabled, and the tables of the files agree with each other.
  The interfaces between parts are locales, interpreted on the code's functions: \<open>header_codec\<close>
  (length headers), \<open>evp_init\<close> (the four initialisers of a classical part), \<open>nid_lookup\<close> (the searches
  of the NID table), \<open>kem_slot\<close> and \<open>kem_pair\<close> (a KEM, and two of them combined), \<open>counted_store\<close> (reference
  counted objects, whose clients are the KEM and signature contexts).
  The properties of kind error and bounds state where the code goes wrong: reads and writes past
  a buffer, dangling and doubly freed pointers, results that claim success, lost or exchanged key
  parts, versions compared as strings.

  \<^bold>\<open>Not modelled.\<close> Debug printing; builds with \<^verbatim>\<open>NOPUBKEY_IN_PRIVKEY\<close> or a liboqs before 0.12; concurrency (the
  reference count is the only shared datum); the lifetime of OpenSSL's own objects, so the functions that
  only free one (\<^verbatim>\<open>key2any_freectx\<close>, \<^verbatim>\<open>der2key_freectx\<close>) are left out; the bytes that pass through a core I/O
  object; the ASN.1 templates and parsers, which are OpenSSL's; the dispatch tables, lists of the
  functions above; \<^verbatim>\<open>oqsencoders.inc\<close> and \<^verbatim>\<open>oqsdecoders.inc\<close>, generated lists of names; the tests, examples and
  templates of the provider, and the benchmark client and scripts, which only call OpenSSL.
\<close>

section \<open>Properties that span components\<close>

subsection \<open>From the NID table to a key\<close>

text \<open>
  C6: Every entry of the NID table is consistent with the size tables: a hybrid entry's name and
  security level select a classical table entry, and it is the one the name announces (the same
  curve and key type); a plain entry selects none. No two entries share a name.
\<close>

theorem nid_table_consistent:
  "list_all entry_consistent (nid_names kem_encoders) \<and> distinct (map tlsname (nid_names kem_encoders))"
  using entry_consistent_nid_names distinct_tlsnames by blast

lemma named_distinct:
  "e \<in> set tbl \<Longrightarrow> distinct (map tlsname tbl) \<Longrightarrow> named tbl (tlsname e) = Some e"
  by (induction tbl) (auto simp: named_def)

text \<open>
  C5: Registering a fresh NID under the name of a table entry makes the NID's key creation work:
  \<open>oqsx_key_new_from_nid\<close> has no undefined behaviour whatever OpenSSL's calls and the allocator
  answer, and a key it returns is well-formed and carries the entry's key type, security level
  and name.
\<close>

theorem registered_nid_new_key:
  assumes "e \<in> set (nid_names kem_encoders)" and "n \<noteq> 0" and "sn n = Some (tlsname e)"
    and "tbl = snd (oqs_set_nid (nid_names kem_encoders) (tlsname e) n)"
  shows "oqsx_key_new_from_nid L C ok tbl sn lc pq n \<noteq> Inl UB \<and>
    (\<forall>k. oqsx_key_new_from_nid L C ok tbl sn lc pq n = Inr k \<longrightarrow>
       wf_key k \<and> keytype k = ne_keytype e \<and> bit_security k = secbits e \<and> tls_name k = tlsname e)"
proof -
  have nm: "named (nid_names kem_encoders) (tlsname e) = Some e"
    by (rule named_distinct [OF assms(1) distinct_tlsnames])
  have fresh: "n \<notin> ne_nid ` set (nid_names kem_encoders)"
    using nid_names_unregistered [of kem_encoders] assms(2) by auto
  note look = secbits.look_registered [OF nm fresh] keytype.look_registered [OF nm fresh]
    oqsname.look_registered [OF nm fresh] reverseshare.look_registered [OF nm fresh]
  have con: "entry_consistent e"
    using entry_consistent_nid_names assms(1) by (auto simp: list_all_iff)
  have eq: "oqsx_key_new_from_nid L C ok tbl sn lc pq n =
      oqsx_key_new L C ok lc (Some (oqsname e)) (Some (tlsname e)) (ne_keytype e) pq
        (secbits e) (get_oqsalg_idx tbl n) (reverseshare e)"
    by (simp add: oqsx_key_new_from_nid_def assms(3,4) look)
  show ?thesis
    unfolding eq using entry_consistent_no_UB [OF con]
    by (auto simp: oqsx_key_new_UB dest!: oqsx_key_new_wf)
qed

lemma registered_nid_new_key_witness:
  "oqsx_key_new_from_nid sample_liboqs all_calls_ok (\<lambda>_. True)
     (snd (oqs_set_nid (nid_names False) (tlsname (nid_names_sig ! 1)) 1200))
     (\<lambda>_. Some (tlsname (nid_names_sig ! 1))) 0 None 1200 \<noteq> (Inl UB :: sample_pkey oqsx_key res)"
  by (rule registered_nid_new_key [where kem_encoders = False, THEN conjunct1])
    (simp_all add: nid_names_def)

subsection \<open>Where the selection of a classical algorithm leaves its tables\<close>

lemma find_name_all_Some: "None \<notin> set ns \<Longrightarrow> find_name t ns i \<noteq> Inl UB"
  by (auto simp: find_name_UB) (metis nth_mem option.exhaust)

lemma init_ecbp_null_name:
  "oqshybkem_init_ecbp C ec t = Inl UB \<longleftrightarrow>
     \<not> strncasecmp_eq t ''bp256'' 5 \<and> \<not> strncasecmp_eq t ''bp384'' 5 \<and> \<not> strncasecmp_eq t ''bp512'' 5"
proof -
  have "oqshybkem_init_ecbp C ec t = Inl UB \<longleftrightarrow> find_name t OQSX_ECBP_NAMES 0 = Inl UB"
    unfolding oqshybkem_init_ecbp_def by (rule init_ec_curve_UB) (simp add: OQSX_ECBP_NAMES_def)
  then show ?thesis
    by (simp add: OQSX_ECBP_NAMES_def eval_nat_numeral)
qed

lemma init_ecp_ecx_safe: "oqshybkem_init_ecp C ec t \<noteq> Inl UB" "oqshybkem_init_ecx C ec t \<noteq> Inl UB"
proof -
  have "oqshybkem_init_ecp C ec t = Inl UB \<longleftrightarrow> find_name t OQSX_ECP_NAMES 0 = Inl UB"
    unfolding oqshybkem_init_ecp_def by (rule init_ec_curve_UB) (simp add: OQSX_ECP_NAMES_def)
  then show "oqshybkem_init_ecp C ec t \<noteq> Inl UB"
    using find_name_all_Some [of OQSX_ECP_NAMES t 0] by (simp add: OQSX_ECP_NAMES_def)
  have "find_name t OQSX_ECX_NAMES 0 \<noteq> Inl UB"
    by (rule find_name_all_Some) (simp add: OQSX_ECX_NAMES_def)
  moreover have "j < 2" if "find_name t OQSX_ECX_NAMES 0 = Inr (Some j)" for j
    using find_name_Some [OF that] by (simp add: OQSX_ECX_NAMES_def)
  ultimately show "oqshybkem_init_ecx C ec t \<noteq> Inl UB"
    by (auto simp: oqshybkem_init_ecx_def bindR_eq_UB Let_def split: option.splits)
qed

text \<open>
  C32: the initialisers of the classical part leave their tables, or the algorithm's name, on exactly these
  inputs. \<open>oqsx_hybsig_init\<close>: a security level between 65 and 511, and either the name \<^verbatim>\<open>b\<close> or, from
  level 256 on, a name that starts with \<^verbatim>\<open>e\<close> (the index is 2 or more, and the Edwards entries
  are only two). The brainpool initialiser: every name that does not start with one of the three
  curve names, because the search runs into the NULL that ends the names, which \<^verbatim>\<open>OSSL_NELEM\<close>
  counts. The initialisers for the NIST and the Montgomery curves: none.
\<close>

theorem classical_init_bounds:
  "(oqsx_hybsig_init bits C ec name = Inl UB \<longleftrightarrow>
     64 < bits \<and> bits < 512 \<and> (name = ''b'' \<or> 256 \<le> bits \<and> cstr name ! 0 = CHR ''e'')) \<and>
   (oqshybkem_init_ecbp C ec name = Inl UB \<longleftrightarrow>
     \<not> strncasecmp_eq name ''bp256'' 5 \<and> \<not> strncasecmp_eq name ''bp384'' 5 \<and> \<not> strncasecmp_eq name ''bp512'' 5) \<and>
   oqshybkem_init_ecp C ec name \<noteq> Inl UB \<and> oqshybkem_init_ecx C ec name \<noteq> Inl UB"
  by (intro conjI oqsx_hybsig_init_UB init_ecbp_null_name init_ecp_ecx_safe)

end
